(* ===== verification/Tcpxo_Prelude.thy ===== *)
theory Tcpxo_Prelude
  imports Main "HOL-Library.Word"
begin

text \<open>
  Shared vocabulary of the development: machine integers at their C++ width, the status codes
  of \<^verbatim>\<open>absl::StatusCode\<close>, little-endian byte encodings of packed structs, copying bytes into a
  memory area, reading a ring buffer past its end, and the generic lemmas on lists and words the
  component theories share. Lemmas about reading and writing memory are collected in
  \<open>mem_simps\<close>, lemmas about byte encodings in \<open>wire_simps\<close>.
\<close>

named_theorems mem_simps
named_theorems wire_simps

type_synonym u8 = "8 word"
type_synonym u16 = "16 word"
type_synonym u32 = "32 word"
type_synonym u64 = "64 word"

section \<open>Status codes\<close>

text \<open>
  \<^verbatim>\<open>absl::StatusCode\<close>. A \<^verbatim>\<open>StatusOr<T>\<close> is a sum with the code on the left; the text of a
  status is not modelled.
\<close>

datatype StatusCode =
    kOk | kCancelled | kUnknown | kInvalidArgument | kDeadlineExceeded | kNotFound
  | kAlreadyExists | kPermissionDenied | kResourceExhausted | kFailedPrecondition | kAborted
  | kOutOfRange | kUnimplemented | kInternal | kUnavailable | kDataLoss | kUnauthenticated

type_synonym 'a StatusOr = "StatusCode + 'a"

text \<open>\<^verbatim>\<open>ncclResult_t\<close>.\<close>

datatype ncclResult =
    ncclSuccess | ncclUnhandledCudaError | ncclSystemError | ncclInternalError | ncclInvalidArgument | ncclInvalidUsage
  | ncclRemoteError

section \<open>Little-endian bytes\<close>

fun le_bytes :: "nat \<Rightarrow> nat \<Rightarrow> u8 list" where
  "le_bytes 0 n = []"
| "le_bytes (Suc k) n = of_nat n # le_bytes k (n div 256)"

fun le_nat :: "u8 list \<Rightarrow> nat" where
  "le_nat [] = 0"
| "le_nat (b # bs) = unat b + 256 * le_nat bs"

lemma length_le_bytes [simp, wire_simps]: "length (le_bytes k n) = k"
  by (induction k arbitrary: n) auto

lemma unat_u8_less [simp]: "unat (b :: u8) < 256"
  using unsigned_less [of b, where ?'a = nat] by simp

lemma unat_u64_less [simp]: "unat (x :: u64) < 18446744073709551616"
  using unsigned_less [of x, where ?'a = nat] by simp

lemma unat_u16_less: "unat (x :: u16) < 65536"
  using unsigned_less [of x, where ?'a = nat] by simp

lemma unat_u32_less: "unat (x :: u32) < 4294967296"
  using unsigned_less [of x, where ?'a = nat] by simp

lemma unat_byte: "unat (of_nat n :: u8) = n mod 256"
  by (simp add: unat_of_nat)

lemma le_nat_le_bytes: "le_nat (le_bytes k n) = n mod 256 ^ k"
proof (induction k arbitrary: n)
  case 0
  then show ?case by simp
next
  case (Suc k)
  have "n mod 256 ^ Suc k = 256 * (n div 256 mod 256 ^ k) + n mod 256"
    by (simp add: mod_mult2_eq)
  with Suc show ?case by (simp add: unat_byte)
qed

lemma le_nat_le_bytes_id [simp, wire_simps]: "n < 256 ^ k \<Longrightarrow> le_nat (le_bytes k n) = n"
  by (simp add: le_nat_le_bytes)

lemma le_nat_less: "le_nat bs < 256 ^ length bs"
proof (induction bs)
  case (Cons b bs)
  have "unat b < 256" by simp
  moreover have "256 * le_nat bs + 256 \<le> 256 * 256 ^ length bs"
    using Cons by (metis Suc_leI add.commute mult_Suc_right mult_le_mono2)
  ultimately have "unat b + 256 * le_nat bs < 256 * 256 ^ length bs" by linarith
  then show ?case by simp
qed simp

lemma le_bytes_le_nat [simp, wire_simps]: "le_bytes (length bs) (le_nat bs) = bs"
proof (induction bs)
  case (Cons b bs)
  have less: "unat b < 256" by simp
  then have "unat (of_nat (unat b + 256 * le_nat bs) :: u8) = unat b"
    unfolding unat_byte by simp
  then have "(of_nat (unat b + 256 * le_nat bs) :: u8) = b"
    by (simp only: word_unat_eq_iff)
  moreover have "(unat b + 256 * le_nat bs) div 256 = le_nat bs"
    using less by simp
  ultimately show ?case using Cons by simp
qed simp

lemma le_bytes_inj:
  assumes "le_bytes k m = le_bytes k n" and "m < 256 ^ k" and "n < 256 ^ k"
  shows "m = n"
  using assms le_nat_le_bytes_id by metis

section \<open>Copying into memory\<close>

text \<open>\<open>write_at off bs mem\<close> is \<^verbatim>\<open>memcpy(mem + off, bs, |bs|)\<close> for a destination that lies inside
  \<open>mem\<close>.\<close>

definition write_at :: "nat \<Rightarrow> 'a list \<Rightarrow> 'a list \<Rightarrow> 'a list" where
  "write_at off bs mem = take off mem @ bs @ drop (off + length bs) mem"

lemma length_write_at [simp, mem_simps]:
  "off + length bs \<le> length mem \<Longrightarrow> length (write_at off bs mem) = length mem"
  by (simp add: write_at_def)

lemma write_at_Nil [simp, mem_simps]: "write_at off [] mem = mem"
  by (simp add: write_at_def)

lemma nth_write_at [mem_simps]:
  assumes "off + length bs \<le> length mem" and "j < length mem"
  shows "write_at off bs mem ! j
    = (if off \<le> j \<and> j < off + length bs then bs ! (j - off) else mem ! j)"
proof -
  have "min (length mem) off = off" using assms by simp
  then show ?thesis
    using assms by (auto simp: write_at_def nth_append not_less)
qed

lemma write_at_append:
  assumes "off + length xs + length ys \<le> length mem"
  shows "write_at (off + length xs) ys (write_at off xs mem) = write_at off (xs @ ys) mem"
proof (rule nth_equalityI)
  show "length (write_at (off + length xs) ys (write_at off xs mem))
      = length (write_at off (xs @ ys) mem)"
    using assms by simp
  fix j
  assume "j < length (write_at (off + length xs) ys (write_at off xs mem))"
  then have "j < length mem" using assms by simp
  then show "write_at (off + length xs) ys (write_at off xs mem) ! j
      = write_at off (xs @ ys) mem ! j"
    using assms by (auto simp: nth_write_at nth_append)
qed

section \<open>Reading a ring buffer\<close>

text \<open>The \<open>n\<close> bytes of a circular buffer that start at position \<open>p\<close>, taken modulo its length.\<close>

definition ring_read :: "'a list \<Rightarrow> nat \<Rightarrow> nat \<Rightarrow> 'a list" where
  "ring_read ring p n = map (\<lambda>i. ring ! ((p + i) mod length ring)) [0..<n]"

lemma length_ring_read [simp, mem_simps]: "length (ring_read ring p n) = n"
  by (simp add: ring_read_def)

lemma nth_ring_read [simp, mem_simps]:
  "i < n \<Longrightarrow> ring_read ring p n ! i = ring ! ((p + i) mod length ring)"
  by (simp add: ring_read_def)

lemma ring_read_0 [simp, mem_simps]: "ring_read ring p 0 = []"
  by (simp add: ring_read_def)

lemma ring_read_add: "ring_read ring p (m + n) = ring_read ring p m @ ring_read ring (p + m) n"
  by (rule nth_equalityI) (auto simp: nth_append add.assoc)

lemma take_ring_read [simp, mem_simps]: "m \<le> n \<Longrightarrow> take m (ring_read ring p n) = ring_read ring p m"
  by (rule nth_equalityI) auto

lemma drop_ring_read [simp, mem_simps]:
  "m \<le> n \<Longrightarrow> drop m (ring_read ring p n) = ring_read ring (p + m) (n - m)"
  by (rule nth_equalityI) (auto simp: add.assoc)

lemma ring_read_cong_mod:
  "p mod length ring = q mod length ring \<Longrightarrow> ring_read ring p n = ring_read ring q n"
  unfolding ring_read_def by (metis mod_add_left_eq)

section \<open>Writing a ring buffer\<close>

text \<open>\<open>ring_offset N p j\<close> is how far the index \<open>j\<close> of a ring of length \<open>N\<close> lies past position \<open>p\<close>.\<close>

definition ring_offset :: "nat \<Rightarrow> nat \<Rightarrow> nat \<Rightarrow> nat" where
  "ring_offset N p j = (j + (N - p mod N)) mod N"

definition ring_write :: "'a list \<Rightarrow> nat \<Rightarrow> 'a list \<Rightarrow> 'a list" where
  "ring_write ring p bs =
     map (\<lambda>j. let i = ring_offset (length ring) p j in if i < length bs then bs ! i else ring ! j)
       [0..<length ring]"

lemma ring_offset_less [simp]: "0 < N \<Longrightarrow> ring_offset N p j < N"
  by (simp add: ring_offset_def)

lemma ring_offset_position: 
  assumes "j < N"
  shows "(p + ring_offset N p j) mod N = j"
proof -
  have "p mod N < N" using assms by simp
  have "(p + ring_offset N p j) mod N = (p mod N + (j + (N - p mod N))) mod N"
    unfolding ring_offset_def by (metis mod_add_eq mod_mod_trivial)
  also have "p mod N + (j + (N - p mod N)) = j + N"
    using \<open>p mod N < N\<close> by simp
  finally show ?thesis using assms by simp
qed

lemma ring_position_offset:
  assumes "i < N"
  shows "ring_offset N p ((p + i) mod N) = i"
proof -
  have "p mod N < N" using assms by simp
  have "ring_offset N p ((p + i) mod N) = (p mod N + i + (N - p mod N)) mod N"
    unfolding ring_offset_def by (metis mod_add_left_eq)
  also have "p mod N + i + (N - p mod N) = i + N"
    using \<open>p mod N < N\<close> by simp
  finally show ?thesis using assms by simp
qed

lemma length_ring_write [simp, mem_simps]: "length (ring_write ring p bs) = length ring"
  by (simp add: ring_write_def)

lemma nth_ring_write [mem_simps]:
  "i < length ring \<Longrightarrow> ring_write ring p bs ! ((p + i) mod length ring)
    = (if i < length bs then bs ! i else ring ! ((p + i) mod length ring))"
proof -
  assume i: "i < length ring"
  then have "(p + i) mod length ring < length ring" by (intro mod_less_divisor) auto
  with i show ?thesis by (simp add: ring_write_def ring_position_offset Let_def)
qed

text \<open>Two rings are equal when they agree on every position counted from some \<open>p\<close>.\<close>

lemma ring_eqI:
  assumes "length r = length r'"
    and "\<And>i. i < length r \<Longrightarrow> r ! ((p + i) mod length r) = r' ! ((p + i) mod length r)"
  shows "r = r'"
proof (rule nth_equalityI)
  fix j
  assume "j < length r"
  then have "ring_offset (length r) p j < length r"
    by (metis gr_zeroI not_less_zero ring_offset_less)
  from assms(2) [OF this] show "r ! j = r' ! j"
    by (simp add: ring_offset_position \<open>j < length r\<close>)
qed (rule assms(1))

lemma ring_write_append:
  assumes "length xs + length ys \<le> length ring"
  shows "ring_write (ring_write ring p xs) (p + length xs) ys = ring_write ring p (xs @ ys)"
proof (rule ring_eqI [where p = p])
  fix i
  assume "i < length (ring_write (ring_write ring p xs) (p + length xs) ys)"
  then have i: "i < length ring" by simp
  show "ring_write (ring_write ring p xs) (p + length xs) ys
      ! ((p + i) mod length (ring_write (ring_write ring p xs) (p + length xs) ys))
    = ring_write ring p (xs @ ys)
      ! ((p + i) mod length (ring_write (ring_write ring p xs) (p + length xs) ys))"
  proof (cases "length xs \<le> i")
    case True
    then obtain k where k: "i = length xs + k" using le_Suc_ex by blast
    with i have "k < length ring" by simp
    then show ?thesis
      using i k nth_ring_write [of k "ring_write ring p xs" "p + length xs" ys]
        nth_ring_write [of i ring p xs] nth_ring_write [of i ring p "xs @ ys"]
      by (simp add: add.assoc nth_append)
  next
    case False
    define k where "k = length ring - length xs + i"
    have k: "k < length ring" "length ys \<le> k" "p + length xs + k = p + i + length ring"
      using False assms i by (auto simp: k_def)
    have "(p + length xs + k) mod length ring = (p + i) mod length ring"
      by (simp only: k(3) mod_add_self2)
    with k show ?thesis
      using i False nth_ring_write [of k "ring_write ring p xs" "p + length xs" ys]
        nth_ring_write [of i ring p xs] nth_ring_write [of i ring p "xs @ ys"]
      by (simp add: nth_append)
  qed
qed simp

lemma ring_read_write_same [simp, mem_simps]:
  "length bs \<le> length ring \<Longrightarrow> ring_read (ring_write ring p bs) p (length bs) = bs"
  by (rule nth_equalityI) (auto simp: nth_ring_write)

text \<open>
  Data that lies between \<open>c\<close> and \<open>p\<close> survives a write at \<open>p\<close> that does not reach \<open>c\<close> again.
\<close>

lemma ring_read_write_before:
  assumes "p mod length ring = (c + d) mod length ring" and "d + length bs \<le> length ring"
  shows "ring_read (ring_write ring p bs) c d = ring_read ring c d"
proof (rule nth_equalityI)
  fix i
  assume "i < length (ring_read (ring_write ring p bs) c d)"
  then have i: "i < d" by simp
  define k where "k = length ring - d + i"
  have k: "k < length ring" "length bs \<le> k" "c + d + k = c + i + length ring"
    using i assms by (auto simp: k_def)
  have "(p + k) mod length ring = (c + d + k) mod length ring"
    using assms(1) by (metis mod_add_left_eq)
  also have "\<dots> = (c + i) mod length ring" by (simp only: k(3) mod_add_self2)
  finally show "ring_read (ring_write ring p bs) c d ! i = ring_read ring c d ! i"
    using i k nth_ring_write [of k ring p bs] by simp
qed simp

section \<open>Words used as counters and masks\<close>

text \<open>\<^verbatim>\<open>absl::has_single_bit\<close>: exactly one bit is set.\<close>

definition has_single_bit :: "u64 \<Rightarrow> bool" where
  "has_single_bit x \<longleftrightarrow> length (filter (bit x) [0..<64]) = 1"

lemma has_single_bit_power:
  assumes "has_single_bit x"
  obtains k where "k < 64" and "x = 2 ^ k"
proof -
  obtain k where k: "filter (bit x) [0..<64] = [k]"
    using assms unfolding has_single_bit_def One_nat_def length_Suc_conv by blast
  then have "set (filter (bit x) [0..<64]) = {k}" by (simp del: upt_rec_numeral)
  then have set: "{i. i < 64 \<and> bit x i} = {k}"
    by (simp only: set_filter set_upt) auto
  then have "k < 64" by auto
  moreover have "x = 2 ^ k"
  proof (rule bit_word_eqI)
    fix n :: nat
    assume "n < LENGTH(64)"
    then have "bit x n \<longleftrightarrow> n = k" using set by auto
    then show "bit x n \<longleftrightarrow> bit (2 ^ k :: u64) n"
      using \<open>n < LENGTH(64)\<close> \<open>k < 64\<close> by (auto simp: bit_2_iff bit_exp_iff)
  qed
  ultimately show thesis by (rule that)
qed

lemma unat_and_mask:
  assumes "k < 64"
  shows "unat (and x (2 ^ k - 1 :: u64)) = unat x mod 2 ^ k"
proof -
  have "and x (2 ^ k - 1) = take_bit k x"
    by (simp add: take_bit_eq_mask mask_eq_exp_minus_1)
  then have "unat (and x (2 ^ k - 1)) = take_bit k (unat x)"
    by (simp add: unsigned_take_bit_eq)
  then show ?thesis by (simp add: take_bit_eq_mod)
qed

lemma unat_add_u64: "unat (a + b :: u64) = (unat a + unat b) mod 18446744073709551616"
  by (simp add: unat_word_ariths)

lemma unat_of_nat_u64: "n < 18446744073709551616 \<Longrightarrow> unat (of_nat n :: u64) = n"
  by (simp add: unat_of_nat)

text \<open>
  A 64-bit counter that has advanced by \<open>d\<close> is at the same place of a ring whose length divides
  \<open>2^64\<close> as the unbounded position it stands for.
\<close>

lemma unat_advance_mod:
  assumes "N dvd (18446744073709551616::nat)"
  shows "unat (c + d :: u64) mod N = (unat c + unat d) mod N"
  using assms by (simp add: unat_add_u64 mod_mod_cancel)

lemma unat_diff_mod:
  assumes "N dvd (18446744073709551616::nat)"
  shows "(unat c + unat (p - c :: u64)) mod N = unat p mod N"
  using unat_advance_mod [OF assms, of c "p - c"] by simp

lemma unat_diff_u64: "unat b \<le> unat (a :: u64) \<Longrightarrow> unat (a - b) = unat a - unat b"
  by (rule unat_sub) (simp only: word_le_nat_alt)

lemma to_ring_end:
  assumes "0 < (N :: nat)"
  shows "(p + (N - p mod N)) mod N = 0"
proof -
  have "(p + (N - p mod N)) mod N = (p mod N + (N - p mod N)) mod N"
    by (metis mod_add_left_eq)
  also have "p mod N + (N - p mod N) = N"
    using mod_less_divisor [OF assms, of p] by linarith
  finally show ?thesis by simp
qed

end
