(* ===== verification/Spsc_Queue_Pair.thy ===== *)
theory Spsc_Queue_Pair
  imports Tcpxo_Prelude
begin

unbundle bit_operations_syntax

text \<open>
  The byte-level single-producer single-consumer queue of
  \<^verbatim>\<open>dxs/client/spsc_queue/spsc_queue_pair.{h,cc}\<close>: two circular buffers in memory shared by two
  endpoints. An endpoint reads its own region (doorbells and ring) and writes the region of its
  peer. Counters are 64-bit and wrap; span sizes are the sizes of parts of one ring, whose sums
  stay below \<open>2^64\<close>, and are natural numbers. The model is of the release build: \<^verbatim>\<open>DCHECK\<close> and
  \<^verbatim>\<open>LOG(DFATAL)\<close> have no effect; \<^verbatim>\<open>Warmup\<close> only reads memory and is left out. MMIO barriers order
  the writes of one endpoint, which the model performs in program order.
\<close>

section \<open>State\<close>

definition kPageSize :: u64 where "kPageSize = 4096"
definition kDoorbellsSize :: u64 where "kDoorbellsSize = kPageSize"

text \<open>An \<^verbatim>\<open>absl::Span\<close> over raw memory: where it starts and how long it is.\<close>

record byte_span =
  span_data :: u64
  span_size :: u64

text \<open>The memory of one endpoint: the two doorbell registers and the ring the peer writes to.\<close>

record region =
  bytes_produced :: u64
  remote_bytes_consumed :: u64
  ring :: "u8 list"

record SpscQueuePair =
  q_local_ring :: byte_span
  q_remote_ring :: byte_span
  q_local_bytes_consumed :: u64
  q_remote_bytes_produced :: u64
  q_local_ring_size_mask :: u64
  q_remote_ring_size_mask :: u64

record SpscQueuePairState =
  state_local_bytes_consumed :: u64
  state_remote_bytes_produced :: u64

text \<open>A part of a ring, as \<^verbatim>\<open>subspan\<close> makes it.\<close>

record segment =
  seg_off :: nat
  seg_size :: nat

abbreviation empty_segment :: segment where
  "empty_segment \<equiv> \<lparr>seg_off = 0, seg_size = 0\<rparr>"

definition remove_prefix :: "nat \<Rightarrow> segment \<Rightarrow> segment" where
  "remove_prefix n s = \<lparr>seg_off = seg_off s + n, seg_size = seg_size s - n\<rparr>"

record SendBatch =
  sb_segment :: segment
  sb_backup_segment :: segment
  sb_pending_bytes :: u64

record ReceiveBatch =
  rb_segment :: segment
  rb_backup_segment :: segment
  rb_taken_bytes :: u64

section \<open>Copying to MMIO memory\<close>

definition load32 :: "u8 list \<Rightarrow> nat \<Rightarrow> u32" where
  "load32 mem off = of_nat (le_nat (take 4 (drop off mem)))"

definition MmioWriteRelaxed32 :: "nat \<Rightarrow> u32 \<Rightarrow> u8 list \<Rightarrow> u8 list" where
  "MmioWriteRelaxed32 off v mem = write_at off (le_bytes 4 (unat v)) mem"

definition MmioWriteRelaxed8 :: "nat \<Rightarrow> u8 \<Rightarrow> u8 list \<Rightarrow> u8 list" where
  "MmioWriteRelaxed8 off v mem = write_at off [v] mem"

text \<open>The count \<open>n\<close> is a multiple of four wherever the code calls this.\<close>

fun MemcpyToMmio32 :: "nat \<Rightarrow> nat \<Rightarrow> nat \<Rightarrow> u8 list \<Rightarrow> u8 list \<Rightarrow> u8 list" where
  "MemcpyToMmio32 dst src n buffer mem =
     (if n > 0
      then MemcpyToMmio32 (dst + 4) (src + 4) (n - 4) buffer
             (MmioWriteRelaxed32 dst (load32 buffer src) mem)
      else mem)"

fun MemcpyToMmio8 :: "nat \<Rightarrow> nat \<Rightarrow> nat \<Rightarrow> u8 list \<Rightarrow> u8 list \<Rightarrow> u8 list" where
  "MemcpyToMmio8 dst src n buffer mem =
     (if n > 0
      then MemcpyToMmio8 (dst + 1) (src + 1) (n - 1) buffer
             (MmioWriteRelaxed8 dst (buffer ! src) mem)
      else mem)"

declare MemcpyToMmio32.simps [simp del] MemcpyToMmio8.simps [simp del]

text \<open>
  \<open>base\<close> and \<open>addr\<close> are the addresses of the memory and of the source buffer; the copy goes from
  offset \<open>src\<close> of the buffer to offset \<open>dst\<close> of the memory.
\<close>

definition MemcpyToMmio ::
    "u64 \<Rightarrow> nat \<Rightarrow> u64 \<Rightarrow> nat \<Rightarrow> nat \<Rightarrow> u8 list \<Rightarrow> u8 list \<Rightarrow> u8 list" where
  "MemcpyToMmio base dst addr src len buffer mem =
     (if (base + of_nat dst) mod 4 = 0 \<and> (addr + of_nat src) mod 4 = 0
      then let words = len div 4 in
        MemcpyToMmio8 (dst + words * 4) (src + words * 4) (len mod 4) buffer
          (MemcpyToMmio32 dst src (words * 4) buffer mem)
      else MemcpyToMmio8 dst src len buffer mem)"

section \<open>Construction\<close>

definition check_region :: "byte_span \<Rightarrow> byte_span \<Rightarrow> StatusCode" where
  "check_region doorbells ring_span =
     (if span_size doorbells < kDoorbellsSize then kInvalidArgument
      else if span_data doorbells mod kPageSize \<noteq> 0 then kInvalidArgument
      else if span_size ring_span mod kPageSize \<noteq> 0 then kInvalidArgument
      else if \<not> has_single_bit (span_size ring_span) then kInvalidArgument
      else if span_data ring_span mod kPageSize \<noteq> 0 then kInvalidArgument
      else kOk)"

definition new_SpscQueuePair :: "byte_span \<Rightarrow> byte_span \<Rightarrow> SpscQueuePair" where
  "new_SpscQueuePair local_ring remote_ring =
     \<lparr>q_local_ring = local_ring, q_remote_ring = remote_ring,
      q_local_bytes_consumed = 0, q_remote_bytes_produced = 0,
      q_local_ring_size_mask = span_size local_ring - 1,
      q_remote_ring_size_mask = span_size remote_ring - 1\<rparr>"

definition MakeSpscQueuePair ::
    "byte_span \<Rightarrow> byte_span \<Rightarrow> byte_span \<Rightarrow> byte_span \<Rightarrow> SpscQueuePair StatusOr" where
  "MakeSpscQueuePair local_doorbells local_ring remote_doorbells remote_ring =
     (let local_status = check_region local_doorbells local_ring in
      if local_status \<noteq> kOk then Inl local_status
      else let remote_status = check_region remote_doorbells remote_ring in
      if remote_status \<noteq> kOk then Inl remote_status
      else Inr (new_SpscQueuePair local_ring remote_ring))"

section \<open>Sending\<close>

definition BeginSend :: "SpscQueuePair \<Rightarrow> region \<Rightarrow> SendBatch" where
  "BeginSend q local =
     (let size = span_size (q_remote_ring q);
          remote_ring_used = q_remote_bytes_produced q - remote_bytes_consumed local;
          remote_ring_free = size - remote_ring_used
      in
      if remote_ring_free > size
      then \<lparr>sb_segment = empty_segment, sb_backup_segment = empty_segment, sb_pending_bytes = 0\<rparr>
      else
        let remote_ring_free_offset = q_remote_bytes_produced q AND q_remote_ring_size_mask q in
        if remote_ring_free > size - remote_ring_free_offset
        then
          let segment_size = size - remote_ring_free_offset;
              backup_segment_size = remote_ring_free - segment_size
          in \<lparr>sb_segment = \<lparr>seg_off = unat remote_ring_free_offset, seg_size = unat segment_size\<rparr>,
              sb_backup_segment = \<lparr>seg_off = 0, seg_size = unat backup_segment_size\<rparr>,
              sb_pending_bytes = 0\<rparr>
        else
          \<lparr>sb_segment = \<lparr>seg_off = unat remote_ring_free_offset,
                        seg_size = unat remote_ring_free\<rparr>,
           sb_backup_segment = empty_segment, sb_pending_bytes = 0\<rparr>)"

text \<open>\<open>addr\<close> is the address of the caller's buffer; the ring is the peer's.\<close>

definition SendBatch_Append ::
    "SpscQueuePair \<Rightarrow> u64 \<Rightarrow> u8 list \<Rightarrow> SendBatch \<times> u8 list \<Rightarrow> StatusCode \<times> SendBatch \<times> u8 list" where
  "SendBatch_Append q addr buffer = (\<lambda>(batch, mem).
     let size = length buffer;
         base = span_data (q_remote_ring q);
         segment = sb_segment batch;
         backup = sb_backup_segment batch
     in
     if seg_size segment + seg_size backup < size then (kResourceExhausted, batch, mem)
     else
       let len1 = min size (seg_size segment);
           mem1 = MemcpyToMmio base (seg_off segment) addr 0 len1 buffer mem;
           pending1 = sb_pending_bytes batch + of_nat len1
       in
       if len1 = size
       then (kOk, batch\<lparr>sb_segment := remove_prefix len1 segment, sb_pending_bytes := pending1\<rparr>, mem1)
       else
         let len2 = size - len1;
             mem2 = MemcpyToMmio base (seg_off backup) addr len1 len2 buffer mem1
         in (kOk,
             batch\<lparr>sb_segment := remove_prefix len2 backup, sb_backup_segment := empty_segment,
                   sb_pending_bytes := pending1 + of_nat len2\<rparr>,
             mem2))"

definition SendBatch_Skip :: "nat \<Rightarrow> SendBatch \<Rightarrow> StatusCode \<times> SendBatch" where
  "SendBatch_Skip bytes batch =
     (let segment = sb_segment batch; backup = sb_backup_segment batch in
      if seg_size segment + seg_size backup < bytes then (kResourceExhausted, batch)
      else if bytes \<le> seg_size segment
      then (kOk, batch\<lparr>sb_segment := remove_prefix bytes segment,
                       sb_pending_bytes := sb_pending_bytes batch + of_nat bytes\<rparr>)
      else (kOk, batch\<lparr>sb_segment := remove_prefix (bytes - seg_size segment) backup,
                       sb_backup_segment := empty_segment,
                       sb_pending_bytes := sb_pending_bytes batch + of_nat bytes\<rparr>))"

definition SendBatch_Commit :: "SendBatch \<Rightarrow> SpscQueuePair \<times> region \<Rightarrow> SpscQueuePair \<times> region" where
  "SendBatch_Commit batch = (\<lambda>(q, remote).
     let produced = q_remote_bytes_produced q + sb_pending_bytes batch
     in (q\<lparr>q_remote_bytes_produced := produced\<rparr>, remote\<lparr>bytes_produced := produced\<rparr>))"

section \<open>Receiving\<close>

definition BeginReceive :: "SpscQueuePair \<Rightarrow> region \<Rightarrow> ReceiveBatch StatusOr" where
  "BeginReceive q local =
     (let size = span_size (q_local_ring q);
          bytes_available = bytes_produced local - q_local_bytes_consumed q
      in
      if bytes_available = 0 then Inl kUnavailable
      else if bytes_available > size then Inl kOutOfRange
      else
        let start_offset = q_local_bytes_consumed q AND q_local_ring_size_mask q;
            wrap_length = min bytes_available (size - start_offset)
        in Inr
          \<lparr>rb_segment = \<lparr>seg_off = unat start_offset, seg_size = unat wrap_length\<rparr>,
           rb_backup_segment =
             (if wrap_length < bytes_available
              then \<lparr>seg_off = 0, seg_size = unat (bytes_available - wrap_length)\<rparr>
              else empty_segment),
           rb_taken_bytes = 0\<rparr>)"

definition RemainingBytes :: "ReceiveBatch \<Rightarrow> nat" where
  "RemainingBytes batch = seg_size (rb_segment batch) + seg_size (rb_backup_segment batch)"

text \<open>The bytes a segment spans in the ring.\<close>

definition seg_bytes :: "'a list \<Rightarrow> segment \<Rightarrow> 'a list" where
  "seg_bytes mem s = take (seg_size s) (drop (seg_off s) mem)"

text \<open>\<open>buffer\<close> is the caller's buffer, or \<open>None\<close> for a null pointer; the ring is our own.\<close>

definition ReceiveBatch_Recv ::
    "u8 list \<Rightarrow> nat \<Rightarrow> u8 list option \<times> ReceiveBatch \<Rightarrow> StatusCode \<times> u8 list option \<times> ReceiveBatch"
    where
  "ReceiveBatch_Recv mem bytes = (\<lambda>(buffer, batch).
     if RemainingBytes batch < bytes then (kUnavailable, buffer, batch)
     else
       let take1 = min bytes (seg_size (rb_segment batch));
           buffer1 = map_option (write_at 0 (take take1 (seg_bytes mem (rb_segment batch)))) buffer;
           segment1 = remove_prefix take1 (rb_segment batch);
           promote = (seg_size segment1 = 0);
           segment2 = (if promote then rb_backup_segment batch else segment1);
           backup2 = (if promote then empty_segment else rb_backup_segment batch);
           taken1 = rb_taken_bytes batch + of_nat take1
       in
       if take1 = bytes
       then (kOk, buffer1,
             \<lparr>rb_segment = segment2, rb_backup_segment = backup2, rb_taken_bytes = taken1\<rparr>)
       else
         let take2 = bytes - take1;
             buffer2 = map_option (write_at take1 (take take2 (seg_bytes mem segment2))) buffer1
         in (kOk, buffer2,
             \<lparr>rb_segment = remove_prefix take2 segment2, rb_backup_segment = backup2,
              rb_taken_bytes = taken1 + of_nat take2\<rparr>))"

definition RemovePrefix :: "u8 list \<Rightarrow> nat \<Rightarrow> ReceiveBatch \<Rightarrow> StatusCode \<times> ReceiveBatch" where
  "RemovePrefix mem bytes batch =
     (case ReceiveBatch_Recv mem bytes (None, batch) of (status, _, batch') \<Rightarrow> (status, batch'))"

definition ReceiveBatch_Commit ::
    "ReceiveBatch \<Rightarrow> SpscQueuePair \<times> region \<Rightarrow> SpscQueuePair \<times> region" where
  "ReceiveBatch_Commit batch = (\<lambda>(q, remote).
     let consumed = q_local_bytes_consumed q + rb_taken_bytes batch
     in (q\<lparr>q_local_bytes_consumed := consumed\<rparr>, remote\<lparr>remote_bytes_consumed := consumed\<rparr>))"

section \<open>Hitless restart\<close>

definition SaveState :: "SpscQueuePair \<Rightarrow> SpscQueuePairState" where
  "SaveState q = \<lparr>state_local_bytes_consumed = q_local_bytes_consumed q,
                  state_remote_bytes_produced = q_remote_bytes_produced q\<rparr>"

definition RestoreState ::
    "SpscQueuePairState \<Rightarrow> region \<Rightarrow> SpscQueuePair \<Rightarrow> StatusCode \<times> SpscQueuePair" where
  "RestoreState state remote q =
     (if q_local_bytes_consumed q \<noteq> 0 \<or> q_remote_bytes_produced q \<noteq> 0 then (kFailedPrecondition, q)
      else if state_local_bytes_consumed state \<noteq> remote_bytes_consumed remote
            \<or> state_remote_bytes_produced state \<noteq> bytes_produced remote
      then (kInvalidArgument, q)
      else (kOk, q\<lparr>q_local_bytes_consumed := state_local_bytes_consumed state,
                   q_remote_bytes_produced := state_remote_bytes_produced state\<rparr>))"

section \<open>The optimised copy equals a plain one\<close>

lemma load32_store:
  assumes "src + 4 \<le> length buffer"
  shows "MmioWriteRelaxed32 dst (load32 buffer src) mem
    = write_at dst (take 4 (drop src buffer)) mem"
proof -
  let ?bs = "take 4 (drop src buffer)"
  have len: "length ?bs = 4" using assms by simp
  then have "le_nat ?bs < 4294967296" using le_nat_less [of ?bs] by simp
  then have "unat (load32 buffer src) = le_nat ?bs"
    by (simp add: load32_def unat_of_nat)
  moreover have "le_bytes 4 (le_nat ?bs) = ?bs"
    using le_bytes_le_nat [of ?bs] by (simp only: len)
  ultimately show ?thesis by (simp only: MmioWriteRelaxed32_def)
qed

lemma MemcpyToMmio8_eq:
  assumes "dst + n \<le> length mem" and "src + n \<le> length buffer"
  shows "MemcpyToMmio8 dst src n buffer mem = write_at dst (take n (drop src buffer)) mem"
  using assms
proof (induction n arbitrary: dst src mem)
  case 0
  then show ?case by (simp add: MemcpyToMmio8.simps)
next
  case (Suc n)
  let ?mem = "write_at dst [buffer ! src] mem"
  have "MemcpyToMmio8 (dst + 1) (src + 1) n buffer ?mem
      = write_at (dst + 1) (take n (drop (src + 1) buffer)) ?mem"
    using Suc.prems by (intro Suc.IH) auto
  also have "\<dots> = write_at dst ([buffer ! src] @ take n (drop (src + 1) buffer)) mem"
    using Suc.prems write_at_append [of dst "[buffer ! src]" "take n (drop (src + 1) buffer)" mem]
    by simp
  also have "[buffer ! src] @ take n (drop (src + 1) buffer) = take (Suc n) (drop src buffer)"
    using Suc.prems by (simp add: Cons_nth_drop_Suc [symmetric])
  finally show ?case
    by (subst MemcpyToMmio8.simps) (simp add: MmioWriteRelaxed8_def)
qed

lemma MemcpyToMmio32_eq:
  assumes "dst + 4 * n \<le> length mem" and "src + 4 * n \<le> length buffer"
  shows "MemcpyToMmio32 dst src (4 * n) buffer mem = write_at dst (take (4 * n) (drop src buffer)) mem"
  using assms
proof (induction n arbitrary: dst src mem)
  case 0
  then show ?case by (simp add: MemcpyToMmio32.simps)
next
  case (Suc n)
  let ?word = "take 4 (drop src buffer)"
  let ?rest = "take (4 * n) (drop (src + 4) buffer)"
  let ?mem = "write_at dst ?word mem"
  have len: "length ?word = 4" using Suc.prems by simp
  have "MemcpyToMmio32 (dst + 4) (src + 4) (4 * n) buffer ?mem = write_at (dst + 4) ?rest ?mem"
    using Suc.prems len by (intro Suc.IH) auto
  also have "\<dots> = write_at dst (?word @ ?rest) mem"
    using Suc.prems write_at_append [of dst ?word ?rest mem] by (simp add: len)
  also have "?word @ ?rest = take (4 * Suc n) (drop src buffer)"
    by (simp add: take_add add.commute)
  finally show ?case
    using Suc.prems
    by (subst MemcpyToMmio32.simps) (simp add: load32_store)
qed

lemma MemcpyToMmio_eq [mem_simps]:
  assumes "dst + len \<le> length mem" and "src + len \<le> length buffer"
  shows "MemcpyToMmio base dst addr src len buffer mem = write_at dst (take len (drop src buffer)) mem"
proof (cases "(base + of_nat dst) mod 4 = 0 \<and> (addr + of_nat src) mod 4 = 0")
  case True
  let ?w = "4 * (len div 4)"
  let ?xs = "take ?w (drop src buffer)"
  let ?ys = "take (len mod 4) (drop (src + ?w) buffer)"
  have w: "?w + len mod 4 = len" by simp
  have bounds: "dst + ?w \<le> length mem" "src + ?w \<le> length buffer"
    "dst + ?w + len mod 4 \<le> length mem" "src + ?w + len mod 4 \<le> length buffer"
    using assms w by linarith+
  have lens: "length ?xs = ?w" "length ?ys = len mod 4"
    unfolding length_take length_drop using bounds(2,4) by linarith+
  have "MemcpyToMmio base dst addr src len buffer mem
      = MemcpyToMmio8 (dst + ?w) (src + ?w) (len mod 4) buffer (write_at dst ?xs mem)"
    unfolding MemcpyToMmio_def Let_def if_P [OF True] mult.commute [of "len div 4" 4]
    by (simp only: MemcpyToMmio32_eq [OF bounds(1,2)])
  also have "\<dots> = write_at (dst + ?w) ?ys (write_at dst ?xs mem)"
    using bounds by (intro MemcpyToMmio8_eq) auto
  also have "\<dots> = write_at dst (?xs @ ?ys) mem"
    using bounds(3) write_at_append [of dst ?xs ?ys mem] unfolding lens by blast
  also have "?xs @ ?ys = take len (drop src buffer)"
    using take_add [of ?w "len mod 4" "drop src buffer"]
    by (simp only: w drop_drop add.commute [of ?w src])
  finally show ?thesis .
next
  case False
  then show ?thesis
    unfolding MemcpyToMmio_def if_not_P [OF False] by (intro MemcpyToMmio8_eq assms)
qed

section \<open>Well-formed rings\<close>

lemma check_region_ok:
  assumes "check_region d r = kOk"
  shows "has_single_bit (span_size r)" "span_size r mod kPageSize = 0"
  using assms unfolding check_region_def by (simp_all split: if_splits)

lemma MakeSpscQueuePair_Inr:
  assumes "MakeSpscQueuePair ld lr rd rr = Inr q"
  shows "q = new_SpscQueuePair lr rr"
    "has_single_bit (span_size lr)" "span_size lr mod kPageSize = 0"
    "has_single_bit (span_size rr)" "span_size rr mod kPageSize = 0"
proof -
  have ok: "check_region ld lr = kOk" "check_region rd rr = kOk" "q = new_SpscQueuePair lr rr"
    using assms unfolding MakeSpscQueuePair_def Let_def by (simp_all split: if_splits)
  show "q = new_SpscQueuePair lr rr" by (rule ok(3))
  show "has_single_bit (span_size lr)" "span_size lr mod kPageSize = 0"
    by (rule check_region_ok [OF ok(1)])+
  show "has_single_bit (span_size rr)" "span_size rr mod kPageSize = 0"
    by (rule check_region_ok [OF ok(2)])+
qed

definition ring_ok :: "byte_span \<Rightarrow> u64 \<Rightarrow> u8 list \<Rightarrow> bool" where
  "ring_ok sp msk mem \<longleftrightarrow>
     has_single_bit (span_size sp) \<and> span_size sp mod kPageSize = 0 \<and>
     msk = span_size sp - 1 \<and> length mem = unat (span_size sp)"

lemma unat_power_u64: "k < 64 \<Longrightarrow> unat (2 ^ k :: u64) = 2 ^ k"
proof -
  assume "k < 64"
  then have "(2 :: nat) ^ k < 2 ^ 64" by (intro power_strict_increasing) auto
  then have "unat (of_nat (2 ^ k) :: u64) = 2 ^ k" by (intro unat_of_nat_u64) simp
  then show ?thesis by (simp only: of_nat_power of_nat_numeral)
qed

lemma ring_ok_power:
  assumes "ring_ok sp msk mem"
  obtains k where "12 \<le> k" "k < 64" "span_size sp = 2 ^ k" "length mem = 2 ^ k" "msk = 2 ^ k - 1"
proof -
  obtain k where k: "k < 64" "span_size sp = 2 ^ k"
    using assms has_single_bit_power unfolding ring_ok_def by blast
  have len: "length mem = 2 ^ k"
    using assms k by (simp add: ring_ok_def unat_power_u64)
  have "unat (span_size sp mod kPageSize) = unat (span_size sp) mod 4096"
    by (simp add: kPageSize_def unat_mod)
  then have "2 ^ k mod (4096 :: nat) = 0"
    using assms len by (simp add: ring_ok_def)
  then have "2 ^ 12 dvd (2 ^ k :: nat)" by (simp add: mod_eq_0_iff_dvd)
  then have "12 \<le> k" by (rule power_dvd_imp_le) simp
  then show thesis using that k len assms by (auto simp: ring_ok_def)
qed

lemma ring_ok_facts:
  assumes "ring_ok sp msk mem"
  shows "length mem dvd 18446744073709551616" and "64 dvd length mem" and "4096 \<le> length mem"
    and "length mem < 18446744073709551616" and "unat (span_size sp) = length mem"
    and "unat (x AND msk) = unat x mod length mem"
proof -
  obtain k where k: "12 \<le> k" "k < 64" "span_size sp = 2 ^ k" "length mem = 2 ^ k" "msk = 2 ^ k - 1"
    using assms by (rule ring_ok_power)
  have "(2 :: nat) ^ k dvd 2 ^ 64" using k by (intro le_imp_power_dvd) simp
  then show "length mem dvd 18446744073709551616" using k by simp
  have "(2 :: nat) ^ 6 dvd 2 ^ k" using k by (intro le_imp_power_dvd) simp
  then show "64 dvd length mem" using k by simp
  have "(2 :: nat) ^ 12 \<le> 2 ^ k" using k by (intro power_increasing) auto
  then show "4096 \<le> length mem" using k by simp
  show "unat (span_size sp) = length mem" using assms by (simp add: ring_ok_def)
  then show "length mem < 18446744073709551616" by (metis unat_u64_less)
  show "unat (x AND msk) = unat x mod length mem" using k by (simp add: unat_and_mask)
qed

section \<open>Two segments that cover a stretch of a ring\<close>

text \<open>
  \<open>covers N s b p l\<close>: the segments \<open>s\<close> and \<open>b\<close> of a ring of length \<open>N\<close>, read one after the
  other, are the \<open>l\<close> bytes from position \<open>p\<close> on.
\<close>

definition covers :: "nat \<Rightarrow> segment \<Rightarrow> segment \<Rightarrow> nat \<Rightarrow> nat \<Rightarrow> bool" where
  "covers N s b p l \<longleftrightarrow>
     seg_size s + seg_size b = l \<and> l \<le> N \<and> seg_off s + seg_size s \<le> N \<and>
     (0 < seg_size s \<longrightarrow> seg_off s = p mod N) \<and>
     seg_off b = 0 \<and> (0 < seg_size b \<longrightarrow> (p + seg_size s) mod N = 0)"

lemma covers_position:
  assumes "covers N s b p l" and "i < l"
  shows "(p + i) mod N = (if i < seg_size s then seg_off s + i else seg_off b + (i - seg_size s))"
proof (cases "i < seg_size s")
  case True
  then have "seg_off s = p mod N" "p mod N + i < N"
    using assms by (auto simp: covers_def)
  then have "(p + i) mod N = p mod N + i"
    by (metis mod_add_left_eq mod_less)
  with True \<open>seg_off s = p mod N\<close> show ?thesis by simp
next
  case False
  then obtain j where j: "i = seg_size s + j" using le_Suc_ex not_less by blast
  with False assms have b: "j < seg_size b" "seg_off b = 0" "(p + seg_size s) mod N = 0" "j < N"
    by (auto simp: covers_def)
  have "(p + i) mod N = ((p + seg_size s) mod N + j) mod N"
    by (simp add: j add.assoc mod_add_left_eq)
  with b j show ?thesis by simp
qed

lemma covers_read:
  assumes "covers (length mem) s b p l"
  shows "seg_bytes mem s @ seg_bytes mem b = ring_read mem p l"
proof (rule nth_equalityI)
  have len: "length (seg_bytes mem s) = seg_size s" "length (seg_bytes mem b) = seg_size b"
    using assms by (auto simp: covers_def seg_bytes_def)
  then show "length (seg_bytes mem s @ seg_bytes mem b) = length (ring_read mem p l)"
    using assms by (simp add: covers_def)
  fix i
  assume "i < length (seg_bytes mem s @ seg_bytes mem b)"
  then have i: "i < seg_size s + seg_size b" using len by simp
  then have "i < l" using assms by (simp add: covers_def)
  have "seg_off s + seg_size s \<le> length mem" "seg_size b \<le> length mem" "seg_off b = 0"
    using assms by (auto simp: covers_def)
  with i \<open>i < l\<close> show "(seg_bytes mem s @ seg_bytes mem b) ! i = ring_read mem p l ! i"
    using covers_position [OF assms, of i] len
    by (auto simp: nth_append seg_bytes_def)
qed

lemma covers_skip_first:
  assumes "covers N s b p l" and "n \<le> seg_size s"
  shows "covers N (remove_prefix n s) b (p + n) (l - n)"
proof -
  have "0 < seg_size s - n \<Longrightarrow> seg_off s + n = (p + n) mod N"
    using assms covers_position [OF assms(1), of n] by (auto simp: covers_def)
  then show ?thesis
    using assms by (auto simp: covers_def remove_prefix_def add.assoc)
qed

lemma covers_second:
  assumes "covers N s b p l"
  shows "covers N b empty_segment (p + seg_size s) (l - seg_size s)"
  using assms by (auto simp: covers_def)

lemma covers_promote:
  assumes "covers N s b p l" and "seg_size s < n" and "n \<le> l"
  shows "covers N (remove_prefix (n - seg_size s) b) empty_segment (p + n) (l - n)"
proof -
  have "seg_size s + seg_size b = l" using assms(1) by (simp add: covers_def)
  then have "n - seg_size s \<le> seg_size b" using assms(3) by linarith
  from covers_skip_first [OF covers_second [OF assms(1)] this] show ?thesis
    using assms(2) by simp
qed

text \<open>A short write through the first segment alone, and one that crosses into the second.\<close>

lemma covers_write_first:
  assumes c: "covers (length mem) s b p l" and n: "length bs \<le> seg_size s"
  shows "write_at (seg_off s) bs mem = ring_write mem p bs"
proof (rule ring_eqI [where p = p])
  have fits: "seg_off s + length bs \<le> length mem" using assms by (auto simp: covers_def)
  then show "length (write_at (seg_off s) bs mem) = length (ring_write mem p bs)" by simp
  fix i
  assume "i < length (write_at (seg_off s) bs mem)"
  then have i: "i < length mem" using fits by simp
  then have j: "(p + i) mod length mem < length mem" by (intro mod_less_divisor) auto
  have off: "0 < seg_size s \<Longrightarrow> seg_off s = p mod length mem" using c by (simp add: covers_def)
  have "i < length bs \<Longrightarrow> (p + i) mod length mem = seg_off s + i"
    using covers_position [OF c, of i] n c by (auto simp: covers_def)
  moreover have "seg_off s \<le> (p + i) mod length mem \<Longrightarrow> (p + i) mod length mem < seg_off s + length bs
      \<Longrightarrow> i < length bs"
  proof -
    assume inside: "seg_off s \<le> (p + i) mod length mem"
      "(p + i) mod length mem < seg_off s + length bs"
    define d where "d = (p + i) mod length mem - seg_off s"
    have d: "d < length bs" "(p + i) mod length mem = seg_off s + d"
      using inside by (auto simp: d_def)
    then have "(p + d) mod length mem = (p + i) mod length mem"
      using covers_position [OF c, of d] n c by (auto simp: covers_def)
    then have "d = i"
      using ring_position_offset [of d "length mem" p] ring_position_offset [OF i, of p] d fits
      by simp
    with d show "i < length bs" by simp
  qed
  ultimately show "write_at (seg_off s) bs mem ! ((p + i) mod length (write_at (seg_off s) bs mem))
      = ring_write mem p bs ! ((p + i) mod length (write_at (seg_off s) bs mem))"
    using i j fits nth_write_at [OF fits j] nth_ring_write [OF i, of p bs]
    by (cases "i < length bs") (simp_all only: length_write_at [OF fits], auto)
qed

lemma covers_write_second:
  assumes c: "covers (length mem) s b p l" and n: "seg_size s < length bs" "length bs \<le> l"
  shows "write_at (seg_off b) (drop (seg_size s) bs) (write_at (seg_off s) (take (seg_size s) bs) mem)
    = ring_write mem p bs"
proof -
  let ?xs = "take (seg_size s) bs" and ?ys = "drop (seg_size s) bs"
  have len: "length ?xs = seg_size s" using n by simp
  have "seg_size s + seg_size b = l" "l \<le> length mem" using c by (simp_all add: covers_def)
  then have ys: "length ?ys \<le> seg_size b" "length ?xs + length ?ys \<le> length mem"
    using n by auto
  have first: "write_at (seg_off s) ?xs mem = ring_write mem p ?xs"
    by (rule covers_write_first [OF c]) simp
  have "covers (length (ring_write mem p ?xs)) b empty_segment (p + seg_size s) (l - seg_size s)"
    using covers_second [OF c] by simp
  then have "write_at (seg_off b) ?ys (ring_write mem p ?xs)
      = ring_write (ring_write mem p ?xs) (p + seg_size s) ?ys"
    using ys(1) by (rule covers_write_first)
  also have "\<dots> = ring_write mem p (?xs @ ?ys)"
    using ring_write_append [OF ys(2), of p] by (simp only: len)
  finally show ?thesis by (simp add: first)
qed

section \<open>Sending through a batch\<close>

abbreviation sb_covers :: "nat \<Rightarrow> SendBatch \<Rightarrow> nat \<Rightarrow> nat \<Rightarrow> bool" where
  "sb_covers N batch \<equiv> covers N (sb_segment batch) (sb_backup_segment batch)"

abbreviation rb_covers :: "nat \<Rightarrow> ReceiveBatch \<Rightarrow> nat \<Rightarrow> nat \<Rightarrow> bool" where
  "rb_covers N batch \<equiv> covers N (rb_segment batch) (rb_backup_segment batch)"

lemma BeginSend_covers:
  assumes ok: "ring_ok (q_remote_ring q) (q_remote_ring_size_mask q) mem"
    and used: "unat (q_remote_bytes_produced q - remote_bytes_consumed local) \<le> length mem"
  shows "sb_covers (length mem) (BeginSend q local) (unat (q_remote_bytes_produced q))
      (length mem - unat (q_remote_bytes_produced q - remote_bytes_consumed local))"
    and "sb_pending_bytes (BeginSend q local) = 0"
proof -
  note facts = ring_ok_facts [OF ok]
  let ?N = "length mem" and ?size = "span_size (q_remote_ring q)"
  let ?P = "q_remote_bytes_produced q"
  let ?used = "?P - remote_bytes_consumed local"
  let ?off = "?P AND q_remote_ring_size_mask q"
  have N: "0 < ?N" using facts(3) by linarith
  have off: "unat ?off = unat ?P mod ?N" by (rule facts(6))
  have off_less: "unat ?off < ?N" using N by (simp add: off)
  have free: "unat (?size - ?used) = ?N - unat ?used"
    using used facts(5) by (simp add: unat_sub_if')
  have rest: "unat (?size - ?off) = ?N - unat ?off"
    using off_less facts(5) by (simp add: unat_sub_if')
  have not_over: "\<not> ?size < ?size - ?used"
    by (simp add: word_less_nat_alt free facts(5))
  show "sb_covers ?N (BeginSend q local) (unat ?P) (?N - unat ?used)"
  proof (cases "?size - ?off < ?size - ?used")
    case True
    then have lt: "?N - unat ?off < ?N - unat ?used"
      by (simp only: word_less_nat_alt free rest)
    then have "unat (?size - ?used - (?size - ?off)) = (?N - unat ?used) - (?N - unat ?off)"
      using free rest by (simp only: unat_sub_if') (simp add: free rest)
    moreover have "(unat ?P + (?N - unat ?off)) mod ?N = 0"
      unfolding off by (rule to_ring_end [OF N])
    ultimately show ?thesis
      using True not_over lt off_less
      unfolding BeginSend_def Let_def covers_def by (simp add: rest off)
  next
    case False
    then have "?N - unat ?used \<le> ?N - unat ?off"
      by (simp only: word_less_nat_alt free rest not_less)
    with False not_over off_less show ?thesis
      unfolding BeginSend_def Let_def covers_def by (simp add: free off)
  qed
  show "sb_pending_bytes (BeginSend q local) = 0"
    by (simp add: BeginSend_def Let_def)
qed

lemma Append_full:
  assumes "sb_covers N batch p l" and "l < length buffer"
  shows "SendBatch_Append q addr buffer (batch, mem) = (kResourceExhausted, batch, mem)"
  using assms by (simp add: SendBatch_Append_def covers_def Let_def)

lemma Append_ok:
  assumes c: "sb_covers (length mem) batch p l" and len: "length buffer \<le> l"
  obtains batch' where
    "SendBatch_Append q addr buffer (batch, mem) = (kOk, batch', ring_write mem p buffer)"
    "sb_covers (length mem) batch' (p + length buffer) (l - length buffer)"
    "sb_pending_bytes batch' = sb_pending_bytes batch + of_nat (length buffer)"
proof (cases "length buffer \<le> seg_size (sb_segment batch)")
  case True
  have sizes: "seg_size (sb_segment batch) + seg_size (sb_backup_segment batch) = l"
    "seg_off (sb_segment batch) + length buffer \<le> length mem"
    using c True by (auto simp: covers_def)
  have "MemcpyToMmio (span_data (q_remote_ring q)) (seg_off (sb_segment batch)) addr 0
      (length buffer) buffer mem = ring_write mem p buffer"
    using sizes covers_write_first [OF c True] by (simp add: MemcpyToMmio_eq)
  then have "SendBatch_Append q addr buffer (batch, mem)
      = (kOk, batch\<lparr>sb_segment := remove_prefix (length buffer) (sb_segment batch),
          sb_pending_bytes := sb_pending_bytes batch + of_nat (length buffer)\<rparr>,
         ring_write mem p buffer)"
    using True sizes len by (simp add: SendBatch_Append_def Let_def min_absorb1)
  then show thesis
    by (rule that) (use covers_skip_first [OF c True] in simp_all)
next
  case False
  let ?s = "sb_segment batch" and ?b = "sb_backup_segment batch"
  let ?len2 = "length buffer - seg_size ?s"
  have lt: "seg_size ?s < length buffer" using False by simp
  have sizes: "seg_size ?s + seg_size ?b = l" "seg_off ?s + seg_size ?s \<le> length mem"
    "seg_off ?b = 0" "l \<le> length mem"
    using c by (auto simp: covers_def)
  let ?mem1 = "write_at (seg_off ?s) (take (seg_size ?s) buffer) mem"
  have copy1: "MemcpyToMmio (span_data (q_remote_ring q)) (seg_off ?s) addr 0 (seg_size ?s) buffer mem
      = ?mem1"
    using sizes lt by (simp add: MemcpyToMmio_eq)
  have "MemcpyToMmio (span_data (q_remote_ring q)) (seg_off ?b) addr (seg_size ?s) ?len2 buffer ?mem1
      = write_at (seg_off ?b) (drop (seg_size ?s) buffer) ?mem1"
    using sizes lt len by (subst MemcpyToMmio_eq) auto
  also have "\<dots> = ring_write mem p buffer" by (rule covers_write_second [OF c lt len])
  finally have "SendBatch_Append q addr buffer (batch, mem)
      = (kOk, batch\<lparr>sb_segment := remove_prefix ?len2 ?b, sb_backup_segment := empty_segment,
          sb_pending_bytes := sb_pending_bytes batch + of_nat (seg_size ?s) + of_nat ?len2\<rparr>,
         ring_write mem p buffer)"
    using lt sizes len copy1 by (simp add: SendBatch_Append_def Let_def min_absorb2)
  moreover have "of_nat (seg_size ?s) + of_nat ?len2 = (of_nat (length buffer) :: u64)"
    using lt by (metis less_imp_le_nat le_add_diff_inverse of_nat_add)
  ultimately show thesis
    using that covers_promote [OF c lt len] by (simp add: add.assoc)
qed

lemma Skip_full:
  assumes "sb_covers N batch p l" and "l < n"
  shows "SendBatch_Skip n batch = (kResourceExhausted, batch)"
  using assms by (simp add: SendBatch_Skip_def covers_def Let_def)

lemma Skip_ok:
  assumes c: "sb_covers N batch p l" and n: "n \<le> l"
  obtains batch' where
    "SendBatch_Skip n batch = (kOk, batch')"
    "sb_covers N batch' (p + n) (l - n)"
    "sb_pending_bytes batch' = sb_pending_bytes batch + of_nat n"
proof (cases "n \<le> seg_size (sb_segment batch)")
  case True
  let ?batch = "batch\<lparr>sb_segment := remove_prefix n (sb_segment batch),
    sb_pending_bytes := sb_pending_bytes batch + of_nat n\<rparr>"
  have "SendBatch_Skip n batch = (kOk, ?batch)"
    using True by (simp add: SendBatch_Skip_def Let_def)
  then show thesis by (rule that) (use covers_skip_first [OF c True] in simp_all)
next
  case False
  let ?batch = "batch\<lparr>sb_segment := remove_prefix (n - seg_size (sb_segment batch)) (sb_backup_segment batch),
    sb_backup_segment := empty_segment, sb_pending_bytes := sb_pending_bytes batch + of_nat n\<rparr>"
  have lt: "seg_size (sb_segment batch) < n" using False by simp
  have "seg_size (sb_segment batch) + seg_size (sb_backup_segment batch) = l"
    using c by (simp add: covers_def)
  then have "SendBatch_Skip n batch = (kOk, ?batch)"
    using False n by (simp add: SendBatch_Skip_def Let_def)
  then show thesis by (rule that) (use covers_promote [OF c lt n] in simp_all)
qed

section \<open>Receiving through a batch\<close>

lemma BeginReceive_covers:
  assumes ok: "ring_ok (q_local_ring q) (q_local_ring_size_mask q) mem"
    and avail: "bytes_produced local \<noteq> q_local_bytes_consumed q"
      "unat (bytes_produced local - q_local_bytes_consumed q) \<le> length mem"
  obtains batch where "BeginReceive q local = Inr batch"
    "rb_covers (length mem) batch (unat (q_local_bytes_consumed q))
       (unat (bytes_produced local - q_local_bytes_consumed q))"
    "rb_taken_bytes batch = 0"
proof -
  note facts = ring_ok_facts [OF ok]
  let ?N = "length mem" and ?size = "span_size (q_local_ring q)"
  let ?C = "q_local_bytes_consumed q"
  let ?avail = "bytes_produced local - ?C"
  let ?off = "?C AND q_local_ring_size_mask q"
  have N: "0 < ?N" using facts(3) by linarith
  have off: "unat ?off = unat ?C mod ?N" by (rule facts(6))
  have off_less: "unat ?off < ?N" using N by (simp add: off)
  have rest: "unat (?size - ?off) = ?N - unat ?off"
    using off_less facts(5) by (simp add: unat_sub_if')
  have nz: "?avail \<noteq> 0" using avail(1) by simp
  have not_over: "\<not> ?size < ?avail" using avail(2) by (simp add: word_less_nat_alt facts(5))
  let ?wrap = "min ?avail (?size - ?off)"
  have wrap: "unat ?wrap = min (unat ?avail) (?N - unat ?off)"
    by (simp add: min_def word_le_nat_alt rest)
  have more: "?wrap < ?avail \<longleftrightarrow> ?N - unat ?off < unat ?avail"
    unfolding word_less_nat_alt wrap by linarith
  have rem: "unat (?avail - ?wrap) = unat ?avail - unat ?wrap"
    by (rule unat_diff_u64) (simp only: wrap min.cobounded1)
  have wrap0: "(unat ?C + (?N - unat ?off)) mod ?N = 0"
    unfolding off by (rule to_ring_end [OF N])
  let ?batch = "\<lparr>rb_segment = \<lparr>seg_off = unat ?off, seg_size = unat ?wrap\<rparr>,
     rb_backup_segment = (if ?wrap < ?avail then \<lparr>seg_off = 0, seg_size = unat (?avail - ?wrap)\<rparr>
                          else empty_segment),
     rb_taken_bytes = 0\<rparr>"
  have "BeginReceive q local = Inr ?batch"
    unfolding BeginReceive_def Let_def using nz not_over by (simp only: if_False)
  moreover have "rb_covers ?N ?batch (unat ?C) (unat ?avail)"
  proof (cases "?N - unat ?off < unat ?avail")
    case True
    then have "unat ?wrap = ?N - unat ?off" using wrap by linarith
    with True more rem wrap0 off_less avail(2) off show ?thesis
      unfolding covers_def by (simp del: min_less_iff_conj)
  next
    case False
    then have "unat ?wrap = unat ?avail" using wrap by linarith
    with False more off_less avail(2) off show ?thesis
      unfolding covers_def by (simp del: min_less_iff_conj)
  qed
  ultimately show thesis by (rule that) simp
qed

lemma Recv_short:
  assumes "rb_covers N batch p l" and "l < n"
  shows "ReceiveBatch_Recv mem n (buffer, batch) = (kUnavailable, buffer, batch)"
  using assms by (simp add: ReceiveBatch_Recv_def RemainingBytes_def covers_def Let_def)

lemma seg_bytes_first:
  assumes c: "covers (length mem) s b p l" and "n \<le> seg_size s"
  shows "take n (seg_bytes mem s) = ring_read mem p n"
proof -
  have "seg_size s \<le> l" "seg_off s + seg_size s \<le> length mem"
    using c by (auto simp: covers_def)
  then have len: "length (seg_bytes mem s) = seg_size s" by (simp add: seg_bytes_def)
  have "take n (seg_bytes mem s) = take n (seg_bytes mem s @ seg_bytes mem b)"
    using assms(2) len by simp
  also have "\<dots> = take n (ring_read mem p l)" by (simp only: covers_read [OF c])
  finally show ?thesis using assms(2) \<open>seg_size s \<le> l\<close> by simp
qed

lemma Recv_ok:
  assumes c: "rb_covers (length mem) batch p l" and n: "n \<le> l"
    and buf: "pred_option (\<lambda>bs. n \<le> length bs) buffer"
  obtains batch' where
    "ReceiveBatch_Recv mem n (buffer, batch)
      = (kOk, map_option (write_at 0 (ring_read mem p n)) buffer, batch')"
    "rb_covers (length mem) batch' (p + n) (l - n)"
    "rb_taken_bytes batch' = rb_taken_bytes batch + of_nat n"
proof (cases "n \<le> seg_size (rb_segment batch)")
  case True
  let ?s = "rb_segment batch" and ?b = "rb_backup_segment batch"
  let ?s1 = "remove_prefix n ?s"
  let ?batch = "\<lparr>rb_segment = (if seg_size ?s1 = 0 then ?b else ?s1),
    rb_backup_segment = (if seg_size ?s1 = 0 then empty_segment else ?b),
    rb_taken_bytes = rb_taken_bytes batch + of_nat n\<rparr>"
  have rem: "\<not> RemainingBytes batch < n"
    using c n by (simp add: RemainingBytes_def covers_def)
  have c1: "covers (length mem) ?s1 ?b (p + n) (l - n)" by (rule covers_skip_first [OF c True])
  have "ReceiveBatch_Recv mem n (buffer, batch)
      = (kOk, map_option (write_at 0 (ring_read mem p n)) buffer, ?batch)"
    using rem True by (simp add: ReceiveBatch_Recv_def Let_def min_absorb1 seg_bytes_first [OF c True])
  moreover have "rb_covers (length mem) ?batch (p + n) (l - n)"
    using c1 covers_second [OF c1] by (cases "seg_size ?s1 = 0") simp_all
  ultimately show thesis by (rule that) simp
next
  case False
  let ?s = "rb_segment batch" and ?b = "rb_backup_segment batch"
  let ?k = "seg_size ?s" and ?m = "n - seg_size (rb_segment batch)"
  let ?batch = "\<lparr>rb_segment = remove_prefix ?m ?b, rb_backup_segment = empty_segment,
    rb_taken_bytes = rb_taken_bytes batch + of_nat ?k + of_nat ?m\<rparr>"
  have lt: "?k < n" using False by simp
  have sizes: "?k + seg_size ?b = l" using c by (simp add: covers_def)
  have rem: "\<not> RemainingBytes batch < n"
    using sizes n by (simp add: RemainingBytes_def)
  have c2: "covers (length mem) ?b empty_segment (p + ?k) (l - ?k)" by (rule covers_second [OF c])
  have m: "?m \<le> seg_size ?b" using sizes n by linarith
  have empty: "seg_size (remove_prefix ?k ?s) = 0" by (simp add: remove_prefix_def)
  have split: "ring_read mem p n = ring_read mem p ?k @ ring_read mem (p + ?k) ?m"
    using ring_read_add [of mem p ?k ?m] lt by simp
  have copy: "map_option (write_at ?k (ring_read mem (p + ?k) ?m))
      (map_option (write_at 0 (ring_read mem p ?k)) buffer)
    = map_option (write_at 0 (ring_read mem p n)) buffer"
  proof (cases buffer)
    case (Some bs)
    then have "0 + length (ring_read mem p ?k) + length (ring_read mem (p + ?k) ?m) \<le> length bs"
      using buf lt by simp
    from write_at_append [OF this] show ?thesis using Some by (simp add: split)
  qed simp
  have "ReceiveBatch_Recv mem n (buffer, batch)
      = (kOk, map_option (write_at 0 (ring_read mem p n)) buffer, ?batch)"
    unfolding copy [symmetric] seg_bytes_first [OF c order.refl, symmetric]
      seg_bytes_first [OF c2 m, symmetric]
    using rem lt empty by (simp add: ReceiveBatch_Recv_def Let_def min_absorb2)
  moreover have "of_nat ?k + of_nat ?m = (of_nat n :: u64)"
    using lt by (metis less_imp_le_nat le_add_diff_inverse of_nat_add)
  ultimately show thesis
    using that covers_promote [OF c lt n] by (simp add: add.assoc)
qed

lemma RemovePrefix_ok:
  assumes "rb_covers (length mem) batch p l" and "n \<le> l"
  obtains batch' where "RemovePrefix mem n batch = (kOk, batch')"
    "rb_covers (length mem) batch' (p + n) (l - n)"
    "rb_taken_bytes batch' = rb_taken_bytes batch + of_nat n"
proof -
  obtain batch' where b: "ReceiveBatch_Recv mem n (None, batch) = (kOk, None, batch')"
    "rb_covers (length mem) batch' (p + n) (l - n)"
    "rb_taken_bytes batch' = rb_taken_bytes batch + of_nat n"
    by (rule Recv_ok [OF assms, of None]) simp_all
  then show thesis by (intro that) (simp_all add: RemovePrefix_def)
qed

lemma RemovePrefix_short:
  assumes "rb_covers (length mem) batch p l" and "l < n"
  shows "RemovePrefix mem n batch = (kUnavailable, batch)"
  by (simp add: RemovePrefix_def Recv_short [OF assms])

section \<open>Properties\<close>

text \<open>
  C22: the copy to MMIO memory, which moves 32-bit words where both addresses are aligned and bytes
  elsewhere, has the effect of a plain copy of the bytes whatever the addresses are.
\<close>

theorem MemcpyToMmio_is_memcpy:
  assumes "dst + len \<le> length mem" and "src + len \<le> length buffer"
  shows "MemcpyToMmio base dst addr src len buffer mem
    = take dst mem @ take len (drop src buffer) @ drop (dst + len) mem"
  using assms by (simp add: mem_simps write_at_def)

theorem MemcpyToMmio_is_memcpy_witness:
  "MemcpyToMmio 4096 0 64 4 7 [9, 9, 9, 9, 1, 2, 3, 4, 5, 6, 7] [0, 0, 0, 0, 0, 0, 0, 8]
    = [1, 2, 3, 4, 5, 6, 7, 8]"
  using MemcpyToMmio_is_memcpy [of 0 7 "[0, 0, 0, 0, 0, 0, 0, 8]" 4
      "[9, 9, 9, 9, 1, 2, 3, 4, 5, 6, 7]" 4096 64]
  by simp

text \<open>
  C23: the counters saved at a hitless restart are accepted by a fresh queue pair on the same rings
  exactly when they equal the doorbells the old process left in the peer's region, and then the
  queue pair is the saved one; otherwise the fresh queue pair is left as it was.
\<close>

theorem RestoreState_SaveState:
  assumes "fresh = q\<lparr>q_local_bytes_consumed := 0, q_remote_bytes_produced := 0\<rparr>"
  shows "RestoreState (SaveState q) remote fresh
      = (if remote_bytes_consumed remote = q_local_bytes_consumed q
            \<and> bytes_produced remote = q_remote_bytes_produced q
         then (kOk, q) else (kInvalidArgument, fresh))"
  by (auto simp: assms RestoreState_def SaveState_def)

theorem RestoreState_SaveState_witness:
  "let q = (new_SpscQueuePair \<lparr>span_data = 0, span_size = 4096\<rparr> \<lparr>span_data = 8192, span_size = 4096\<rparr>)
         \<lparr>q_local_bytes_consumed := 64, q_remote_bytes_produced := 128\<rparr>;
       fresh = q\<lparr>q_local_bytes_consumed := 0, q_remote_bytes_produced := 0\<rparr>;
       remote = \<lparr>bytes_produced = 128, remote_bytes_consumed = 64, ring = []\<rparr>
   in RestoreState (SaveState q) remote fresh = (kOk, q)"
  by (simp add: Let_def RestoreState_SaveState [OF refl])

end
