(* ===== verification/Spsc_Interleaving.thy ===== *)
theory Spsc_Interleaving
  imports Spsc_Queue_Pair
begin

text \<open>
  One direction of a queue pair with both of its ends running: the producer's \<^verbatim>\<open>SendBatch\<close> calls
  and the consumer's \<^verbatim>\<open>ReceiveBatch\<close> calls (\<^verbatim>\<open>dxs/client/spsc_queue/spsc_queue_pair.{h,cc}\<close>)
  interleave in any order, each end working from the doorbell value it read when it opened its
  batch. The step relation performs the calls of the model; the history fields record what the
  callers handed over and got back. The invariant gives that the consumer reads exactly the bytes the
  producer committed, in order, however the steps interleave and however often the counters wrap.
\<close>

section \<open>The two ends and their steps\<close>

record link =
  l_producer :: SpscQueuePair
  l_consumer :: SpscQueuePair
  l_producer_region :: region
  l_consumer_region :: region
  l_send :: "SendBatch option"
  l_recv :: "ReceiveBatch option"
  l_sent :: "u8 list"
  l_pending :: "u8 list"
  l_received :: "u8 list"
  l_taken :: "u8 list"

abbreviation l_ring :: "link \<Rightarrow> u8 list" where
  "l_ring s \<equiv> ring (l_consumer_region s)"

abbreviation l_produced :: "link \<Rightarrow> u64" where
  "l_produced s \<equiv> q_remote_bytes_produced (l_producer s)"

abbreviation l_consumed :: "link \<Rightarrow> u64" where
  "l_consumed s \<equiv> q_local_bytes_consumed (l_consumer s)"

text \<open>How many committed bytes the consumer has not given back.\<close>

definition l_used :: "link \<Rightarrow> nat" where
  "l_used s = unat (l_produced s - l_consumed s)"

text \<open>
  The producer may skip bytes (\<open>send_skip\<close>): what they hold is what the ring held. The consumer may
  read into a buffer (\<open>recv_copy\<close>) or drop bytes (\<open>recv_drop\<close>). Either end may give up a batch
  without committing it.
\<close>

inductive link_step :: "link \<Rightarrow> link \<Rightarrow> bool" where
  send_begin: "l_send s = None \<Longrightarrow>
    link_step s (s\<lparr>l_send := Some (BeginSend (l_producer s) (l_producer_region s)), l_pending := []\<rparr>)"
| send_append: "l_send s = Some b \<Longrightarrow>
    SendBatch_Append (l_producer s) addr bs (b, l_ring s) = (status, b', mem) \<Longrightarrow>
    link_step s (s\<lparr>l_send := Some b', l_consumer_region := (l_consumer_region s)\<lparr>ring := mem\<rparr>,
      l_pending := l_pending s @ (if status = kOk then bs else [])\<rparr>)"
| send_skip: "l_send s = Some b \<Longrightarrow> SendBatch_Skip n b = (status, b') \<Longrightarrow>
    link_step s (s\<lparr>l_send := Some b',
      l_pending := l_pending s @
        (if status = kOk
         then ring_read (l_ring s) (unat (l_produced s) + length (l_pending s)) n else [])\<rparr>)"
| send_commit: "l_send s = Some b \<Longrightarrow>
    SendBatch_Commit b (l_producer s, l_consumer_region s) = (q', r') \<Longrightarrow>
    link_step s (s\<lparr>l_producer := q', l_consumer_region := r', l_send := None,
      l_sent := l_sent s @ l_pending s, l_pending := []\<rparr>)"
| send_abandon: "link_step s (s\<lparr>l_send := None, l_pending := []\<rparr>)"
| recv_begin: "l_recv s = None \<Longrightarrow> BeginReceive (l_consumer s) (l_consumer_region s) = Inr b \<Longrightarrow>
    link_step s (s\<lparr>l_recv := Some b, l_taken := []\<rparr>)"
| recv_copy: "l_recv s = Some b \<Longrightarrow>
    ReceiveBatch_Recv (l_ring s) n (Some (replicate n 0), b) = (status, Some bs, b') \<Longrightarrow>
    link_step s (s\<lparr>l_recv := Some b', l_taken := l_taken s @ (if status = kOk then bs else [])\<rparr>)"
| recv_drop: "l_recv s = Some b \<Longrightarrow> RemovePrefix (l_ring s) n b = (status, b') \<Longrightarrow>
    link_step s (s\<lparr>l_recv := Some b',
      l_taken := l_taken s @
        (if status = kOk
         then ring_read (l_ring s) (unat (l_consumed s) + length (l_taken s)) n else [])\<rparr>)"
| recv_commit: "l_recv s = Some b \<Longrightarrow>
    ReceiveBatch_Commit b (l_consumer s, l_producer_region s) = (q', r') \<Longrightarrow>
    link_step s (s\<lparr>l_consumer := q', l_producer_region := r', l_recv := None,
      l_received := l_received s @ l_taken s, l_taken := []\<rparr>)"
| recv_abandon: "link_step s (s\<lparr>l_recv := None, l_taken := []\<rparr>)"

text \<open>
  A link starts on a fresh ring or on counters that were restored, with nothing in flight and no open batch.
\<close>

definition link_init :: "link \<Rightarrow> bool" where
  "link_init s \<longleftrightarrow>
     ring_ok (q_remote_ring (l_producer s)) (q_remote_ring_size_mask (l_producer s)) (l_ring s) \<and>
     ring_ok (q_local_ring (l_consumer s)) (q_local_ring_size_mask (l_consumer s)) (l_ring s) \<and>
     l_produced s = l_consumed s \<and>
     bytes_produced (l_consumer_region s) = l_produced s \<and>
     remote_bytes_consumed (l_producer_region s) = l_consumed s \<and>
     l_send s = None \<and> l_recv s = None \<and>
     l_sent s = [] \<and> l_pending s = [] \<and> l_received s = [] \<and> l_taken s = []"

section \<open>The invariant\<close>

definition link_rings :: "link \<Rightarrow> bool" where
  "link_rings s \<longleftrightarrow>
     ring_ok (q_remote_ring (l_producer s)) (q_remote_ring_size_mask (l_producer s)) (l_ring s) \<and>
     ring_ok (q_local_ring (l_consumer s)) (q_local_ring_size_mask (l_consumer s)) (l_ring s) \<and>
     bytes_produced (l_consumer_region s) = l_produced s \<and>
     remote_bytes_consumed (l_producer_region s) = l_consumed s"

definition link_stream :: "link \<Rightarrow> bool" where
  "link_stream s \<longleftrightarrow>
     l_used s + length (l_pending s) \<le> length (l_ring s) \<and>
     length (l_sent s) = length (l_received s) + l_used s \<and>
     l_received s @ ring_read (l_ring s) (unat (l_consumed s)) (l_used s + length (l_pending s))
       = l_sent s @ l_pending s"

definition link_send :: "link \<Rightarrow> bool" where
  "link_send s \<longleftrightarrow>
     (l_send s = None \<longrightarrow> l_pending s = []) \<and>
     (\<forall>b. l_send s = Some b \<longrightarrow>
        sb_pending_bytes b = of_nat (length (l_pending s)) \<and>
        (\<exists>l. sb_covers (length (l_ring s)) b (unat (l_produced s) + length (l_pending s)) l \<and>
          l_used s + length (l_pending s) + l \<le> length (l_ring s)))"

definition link_recv :: "link \<Rightarrow> bool" where
  "link_recv s \<longleftrightarrow>
     (l_recv s = None \<longrightarrow> l_taken s = []) \<and>
     (\<forall>b. l_recv s = Some b \<longrightarrow>
        rb_taken_bytes b = of_nat (length (l_taken s)) \<and>
        l_taken s = ring_read (l_ring s) (unat (l_consumed s)) (length (l_taken s)) \<and>
        (\<exists>l. rb_covers (length (l_ring s)) b (unat (l_consumed s) + length (l_taken s)) l \<and>
          length (l_taken s) + l \<le> l_used s))"

definition link_inv :: "link \<Rightarrow> bool" where
  "link_inv s \<longleftrightarrow> link_rings s \<and> link_stream s \<and> link_send s \<and> link_recv s"

lemmas link_inv_defs = link_inv_def link_rings_def link_stream_def link_send_def link_recv_def l_used_def

lemma link_init_inv: "link_init s \<Longrightarrow> link_inv s"
  by (simp add: link_init_def link_inv_defs)

lemma link_position:
  assumes "link_rings s"
  shows "(unat (l_consumed s) + (l_used s + k)) mod length (l_ring s)
    = (unat (l_produced s) + k) mod length (l_ring s)"
proof -
  have "length (l_ring s) dvd 18446744073709551616"
    using assms ring_ok_facts(1) by (auto simp: link_rings_def)
  from unat_diff_mod [OF this, of "l_consumed s" "l_produced s"] show ?thesis
    unfolding l_used_def by (metis add.assoc mod_add_left_eq)
qed

lemma link_ring_bound: "link_rings s \<Longrightarrow> length (l_ring s) < 18446744073709551616"
  using ring_ok_facts(4) by (auto simp: link_rings_def)

text \<open>Each end's batch stays good while the other end moves.\<close>

lemma link_recv_mono:
  assumes "link_recv s" and "l_recv s' = l_recv s" and "l_taken s' = l_taken s"
    and "l_consumed s' = l_consumed s" and "length (l_ring s') = length (l_ring s)"
    and used: "l_used s \<le> l_used s'"
    and keep: "ring_read (l_ring s') (unat (l_consumed s)) (l_used s)
      = ring_read (l_ring s) (unat (l_consumed s)) (l_used s)"
  shows "link_recv s'"
proof (cases "l_recv s")
  case None
  with assms(1-3) show ?thesis by (simp add: link_recv_def)
next
  case (Some b)
  then obtain l where b: "rb_taken_bytes b = of_nat (length (l_taken s))"
    "l_taken s = ring_read (l_ring s) (unat (l_consumed s)) (length (l_taken s))"
    "rb_covers (length (l_ring s)) b (unat (l_consumed s) + length (l_taken s)) l"
    "length (l_taken s) + l \<le> l_used s"
    using assms(1) by (auto simp: link_recv_def)
  have "length (l_taken s) \<le> l_used s" using b(4) by simp
  then have "ring_read (l_ring s') (unat (l_consumed s)) (length (l_taken s)) = l_taken s"
    using keep b(2) by (metis take_ring_read)
  moreover have "length (l_taken s) + l \<le> l_used s'" using b(4) used by simp
  ultimately show ?thesis using assms(2-5) Some b(1,3) unfolding link_recv_def by auto
qed

lemma link_send_mono:
  assumes "link_send s" and "l_send s' = l_send s" and "l_pending s' = l_pending s"
    and "l_produced s' = l_produced s" and "length (l_ring s') = length (l_ring s)"
    and "l_used s' \<le> l_used s"
  shows "link_send s'"
proof (cases "l_send s")
  case None
  with assms(1-3) show ?thesis by (simp add: link_send_def)
next
  case (Some b)
  then obtain l where b: "sb_pending_bytes b = of_nat (length (l_pending s))"
    "sb_covers (length (l_ring s)) b (unat (l_produced s) + length (l_pending s)) l"
    "l_used s + length (l_pending s) + l \<le> length (l_ring s)"
    using assms(1) by (auto simp: link_send_def)
  have "l_used s' + length (l_pending s) + l \<le> length (l_ring s)" using b(3) assms(6) by simp
  then show ?thesis using assms(2-5) Some b(1,2) unfolding link_send_def by auto
qed

text \<open>A write of the producer past what it has appended so far.\<close>

lemma link_append_inv:
  assumes inv: "link_inv s" and b: "l_send s = Some b"
    and app: "SendBatch_Append (l_producer s) addr bs (b, l_ring s) = (status, b', mem)"
  shows "link_inv (s\<lparr>l_send := Some b', l_consumer_region := (l_consumer_region s)\<lparr>ring := mem\<rparr>,
      l_pending := l_pending s @ (if status = kOk then bs else [])\<rparr>)" (is "link_inv ?s'")
proof -
  let ?N = "length (l_ring s)" and ?p = "unat (l_produced s) + length (l_pending s)"
  let ?d = "l_used s + length (l_pending s)"
  obtain l where pend: "sb_pending_bytes b = of_nat (length (l_pending s))"
    and c: "sb_covers ?N b ?p l" and room: "?d + l \<le> ?N"
    using inv b by (auto simp: link_inv_def link_send_def)
  have parts: "link_rings s" "link_stream s" "link_recv s" using inv by (simp_all add: link_inv_def)
  show ?thesis
  proof (cases "length bs \<le> l")
    case False
    with Append_full [OF c, of bs "l_producer s" addr "l_ring s"] app
    have "status = kResourceExhausted" "b' = b" "mem = l_ring s" by auto
    with inv b show ?thesis by (simp add: link_inv_defs)
  next
    case True
    obtain b'' where ok:
      "SendBatch_Append (l_producer s) addr bs (b, l_ring s) = (kOk, b'', ring_write (l_ring s) ?p bs)"
      "sb_covers ?N b'' (?p + length bs) (l - length bs)"
      "sb_pending_bytes b'' = sb_pending_bytes b + of_nat (length bs)"
      by (rule Append_ok [OF c True])
    with app have eqs: "status = kOk" "b' = b''" "mem = ring_write (l_ring s) ?p bs" by auto
    have len: "length mem = ?N" by (simp add: eqs)
    have pos: "?p mod ?N = (unat (l_consumed s) + ?d) mod ?N"
      using link_position [OF parts(1)] by simp
    have keep: "ring_read mem (unat (l_consumed s)) ?d = ring_read (l_ring s) (unat (l_consumed s)) ?d"
      unfolding eqs using room True by (intro ring_read_write_before [OF pos]) simp
    have "ring_read mem (unat (l_consumed s) + ?d) (length bs) = ring_read mem ?p (length bs)"
      using pos by (intro ring_read_cong_mod) (simp add: eqs)
    also have "\<dots> = bs" unfolding eqs using room True by simp
    finally have new: "ring_read mem (unat (l_consumed s)) (?d + length bs)
        = ring_read (l_ring s) (unat (l_consumed s)) ?d @ bs"
      by (simp add: ring_read_add [of mem _ ?d] keep)
    have used: "l_used ?s' = l_used s" by (simp add: l_used_def)
    have "link_rings ?s'" using parts(1) len by (simp add: link_rings_def ring_ok_def)
    moreover have "link_stream ?s'"
      using parts(2) new room True unfolding link_stream_def used by (simp add: eqs(1) len add.assoc)
    moreover have "link_send ?s'"
      using ok(2,3) room True unfolding link_send_def used
      by (auto simp: eqs(1,2) len pend add.assoc intro!: exI [of _ "l - length bs"])
    moreover have "ring_read mem (unat (l_consumed s)) (l_used s)
        = ring_read (l_ring s) (unat (l_consumed s)) (l_used s)"
      using keep by (metis le_add1 take_ring_read)
    then have "link_recv ?s'" by (intro link_recv_mono [OF parts(3)]) (simp_all add: used len)
    ultimately show ?thesis by (simp add: link_inv_def)
  qed
qed

lemma link_skip_inv:
  assumes inv: "link_inv s" and b: "l_send s = Some b" and skip: "SendBatch_Skip n b = (status, b')"
  shows "link_inv (s\<lparr>l_send := Some b',
      l_pending := l_pending s @
        (if status = kOk
         then ring_read (l_ring s) (unat (l_produced s) + length (l_pending s)) n else [])\<rparr>)"
    (is "link_inv ?s'")
proof -
  let ?N = "length (l_ring s)" and ?p = "unat (l_produced s) + length (l_pending s)"
  let ?d = "l_used s + length (l_pending s)"
  obtain l where pend: "sb_pending_bytes b = of_nat (length (l_pending s))"
    and c: "sb_covers ?N b ?p l" and room: "?d + l \<le> ?N"
    using inv b by (auto simp: link_inv_def link_send_def)
  have parts: "link_rings s" "link_stream s" "link_recv s" using inv by (simp_all add: link_inv_def)
  have used: "l_used ?s' = l_used s" by (simp add: l_used_def)
  have recv: "link_recv ?s'" by (rule link_recv_mono [OF parts(3)]) (simp_all add: used)
  show ?thesis
  proof (cases "n \<le> l")
    case False
    with Skip_full [OF c, of n] skip have "status = kResourceExhausted" "b' = b" by auto
    with inv b show ?thesis by (simp add: link_inv_defs)
  next
    case True
    obtain b'' where ok: "SendBatch_Skip n b = (kOk, b'')"
      "sb_covers ?N b'' (?p + n) (l - n)" "sb_pending_bytes b'' = sb_pending_bytes b + of_nat n"
      by (rule Skip_ok [OF c True])
    with skip have eqs: "status = kOk" "b' = b''" by auto
    have "ring_read (l_ring s) (unat (l_consumed s) + ?d) n = ring_read (l_ring s) ?p n"
      using link_position [OF parts(1)] by (intro ring_read_cong_mod) simp
    then have new: "ring_read (l_ring s) (unat (l_consumed s)) (?d + n)
        = ring_read (l_ring s) (unat (l_consumed s)) ?d @ ring_read (l_ring s) ?p n"
      by (simp add: ring_read_add [of _ _ ?d])
    have "link_rings ?s'" using parts(1) by (simp add: link_rings_def)
    moreover have "link_stream ?s'"
      using parts(2) new room True unfolding link_stream_def used by (simp add: eqs(1) add.assoc)
    moreover have "link_send ?s'"
      using ok(2,3) room True unfolding link_send_def used
      by (auto simp: eqs(1,2) pend add.assoc intro!: exI [of _ "l - n"])
    ultimately show ?thesis using recv by (simp add: link_inv_def)
  qed
qed

lemma unat_grow:
  assumes "unat (p - c :: u64) + k < 18446744073709551616"
  shows "unat (p + of_nat k - c) = unat (p - c) + k"
proof -
  have "p + of_nat k - c = (p - c) + of_nat k" by simp
  then have "unat (p + of_nat k - c) = (unat (p - c) + unat (of_nat k :: u64)) mod 18446744073709551616"
    by (simp only: unat_add_u64)
  also have "unat (of_nat k :: u64) = k" using assms by (intro unat_of_nat_u64) simp
  finally show ?thesis using assms by simp
qed

lemma unat_shrink:
  assumes "t \<le> unat (p - c :: u64)"
  shows "unat (p - (c + of_nat t)) = unat (p - c) - t"
proof -
  have "unat (p - c) < 18446744073709551616" by (rule unat_u64_less)
  then have t: "unat (of_nat t :: u64) = t" using assms by (intro unat_of_nat_u64) linarith
  have "p - (c + of_nat t) = (p - c) - of_nat t" by simp
  then show ?thesis using unat_diff_u64 [of "of_nat t" "p - c"] assms by (simp only: t)
qed

lemma link_send_commit_inv:
  assumes inv: "link_inv s" and b: "l_send s = Some b"
    and commit: "SendBatch_Commit b (l_producer s, l_consumer_region s) = (q', r')"
  shows "link_inv (s\<lparr>l_producer := q', l_consumer_region := r', l_send := None,
      l_sent := l_sent s @ l_pending s, l_pending := []\<rparr>)" (is "link_inv ?s'")
proof -
  have parts: "link_rings s" "link_stream s" "link_recv s" using inv by (simp_all add: link_inv_def)
  have pend: "sb_pending_bytes b = of_nat (length (l_pending s))"
    using inv b by (simp add: link_inv_def link_send_def)
  let ?P = "l_produced s + of_nat (length (l_pending s))"
  have eqs: "q' = (l_producer s)\<lparr>q_remote_bytes_produced := ?P\<rparr>"
    "r' = (l_consumer_region s)\<lparr>bytes_produced := ?P\<rparr>"
    using commit by (auto simp: SendBatch_Commit_def Let_def pend)
  have bound: "l_used s + length (l_pending s) \<le> length (l_ring s)"
    using parts(2) by (simp add: link_stream_def)
  then have "unat (?P - l_consumed s) = unat (l_produced s - l_consumed s) + length (l_pending s)"
    using link_ring_bound [OF parts(1)] unfolding l_used_def by (intro unat_grow) linarith
  then have used: "l_used ?s' = l_used s + length (l_pending s)" by (simp add: l_used_def eqs)
  have "link_rings ?s'" using parts(1) by (simp add: link_rings_def eqs)
  moreover have "link_stream ?s'"
    using parts(2) unfolding link_stream_def used by (simp add: eqs)
  moreover have "link_send ?s'" by (simp add: link_send_def)
  moreover have "link_recv ?s'"
    by (rule link_recv_mono [OF parts(3)]) (simp_all only: used, simp_all add: eqs)
  ultimately show ?thesis by (simp add: link_inv_def)
qed

lemma link_send_begin_inv:
  assumes inv: "link_inv s" and none: "l_send s = None"
  shows "link_inv (s\<lparr>l_send := Some (BeginSend (l_producer s) (l_producer_region s)), l_pending := []\<rparr>)"
    (is "link_inv ?s'")
proof -
  have parts: "link_rings s" "link_stream s" "link_send s" "link_recv s"
    using inv by (simp_all add: link_inv_def)
  have pending: "l_pending s = []" using parts(3) none by (simp add: link_send_def)
  have ok: "ring_ok (q_remote_ring (l_producer s)) (q_remote_ring_size_mask (l_producer s)) (l_ring s)"
    and door: "remote_bytes_consumed (l_producer_region s) = l_consumed s"
    using parts(1) by (simp_all add: link_rings_def)
  have "l_used s \<le> length (l_ring s)" using parts(2) by (simp add: link_stream_def)
  then have used: "unat (l_produced s - remote_bytes_consumed (l_producer_region s)) \<le> length (l_ring s)"
    by (simp add: l_used_def door)
  note c = BeginSend_covers [OF ok used]
  have eq: "l_used ?s' = l_used s" by (simp add: l_used_def)
  have "link_rings ?s'" using parts(1) by (simp add: link_rings_def)
  moreover have "link_stream ?s'" using parts(2) pending unfolding link_stream_def eq by simp
  moreover have "link_send ?s'"
    using c used unfolding link_send_def eq unfolding l_used_def
    by (auto simp: door intro!: exI [of _ "length (l_ring s) - unat (l_produced s - l_consumed s)"])
  moreover have "link_recv ?s'"
    by (rule link_recv_mono [OF parts(4)]) (simp_all add: eq)
  ultimately show ?thesis by (simp add: link_inv_def)
qed

lemma link_stream_committed:
  assumes "link_stream s"
  shows "l_received s @ ring_read (l_ring s) (unat (l_consumed s)) (l_used s) = l_sent s"
proof -
  have "(l_received s @ ring_read (l_ring s) (unat (l_consumed s)) (l_used s)) @
      ring_read (l_ring s) (unat (l_consumed s) + l_used s) (length (l_pending s))
    = l_sent s @ l_pending s"
    using assms by (simp add: link_stream_def ring_read_add)
  moreover have "length (l_received s @ ring_read (l_ring s) (unat (l_consumed s)) (l_used s))
      = length (l_sent s)"
    using assms by (simp add: link_stream_def)
  ultimately show ?thesis by (metis append_eq_append_conv)
qed

lemma link_send_abandon_inv:
  assumes inv: "link_inv s"
  shows "link_inv (s\<lparr>l_send := None, l_pending := []\<rparr>)" (is "link_inv ?s'")
proof -
  have parts: "link_rings s" "link_stream s" "link_recv s" using inv by (simp_all add: link_inv_def)
  have used: "l_used ?s' = l_used s" by (simp add: l_used_def)
  have "link_rings ?s'" using parts(1) by (simp add: link_rings_def)
  moreover have "link_stream ?s'"
    using parts(2) link_stream_committed [OF parts(2)] unfolding link_stream_def used by simp
  moreover have "link_send ?s'" by (simp add: link_send_def)
  moreover have "link_recv ?s'" by (rule link_recv_mono [OF parts(3)]) (simp_all add: used)
  ultimately show ?thesis by (simp add: link_inv_def)
qed

text \<open>The steps of the consumer.\<close>

lemma link_recv_begin_inv:
  assumes inv: "link_inv s"
    and rb: "BeginReceive (l_consumer s) (l_consumer_region s) = Inr b"
  shows "link_inv (s\<lparr>l_recv := Some b, l_taken := []\<rparr>)" (is "link_inv ?s'")
proof -
  have parts: "link_rings s" "link_stream s" "link_send s" using inv by (simp_all add: link_inv_def)
  have ok: "ring_ok (q_local_ring (l_consumer s)) (q_local_ring_size_mask (l_consumer s)) (l_ring s)"
    and door: "bytes_produced (l_consumer_region s) = l_produced s"
    using parts(1) by (simp_all add: link_rings_def)
  have avail: "unat (bytes_produced (l_consumer_region s) - l_consumed s) \<le> length (l_ring s)"
    using parts(2) by (simp add: link_stream_def l_used_def door)
  have some: "bytes_produced (l_consumer_region s) \<noteq> l_consumed s"
    using rb by (auto simp: BeginReceive_def)
  obtain b'' where "BeginReceive (l_consumer s) (l_consumer_region s) = Inr b''"
    and c: "rb_covers (length (l_ring s)) b'' (unat (l_consumed s)) (l_used s)"
    and taken: "rb_taken_bytes b'' = 0"
    by (rule BeginReceive_covers [OF ok some avail]) (auto simp: l_used_def door)
  with rb have "b'' = b" by simp
  have used: "l_used ?s' = l_used s" by (simp add: l_used_def)
  have "link_rings ?s'" using parts(1) by (simp add: link_rings_def)
  moreover have "link_stream ?s'" using parts(2) unfolding link_stream_def used by simp
  moreover have "link_send ?s'" by (rule link_send_mono [OF parts(3)]) (simp_all add: used)
  moreover have "link_recv ?s'"
    using c taken \<open>b'' = b\<close> unfolding link_recv_def used by auto
  ultimately show ?thesis by (simp add: link_inv_def)
qed

lemma link_take_inv:
  assumes inv: "link_inv s" and b: "l_recv s = Some b"
    and l: "rb_covers (length (l_ring s)) b (unat (l_consumed s) + length (l_taken s)) l"
      "length (l_taken s) + l \<le> l_used s"
    and n: "n \<le> l"
    and b': "rb_covers (length (l_ring s)) b' (unat (l_consumed s) + length (l_taken s) + n) (l - n)"
      "rb_taken_bytes b' = rb_taken_bytes b + of_nat n"
  shows "link_inv (s\<lparr>l_recv := Some b',
      l_taken := l_taken s @ ring_read (l_ring s) (unat (l_consumed s) + length (l_taken s)) n\<rparr>)"
    (is "link_inv ?s'")
proof -
  have parts: "link_rings s" "link_stream s" "link_send s" using inv by (simp_all add: link_inv_def)
  have old: "rb_taken_bytes b = of_nat (length (l_taken s))"
    "l_taken s = ring_read (l_ring s) (unat (l_consumed s)) (length (l_taken s))"
    using inv b by (auto simp: link_inv_def link_recv_def)
  have used: "l_used ?s' = l_used s" by (simp add: l_used_def)
  have new: "l_taken s @ ring_read (l_ring s) (unat (l_consumed s) + length (l_taken s)) n
      = ring_read (l_ring s) (unat (l_consumed s)) (length (l_taken s) + n)"
    using old(2) by (simp add: ring_read_add)
  have "link_rings ?s'" using parts(1) by (simp add: link_rings_def)
  moreover have "link_stream ?s'" using parts(2) unfolding link_stream_def used by simp
  moreover have "link_send ?s'" by (rule link_send_mono [OF parts(3)]) (simp_all add: used)
  moreover have "link_recv ?s'"
    using b' n l(2) unfolding link_recv_def used
    by (auto simp: new old(1) add.assoc intro!: exI [of _ "l - n"])
  ultimately show ?thesis by (simp add: link_inv_def)
qed

lemma write_at_whole: "length bs = length mem \<Longrightarrow> write_at 0 bs mem = bs"
  by (simp add: write_at_def)

lemma link_recv_copy_inv:
  assumes inv: "link_inv s" and b: "l_recv s = Some b"
    and recv: "ReceiveBatch_Recv (l_ring s) n (Some (replicate n 0), b) = (status, Some bs, b')"
  shows "link_inv (s\<lparr>l_recv := Some b', l_taken := l_taken s @ (if status = kOk then bs else [])\<rparr>)"
proof -
  let ?p = "unat (l_consumed s) + length (l_taken s)"
  obtain l where l: "rb_covers (length (l_ring s)) b ?p l" "length (l_taken s) + l \<le> l_used s"
    using inv b by (auto simp: link_inv_def link_recv_def)
  show ?thesis
  proof (cases "n \<le> l")
    case False
    with Recv_short [OF l(1), of n] recv have "status = kUnavailable" "b' = b" by auto
    with inv b show ?thesis by (simp add: link_inv_defs)
  next
    case True
    obtain b'' where ok: "ReceiveBatch_Recv (l_ring s) n (Some (replicate n 0), b)
        = (kOk, map_option (write_at 0 (ring_read (l_ring s) ?p n)) (Some (replicate n 0)), b'')"
      "rb_covers (length (l_ring s)) b'' (?p + n) (l - n)"
      "rb_taken_bytes b'' = rb_taken_bytes b + of_nat n"
      by (rule Recv_ok [OF l(1) True, of "Some (replicate n 0)"]) simp_all
    with recv have "status = kOk" "b' = b''" "bs = ring_read (l_ring s) ?p n"
      by (auto simp: write_at_whole)
    with link_take_inv [OF inv b l True ok(2,3)] show ?thesis by simp
  qed
qed

lemma link_recv_drop_inv:
  assumes inv: "link_inv s" and b: "l_recv s = Some b"
    and recv: "RemovePrefix (l_ring s) n b = (status, b')"
  shows "link_inv (s\<lparr>l_recv := Some b',
      l_taken := l_taken s @
        (if status = kOk
         then ring_read (l_ring s) (unat (l_consumed s) + length (l_taken s)) n else [])\<rparr>)"
proof -
  let ?p = "unat (l_consumed s) + length (l_taken s)"
  obtain l where l: "rb_covers (length (l_ring s)) b ?p l" "length (l_taken s) + l \<le> l_used s"
    using inv b by (auto simp: link_inv_def link_recv_def)
  show ?thesis
  proof (cases "n \<le> l")
    case False
    with RemovePrefix_short [OF l(1), of n] recv have "status = kUnavailable" "b' = b" by auto
    with inv b show ?thesis by (simp add: link_inv_defs)
  next
    case True
    obtain b'' where ok: "RemovePrefix (l_ring s) n b = (kOk, b'')"
      "rb_covers (length (l_ring s)) b'' (?p + n) (l - n)"
      "rb_taken_bytes b'' = rb_taken_bytes b + of_nat n"
      by (rule RemovePrefix_ok [OF l(1) True])
    with recv have "status = kOk" "b' = b''" by auto
    with link_take_inv [OF inv b l True ok(2,3)] show ?thesis by simp
  qed
qed

lemma link_recv_commit_inv:
  assumes inv: "link_inv s" and b: "l_recv s = Some b"
    and commit: "ReceiveBatch_Commit b (l_consumer s, l_producer_region s) = (q', r')"
  shows "link_inv (s\<lparr>l_consumer := q', l_producer_region := r', l_recv := None,
      l_received := l_received s @ l_taken s, l_taken := []\<rparr>)" (is "link_inv ?s'")
proof -
  have parts: "link_rings s" "link_stream s" "link_send s" using inv by (simp_all add: link_inv_def)
  let ?t = "length (l_taken s)"
  let ?C = "l_consumed s + of_nat ?t"
  have old: "rb_taken_bytes b = of_nat ?t" "?t \<le> l_used s"
    and taken: "l_taken s = ring_read (l_ring s) (unat (l_consumed s)) ?t"
    using inv b by (auto simp: link_inv_def link_recv_def)
  have eqs: "q' = (l_consumer s)\<lparr>q_local_bytes_consumed := ?C\<rparr>"
    "r' = (l_producer_region s)\<lparr>remote_bytes_consumed := ?C\<rparr>"
    using commit by (auto simp: ReceiveBatch_Commit_def Let_def old)
  have used: "l_used ?s' = l_used s - ?t"
    using unat_shrink [of ?t "l_produced s" "l_consumed s"] old(2) by (simp add: l_used_def eqs)
  have "length (l_ring s) dvd 18446744073709551616"
    using parts(1) ring_ok_facts(1) by (auto simp: link_rings_def)
  moreover have "unat (of_nat ?t :: u64) = ?t"
    using old(2) unat_u64_less [of "l_produced s - l_consumed s"]
    unfolding l_used_def by (intro unat_of_nat_u64) linarith
  ultimately have pos: "unat ?C mod length (l_ring s) = (unat (l_consumed s) + ?t) mod length (l_ring s)"
    using unat_advance_mod [of "length (l_ring s)" "l_consumed s" "of_nat ?t"] by simp
  let ?k = "length (l_pending s)"
  have "ring_read (l_ring s) (unat (l_consumed s)) (?t + (l_used s - ?t + ?k))
      = l_taken s @ ring_read (l_ring s) (unat (l_consumed s) + ?t) (l_used s - ?t + ?k)"
    unfolding ring_read_add by (simp only: taken [symmetric])
  also have "ring_read (l_ring s) (unat (l_consumed s) + ?t) (l_used s - ?t + ?k)
      = ring_read (l_ring s) (unat ?C) (l_used s - ?t + ?k)"
    by (rule ring_read_cong_mod) (simp only: pos)
  also have "?t + (l_used s - ?t + ?k) = l_used s + ?k" using old(2) by simp
  finally have split: "ring_read (l_ring s) (unat (l_consumed s)) (l_used s + ?k)
      = l_taken s @ ring_read (l_ring s) (unat ?C) (l_used s - ?t + ?k)" .
  have "link_rings ?s'" using parts(1) by (simp add: link_rings_def eqs)
  moreover have "link_stream ?s'"
    using parts(2) old(2) split unfolding link_stream_def used by (simp add: eqs) linarith
  moreover have "link_send ?s'"
    by (rule link_send_mono [OF parts(3)]) (simp_all only: used, simp_all add: eqs)
  moreover have "link_recv ?s'" by (simp add: link_recv_def)
  ultimately show ?thesis by (simp add: link_inv_def)
qed

lemma link_recv_abandon_inv:
  assumes inv: "link_inv s"
  shows "link_inv (s\<lparr>l_recv := None, l_taken := []\<rparr>)" (is "link_inv ?s'")
proof -
  have parts: "link_rings s" "link_stream s" "link_send s" using inv by (simp_all add: link_inv_def)
  have used: "l_used ?s' = l_used s" by (simp add: l_used_def)
  have "link_rings ?s'" using parts(1) by (simp add: link_rings_def)
  moreover have "link_stream ?s'" using parts(2) unfolding link_stream_def used by simp
  moreover have "link_send ?s'" by (rule link_send_mono [OF parts(3)]) (simp_all add: used)
  moreover have "link_recv ?s'" by (simp add: link_recv_def)
  ultimately show ?thesis by (simp add: link_inv_def)
qed

lemma link_step_inv: "link_step s s' \<Longrightarrow> link_inv s \<Longrightarrow> link_inv s'"
  by (induction rule: link_step.induct)
    (blast intro: link_send_begin_inv link_append_inv link_skip_inv link_send_commit_inv
      link_send_abandon_inv link_recv_begin_inv link_recv_copy_inv link_recv_drop_inv
      link_recv_commit_inv link_recv_abandon_inv)+

lemma link_reachable_inv:
  assumes "link_step\<^sup>*\<^sup>* s0 s" and "link_init s0"
  shows "link_inv s"
  using assms by (induction rule: rtranclp_induct) (auto intro: link_init_inv link_step_inv)

section \<open>Progress of each end\<close>

lemma link_can_send:
  assumes inv: "link_inv s" and none: "l_send s = None"
    and room: "length bs \<le> length (l_ring s) - l_used s"
  obtains s' where "link_step\<^sup>*\<^sup>* s s'" "l_sent s' = l_sent s @ bs" "l_send s' = None"
    "l_recv s' = l_recv s" "l_received s' = l_received s"
proof -
  let ?b = "BeginSend (l_producer s) (l_producer_region s)"
  let ?s1 = "s\<lparr>l_send := Some ?b, l_pending := []\<rparr>"
  have ok: "ring_ok (q_remote_ring (l_producer s)) (q_remote_ring_size_mask (l_producer s)) (l_ring s)"
    and used: "unat (l_produced s - remote_bytes_consumed (l_producer_region s)) \<le> length (l_ring s)"
    and door: "remote_bytes_consumed (l_producer_region s) = l_consumed s"
    using inv by (auto simp: link_inv_defs)
  note c = BeginSend_covers(1) [OF ok used]
  obtain b' where app: "SendBatch_Append (l_producer s) 0 bs (?b, l_ring s)
      = (kOk, b', ring_write (l_ring s) (unat (l_produced s)) bs)"
    by (rule Append_ok [OF c, of bs]) (use room in \<open>auto simp: l_used_def door\<close>)
  let ?s2 = "?s1\<lparr>l_send := Some b',
    l_consumer_region := (l_consumer_region ?s1)\<lparr>ring := ring_write (l_ring s) (unat (l_produced s)) bs\<rparr>,
    l_pending := l_pending ?s1 @ (if kOk = kOk then bs else [])\<rparr>"
  obtain q' r' where commit: "SendBatch_Commit b' (l_producer ?s2, l_consumer_region ?s2) = (q', r')"
    by fastforce
  let ?s3 = "?s2\<lparr>l_producer := q', l_consumer_region := r', l_send := None,
      l_sent := l_sent ?s2 @ l_pending ?s2, l_pending := []\<rparr>"
  have "link_step s ?s1" using none by (rule link_step.send_begin)
  moreover have "link_step ?s1 ?s2"
    by (rule link_step.send_append [where b = ?b and addr = 0]) (use app in simp_all)
  moreover have "link_step ?s2 ?s3"
    by (rule link_step.send_commit [where b = b']) (use commit in simp_all)
  ultimately have "link_step\<^sup>*\<^sup>* s ?s3" by (meson rtranclp.rtrancl_into_rtrancl rtranclp.rtrancl_refl)
  then show thesis by (rule that) simp_all
qed

lemma link_can_drain:
  assumes inv: "link_inv s" and none: "l_recv s = None"
  obtains s' where "link_step\<^sup>*\<^sup>* s s'" "l_sent s' = l_sent s" "l_received s' = l_sent s"
    "l_send s' = l_send s" "l_recv s' = None"
proof (cases "l_used s = 0")
  case True
  have "link_stream s" using inv by (simp add: link_inv_def)
  from link_stream_committed [OF this] True have "l_received s = l_sent s" by simp
  with none show thesis by (intro that [of s]) simp_all
next
  case False
  have parts: "link_rings s" "link_stream s" using inv by (simp_all add: link_inv_def)
  have ok: "ring_ok (q_local_ring (l_consumer s)) (q_local_ring_size_mask (l_consumer s)) (l_ring s)"
    and door: "bytes_produced (l_consumer_region s) = l_produced s"
    using parts(1) by (simp_all add: link_rings_def)
  have avail: "bytes_produced (l_consumer_region s) \<noteq> l_consumed s"
    "unat (bytes_produced (l_consumer_region s) - l_consumed s) \<le> length (l_ring s)"
    using parts(2) False by (auto simp: link_stream_def l_used_def door)
  obtain b where b: "BeginReceive (l_consumer s) (l_consumer_region s) = Inr b"
    and c: "rb_covers (length (l_ring s)) b (unat (l_consumed s)) (l_used s)"
    by (rule BeginReceive_covers [OF ok avail]) (auto simp: l_used_def door)
  let ?bs = "ring_read (l_ring s) (unat (l_consumed s)) (l_used s)"
  let ?z = "replicate (l_used s) 0 :: u8 list"
  let ?s1 = "s\<lparr>l_recv := Some b, l_taken := []\<rparr>"
  obtain b' where recv: "ReceiveBatch_Recv (l_ring s) (l_used s) (Some ?z, b) = (kOk, Some ?bs, b')"
    by (rule Recv_ok [OF c order.refl, of "Some ?z"]) (auto simp: write_at_whole)
  let ?s2 = "?s1\<lparr>l_recv := Some b', l_taken := l_taken ?s1 @ (if kOk = kOk then ?bs else [])\<rparr>"
  obtain q' r' where commit: "ReceiveBatch_Commit b' (l_consumer ?s2, l_producer_region ?s2) = (q', r')"
    by fastforce
  let ?s3 = "?s2\<lparr>l_consumer := q', l_producer_region := r', l_recv := None,
      l_received := l_received ?s2 @ l_taken ?s2, l_taken := []\<rparr>"
  have "link_step s ?s1" using none b by (rule link_step.recv_begin)
  moreover have "link_step ?s1 ?s2"
    by (rule link_step.recv_copy [where b = b and n = "l_used s"]) (use recv in simp_all)
  moreover have "link_step ?s2 ?s3"
    by (rule link_step.recv_commit [where b = b']) (use commit in simp_all)
  ultimately have "link_step\<^sup>*\<^sup>* s ?s3" by (meson rtranclp.rtrancl_into_rtrancl rtranclp.rtrancl_refl)
  then show thesis by (rule that) (simp_all add: link_stream_committed [OF parts(2)])
qed

text \<open>A link on a one-page ring whose counters are about to wrap.\<close>

definition wrap_span :: byte_span where
  "wrap_span = \<lparr>span_data = 8192, span_size = 4096\<rparr>"

definition wrap_end :: SpscQueuePair where
  "wrap_end = (new_SpscQueuePair wrap_span wrap_span)
     \<lparr>q_local_bytes_consumed := - 1, q_remote_bytes_produced := - 1\<rparr>"

definition wrap_region :: region where
  "wrap_region = \<lparr>bytes_produced = - 1, remote_bytes_consumed = - 1, ring = replicate 4096 0\<rparr>"

definition wrap_link :: link where
  "wrap_link = \<lparr>l_producer = wrap_end, l_consumer = wrap_end,
     l_producer_region = wrap_region, l_consumer_region = wrap_region,
     l_send = None, l_recv = None, l_sent = [], l_pending = [], l_received = [], l_taken = []\<rparr>"

lemma has_single_bit_4096: "has_single_bit 4096"
  by code_simp

lemma wrap_link_init: "link_init wrap_link"
  by (simp add: link_init_def wrap_link_def wrap_end_def wrap_span_def wrap_region_def
      new_SpscQueuePair_def ring_ok_def has_single_bit_4096 kPageSize_def)

section \<open>Properties\<close>

text \<open>
  C1: however the calls of producer and consumer interleave, and across wrap-around of the 64-bit
  counters, the bytes the producer has committed are the bytes the consumer has committed as read,
  in order, followed by what the ring still holds; what the consumer has read but not committed is
  a prefix of those; and the unread bytes never exceed the ring.
\<close>

theorem link_fifo:
  assumes "link_init s0" and "link_step\<^sup>*\<^sup>* s0 s"
  shows "l_sent s = l_received s @ ring_read (l_ring s) (unat (l_consumed s)) (l_used s) \<and>
    l_taken s = take (length (l_taken s)) (ring_read (l_ring s) (unat (l_consumed s)) (l_used s)) \<and>
    l_used s \<le> length (l_ring s)"
proof -
  have inv: "link_inv s" using assms(2,1) by (rule link_reachable_inv)
  then have stream: "link_stream s" and recv: "link_recv s" by (simp_all add: link_inv_def)
  have "l_taken s = take (length (l_taken s)) (ring_read (l_ring s) (unat (l_consumed s)) (l_used s))"
    using recv by (cases "l_recv s") (auto simp: link_recv_def)
  with stream link_stream_committed [OF stream] show ?thesis by (simp add: link_stream_def)
qed

theorem link_fifo_witness:
  "\<exists>s. link_step\<^sup>*\<^sup>* wrap_link s \<and> l_sent s = [1, 2, 3] \<and>
     l_sent s = l_received s @ ring_read (l_ring s) (unat (l_consumed s)) (l_used s)"
proof -
  have inv: "link_inv wrap_link" by (rule link_init_inv [OF wrap_link_init])
  obtain s where s: "link_step\<^sup>*\<^sup>* wrap_link s" "l_sent s = l_sent wrap_link @ [1, 2, 3]"
    by (rule link_can_send [OF inv, of "[1, 2, 3]"])
      (auto simp: wrap_link_def l_used_def wrap_end_def wrap_region_def)
  with link_fifo [OF wrap_link_init s(1)] show ?thesis by (auto simp: wrap_link_def)
qed

text \<open>
  From every reachable state without open batches, bytes that fit in the free part of the ring
  can be sent and then all of the stream received: the consumer ends with every byte sent so far.
\<close>

theorem link_transfer:
  assumes "link_init s0" and "link_step\<^sup>*\<^sup>* s0 s"
    and "l_send s = None" and "l_recv s = None"
    and "length bs \<le> length (l_ring s) - l_used s"
  shows "\<exists>s'. link_step\<^sup>*\<^sup>* s s' \<and> l_sent s' = l_sent s @ bs \<and> l_received s' = l_sent s @ bs"
proof -
  have inv: "link_inv s" using assms(2,1) by (rule link_reachable_inv)
  obtain s1 where s1: "link_step\<^sup>*\<^sup>* s s1" "l_sent s1 = l_sent s @ bs" "l_recv s1 = l_recv s"
    by (rule link_can_send [OF inv assms(3,5)])
  have "link_inv s1"
    using link_reachable_inv [OF rtranclp_trans [OF assms(2) s1(1)] assms(1)] .
  then obtain s2 where "link_step\<^sup>*\<^sup>* s1 s2" "l_sent s2 = l_sent s1" "l_received s2 = l_sent s1"
    by (rule link_can_drain) (simp_all add: s1(3) assms(4))
  with s1 show ?thesis by (metis rtranclp_trans)
qed

theorem link_transfer_witness:
  "\<exists>s'. link_step\<^sup>*\<^sup>* wrap_link s' \<and> l_received s' = [1, 2, 3]"
proof -
  have "\<exists>s'. link_step\<^sup>*\<^sup>* wrap_link s' \<and> l_sent s' = l_sent wrap_link @ [1, 2, 3] \<and>
      l_received s' = l_sent wrap_link @ [1, 2, 3]"
    by (rule link_transfer [OF wrap_link_init rtranclp.rtrancl_refl])
      (simp_all add: wrap_link_def wrap_end_def wrap_region_def l_used_def)
  then show ?thesis by (auto simp: wrap_link_def)
qed

text \<open>
  C21: two endpoints built by \<open>MakeSpscQueuePair\<close> on each other's regions, with zeroed doorbells and
  ring memories of the sizes given, form a link in its initial state; so every ring the construction
  accepts carries a first-in first-out stream.
\<close>

theorem MakeSpscQueuePair_link:
  assumes "MakeSpscQueuePair da ra db rb = Inr qa" and "MakeSpscQueuePair db rb da ra = Inr qb"
    and "length mem = unat (span_size rb)"
    and "bytes_produced r = 0" and "remote_bytes_consumed r' = 0"
  shows "link_init \<lparr>l_producer = qa, l_consumer = qb,
    l_producer_region = r', l_consumer_region = r\<lparr>ring := mem\<rparr>,
    l_send = None, l_recv = None, l_sent = [], l_pending = [], l_received = [], l_taken = []\<rparr>"
  using MakeSpscQueuePair_Inr [OF assms(1)] MakeSpscQueuePair_Inr [OF assms(2)] assms(3-5)
  by (simp add: link_init_def ring_ok_def new_SpscQueuePair_def)

theorem MakeSpscQueuePair_link_witness:
  "\<exists>qa qb. MakeSpscQueuePair \<lparr>span_data = 0, span_size = 4096\<rparr> wrap_span
      \<lparr>span_data = 4096, span_size = 4096\<rparr> wrap_span = Inr qa \<and>
    link_init \<lparr>l_producer = qa, l_consumer = qb,
      l_producer_region = wrap_region\<lparr>remote_bytes_consumed := 0\<rparr>,
      l_consumer_region = (wrap_region\<lparr>bytes_produced := 0\<rparr>)\<lparr>ring := replicate 4096 7\<rparr>,
      l_send = None, l_recv = None, l_sent = [], l_pending = [], l_received = [], l_taken = []\<rparr>"
proof -
  let ?d = "\<lparr>span_data = 0, span_size = 4096\<rparr>" and ?d' = "\<lparr>span_data = 4096, span_size = 4096\<rparr>"
  let ?q = "new_SpscQueuePair wrap_span wrap_span"
  have "MakeSpscQueuePair ?d wrap_span ?d' wrap_span = Inr ?q"
    "MakeSpscQueuePair ?d' wrap_span ?d wrap_span = Inr ?q"
    by (simp_all add: MakeSpscQueuePair_def check_region_def wrap_span_def kPageSize_def
        kDoorbellsSize_def has_single_bit_4096)
  from MakeSpscQueuePair_link [OF this, of "replicate 4096 7" "wrap_region\<lparr>bytes_produced := 0\<rparr>"
      "wrap_region\<lparr>remote_bytes_consumed := 0\<rparr>"] this(1)
  show ?thesis by (auto simp: wrap_span_def)
qed

end
