(* ===== verification/Spsc_Messaging_Queue_Pair.thy ===== *)
theory Spsc_Messaging_Queue_Pair
  imports Spsc_Interleaving
begin

unbundle bit_operations_syntax

text \<open>
  Messages over the byte queue, \<^verbatim>\<open>dxs/client/spsc_queue/spsc_messaging_queue_pair.{h,cc}\<close>: each
  message is a four-byte header, the body and padding to the next 64-byte boundary. The theory
  shows that the byte-level operations implement a bounded queue of messages (\<open>messages\<close>), and puts
  the two directions together (\<open>duplex\<close>). The handler a caller passes to \<^verbatim>\<open>Receive\<close> is represented by
  the spans it is called with.
\<close>


section \<open>Constants and the message header\<close>

definition kAlignment :: u64 where "kAlignment = 64"
definition kMaxMessageSize :: nat where "kMaxMessageSize = 16 * 1024 * 1024 - 1"

definition AlignDownTo :: "u64 \<Rightarrow> u64 \<Rightarrow> u64" where
  "AlignDownTo x align = align * (x div align)"

definition AlignUpTo :: "u64 \<Rightarrow> u64 \<Rightarrow> u64" where
  "AlignUpTo x align = AlignDownTo (x + align - 1) align"

definition PaddingBytes :: "u64 \<Rightarrow> u64" where
  "PaddingBytes body_bytes = AlignUpTo (body_bytes + 4) kAlignment - 4 - body_bytes"

text \<open>
  The bit fields of \<^verbatim>\<open>MessageHeader\<close> as they lie in memory: eight reserved bits, zero, then 24 bits
  of body length, in a little-endian word.
\<close>

definition MessageHeader :: "nat \<Rightarrow> u8 list" where
  "MessageHeader body_bytes = le_bytes 4 (unat (push_bit 8 (of_nat body_bytes :: u32)))"

definition header_body_bytes :: "u8 list \<Rightarrow> nat" where
  "header_body_bytes header = unat (drop_bit 8 (load32 header 0))"

section \<open>Construction\<close>

text \<open>
  \<^verbatim>\<open>absl::Span::subspan\<close>: the length is cut at the end of the span; a start past the end throws,
  which is \<open>None\<close>.
\<close>

definition subspan :: "u64 \<Rightarrow> u64 \<Rightarrow> byte_span \<Rightarrow> byte_span option" where
  "subspan pos len sp =
     (if pos > span_size sp then None
      else Some \<lparr>span_data = span_data sp + pos, span_size = min (span_size sp - pos) len\<rparr>)"

definition subspan_from :: "u64 \<Rightarrow> byte_span \<Rightarrow> byte_span option" where
  "subspan_from pos sp = subspan pos (- 1) sp"

definition Create :: "byte_span \<Rightarrow> byte_span \<Rightarrow> SpscQueuePair StatusOr option" where
  "Create local_region remote_region =
     (case (subspan 0 kDoorbellsSize local_region, subspan_from kDoorbellsSize local_region,
            subspan 0 kDoorbellsSize remote_region, subspan_from kDoorbellsSize remote_region) of
        (Some ld, Some lr, Some rd, Some rr) \<Rightarrow> Some (MakeSpscQueuePair ld lr rd rr)
      | _ \<Rightarrow> None)"

definition Restore ::
    "byte_span \<Rightarrow> byte_span \<Rightarrow> SpscQueuePairState \<Rightarrow> region \<Rightarrow> SpscQueuePair StatusOr option" where
  "Restore local_region remote_region state remote =
     (if state_remote_bytes_produced state mod kAlignment \<noteq> 0
         \<or> state_local_bytes_consumed state mod kAlignment \<noteq> 0
      then Some (Inl kInvalidArgument)
      else case Create local_region remote_region of
        None \<Rightarrow> None
      | Some (Inl e) \<Rightarrow> Some (Inl e)
      | Some (Inr ret) \<Rightarrow>
          (case RestoreState state remote ret of
             (status, ret') \<Rightarrow> if status \<noteq> kOk then Some (Inl status) else Some (Inr ret')))"

section \<open>Sending and receiving messages\<close>

text \<open>\<open>haddr\<close> and \<open>addr\<close> are the addresses of the header and of the message in our memory.\<close>

definition Messaging_Send ::
    "u64 \<Rightarrow> u64 \<Rightarrow> u8 list \<Rightarrow> SpscQueuePair \<Rightarrow> region \<Rightarrow> region \<Rightarrow> StatusCode \<times> SpscQueuePair \<times> region"
    where
  "Messaging_Send haddr addr msg q local remote =
     (if length msg > kMaxMessageSize then (kInvalidArgument, q, remote)
      else
        case SendBatch_Append q haddr (MessageHeader (length msg)) (BeginSend q local, ring remote) of
          (status1, batch1, mem1) \<Rightarrow>
        if status1 \<noteq> kOk then (status1, q, remote\<lparr>ring := mem1\<rparr>)
        else case SendBatch_Append q addr msg (batch1, mem1) of
          (status2, batch2, mem2) \<Rightarrow>
        if status2 \<noteq> kOk then (status2, q, remote\<lparr>ring := mem2\<rparr>)
        else case SendBatch_Skip (unat (PaddingBytes (of_nat (length msg)))) batch2 of
          (status3, batch3) \<Rightarrow>
        if status3 \<noteq> kOk then (status3, q, remote\<lparr>ring := mem2\<rparr>)
        else (kOk, SendBatch_Commit batch3 (q, remote\<lparr>ring := mem2\<rparr>)))"

text \<open>The header, in place when the first segment holds it all, else through a copy.\<close>

definition Receive_header :: "u8 list \<Rightarrow> ReceiveBatch \<Rightarrow> StatusCode \<times> nat \<times> ReceiveBatch" where
  "Receive_header mem batch =
     (if seg_size (rb_segment batch) < 4
      then case ReceiveBatch_Recv mem 4 (Some (replicate 4 0), batch) of
        (status, header, batch1) \<Rightarrow> (status, header_body_bytes (the header), batch1)
      else (kOk, header_body_bytes (seg_bytes mem (rb_segment batch)), snd (RemovePrefix mem 4 batch)))"

text \<open>The two spans the handler is called with.\<close>

definition handler_spans :: "u8 list \<Rightarrow> nat \<Rightarrow> ReceiveBatch \<Rightarrow> u8 list \<times> u8 list" where
  "handler_spans mem body_bytes batch =
     (let first_segment_size = seg_size (rb_segment batch);
          first = seg_bytes mem (rb_segment batch);
          second = seg_bytes mem (rb_backup_segment batch)
      in if body_bytes > first_segment_size
         then (first, take (body_bytes - first_segment_size) second)
         else (take body_bytes first, []))"

text \<open>
  The second component is what the handler was called with, if it was called. The third and fourth
  are our queue pair and the peer's region.
\<close>

definition Receive_handler ::
    "SpscQueuePair \<Rightarrow> region \<Rightarrow> region
      \<Rightarrow> StatusCode \<times> (u8 list \<times> u8 list) option \<times> SpscQueuePair \<times> region" where
  "Receive_handler q local remote =
     (case BeginReceive q local of
        Inl status \<Rightarrow> (status, None, q, remote)
      | Inr batch \<Rightarrow>
          (case Receive_header (ring local) batch of (status1, body_bytes, batch1) \<Rightarrow>
           if status1 \<noteq> kOk then (status1, None, q, remote)
           else if RemainingBytes batch1 < body_bytes then (kUnavailable, None, q, remote)
           else
             let call = handler_spans (ring local) body_bytes batch1;
                 batch2 = snd (RemovePrefix (ring local) body_bytes batch1)
             in case RemovePrefix (ring local) (unat (PaddingBytes (of_nat body_bytes))) batch2 of
                  (status2, batch3) \<Rightarrow>
                if status2 \<noteq> kOk then (status2, Some call, q, remote)
                else (kOk, Some call, ReceiveBatch_Commit batch3 (q, remote))))"

definition Messaging_Receive ::
    "SpscQueuePair \<Rightarrow> region \<Rightarrow> region \<Rightarrow> u8 list StatusOr \<times> SpscQueuePair \<times> region" where
  "Messaging_Receive q local remote =
     (case Receive_handler q local remote of (status, call, q', remote') \<Rightarrow>
        if status \<noteq> kOk then (Inl status, q', remote')
        else (Inr (case call of None \<Rightarrow> [] | Some (first, second) \<Rightarrow> first @ second), q', remote'))"

section \<open>Specification: a ring of whole messages\<close>

text \<open>The bytes a message takes up with its header and padding.\<close>

definition frame_size :: "nat \<Rightarrow> nat" where
  "frame_size n = 64 * ((n + 67) div 64)"

text \<open>The messages a byte stream holds, or \<open>None\<close> when it does not end at the end of a message.\<close>

function frames_of :: "u8 list \<Rightarrow> u8 list list option" where
  "frames_of bs =
     (if bs = [] then Some []
      else
        let n = header_body_bytes bs in
        if length bs < frame_size n then None
        else map_option ((#) (take n (drop 4 bs))) (frames_of (drop (frame_size n) bs)))"
  by pat_completeness auto
termination
  by (relation "measure length") (auto simp: frame_size_def)

text \<open>The committed bytes the consumer has not given back.\<close>

definition unread :: "SpscQueuePair \<Rightarrow> region \<Rightarrow> u8 list" where
  "unread q local = ring_read (ring local) (unat (q_local_bytes_consumed q))
     (unat (bytes_produced local - q_local_bytes_consumed q))"

text \<open>
  \<open>messages p c rp rc ms\<close>: the producer \<open>p\<close> with region \<open>rp\<close> and the consumer \<open>c\<close> with region \<open>rc\<close>
  agree on the ring in \<open>rc\<close>, and it holds exactly the messages \<open>ms\<close>.
\<close>

definition messages ::
    "SpscQueuePair \<Rightarrow> SpscQueuePair \<Rightarrow> region \<Rightarrow> region \<Rightarrow> u8 list list \<Rightarrow> bool" where
  "messages p c rp rc ms \<longleftrightarrow>
     ring_ok (q_remote_ring p) (q_remote_ring_size_mask p) (ring rc) \<and>
     ring_ok (q_local_ring c) (q_local_ring_size_mask c) (ring rc) \<and>
     bytes_produced rc = q_remote_bytes_produced p \<and>
     remote_bytes_consumed rp = q_local_bytes_consumed c \<and>
     unat (q_remote_bytes_produced p - q_local_bytes_consumed c) \<le> length (ring rc) \<and>
     unat (q_local_bytes_consumed c) mod 64 = 0 \<and>
     frames_of (unread c rc) = Some ms"

definition free_bytes :: "SpscQueuePair \<Rightarrow> SpscQueuePair \<Rightarrow> region \<Rightarrow> nat" where
  "free_bytes p c rc =
     length (ring rc) - unat (q_remote_bytes_produced p - q_local_bytes_consumed c)"

text \<open>Two endpoints: the queue pair of each and the region each one reads.\<close>

record duplex =
  dx_qa :: SpscQueuePair
  dx_qb :: SpscQueuePair
  dx_ra :: region
  dx_rb :: region

definition swap_ends :: "duplex \<Rightarrow> duplex" where
  "swap_ends d = \<lparr>dx_qa = dx_qb d, dx_qb = dx_qa d, dx_ra = dx_rb d, dx_rb = dx_ra d\<rparr>"

definition dx_outgoing :: "duplex \<Rightarrow> u8 list list" where
  "dx_outgoing d = the (frames_of (unread (dx_qb d) (dx_rb d)))"

definition dx_incoming :: "duplex \<Rightarrow> u8 list list" where
  "dx_incoming d = the (frames_of (unread (dx_qa d) (dx_ra d)))"

definition dx_inv :: "duplex \<Rightarrow> bool" where
  "dx_inv d \<longleftrightarrow>
     messages (dx_qa d) (dx_qb d) (dx_ra d) (dx_rb d) (dx_outgoing d) \<and>
     messages (dx_qb d) (dx_qa d) (dx_rb d) (dx_ra d) (dx_incoming d)"

text \<open>The calls of the first endpoint.\<close>

definition dx_send :: "u64 \<Rightarrow> u64 \<Rightarrow> u8 list \<Rightarrow> duplex \<Rightarrow> StatusCode \<times> duplex" where
  "dx_send haddr addr msg d =
     (case Messaging_Send haddr addr msg (dx_qa d) (dx_ra d) (dx_rb d) of
        (status, q, remote) \<Rightarrow> (status, d\<lparr>dx_qa := q, dx_rb := remote\<rparr>))"

definition dx_recv :: "duplex \<Rightarrow> u8 list StatusOr \<times> duplex" where
  "dx_recv d =
     (case Messaging_Receive (dx_qa d) (dx_ra d) (dx_rb d) of
        (result, q, remote) \<Rightarrow> (result, d\<lparr>dx_qa := q, dx_rb := remote\<rparr>))"

definition dx_room :: "duplex \<Rightarrow> nat" where
  "dx_room d = free_bytes (dx_qa d) (dx_qb d) (dx_rb d)"

section \<open>Lemmas on headers and frames\<close>

lemma frame_size_bounds: "n + 4 \<le> frame_size n" "frame_size n < n + 68"
proof -
  have "(n + 67) div 64 * 64 + (n + 67) mod 64 = n + 67" by (rule div_mult_mod_eq)
  moreover have "(n + 67) mod 64 < 64" by simp
  ultimately show "n + 4 \<le> frame_size n" "frame_size n < n + 68"
    unfolding frame_size_def by linarith+
qed

lemma frame_size_mod [simp]: "frame_size n mod 64 = 0"
  by (simp add: frame_size_def)

lemma frame_size_pos: "0 < frame_size n"
  using frame_size_bounds(1) [of n] by linarith

lemma length_MessageHeader [simp]: "length (MessageHeader n) = 4"
  by (simp add: MessageHeader_def)

lemma header_body_bytes_MessageHeader:
  assumes "n \<le> kMaxMessageSize"
  shows "header_body_bytes (MessageHeader n @ bs) = n"
proof -
  let ?w = "push_bit 8 (of_nat n :: u32)"
  have "n < 2 ^ 24" using assms by (simp add: kMaxMessageSize_def)
  have "le_nat (MessageHeader n) = unat ?w"
    unfolding MessageHeader_def using unat_u32_less [of ?w] by (intro le_nat_le_bytes_id) simp
  then have "load32 (MessageHeader n @ bs) 0 = ?w"
    by (simp add: load32_def)
  moreover have "drop_bit 8 ?w = of_nat n"
  proof (rule word_unat_eq_iff [THEN iffD2])
    have a: "unat (of_nat n :: u32) = n" using \<open>n < 2 ^ 24\<close> by (simp add: unat_of_nat)
    then have "unat ?w = n * 256"
      using \<open>n < 2 ^ 24\<close> by (simp add: push_bit_eq_mult unat_word_ariths(2) a)
    then show "unat (drop_bit 8 ?w) = unat (of_nat n :: u32)"
      by (simp add: drop_bit_eq_div unat_div a)
  qed
  ultimately show ?thesis
    using \<open>n < 2 ^ 24\<close> by (simp add: header_body_bytes_def unat_of_nat)
qed

lemma header_body_bytes_le: "header_body_bytes h \<le> kMaxMessageSize"
proof -
  have "unat (load32 h 0) div 256 < 16777216"
    using unat_u32_less [of "load32 h 0"] by (simp add: less_mult_imp_div_less)
  then show ?thesis
    by (simp add: header_body_bytes_def kMaxMessageSize_def drop_bit_eq_div unat_div)
qed

lemma unat_AlignUpTo:
  assumes "n + 67 < 18446744073709551616"
  shows "unat (AlignUpTo (of_nat n + 4) kAlignment) = frame_size n"
proof -
  have "of_nat n + 4 + kAlignment - 1 = (of_nat (n + 67) :: u64)"
    by (simp add: kAlignment_def)
  moreover have "unat (of_nat (n + 67) :: u64) = n + 67"
    using assms by (rule unat_of_nat_u64)
  moreover have "unat kAlignment = 64" by (simp add: kAlignment_def)
  ultimately have d: "unat ((of_nat n + 4 + kAlignment - 1) div kAlignment :: u64) = (n + 67) div 64"
    by (simp only: unat_div)
  have "frame_size n < 18446744073709551616"
    unfolding frame_size_def using assms by linarith
  then show ?thesis
    unfolding AlignUpTo_def AlignDownTo_def unat_word_ariths(2) d \<open>unat kAlignment = 64\<close>
    by (simp add: frame_size_def)
qed

lemma unat_PaddingBytes:
  assumes "n \<le> kMaxMessageSize"
  shows "unat (PaddingBytes (of_nat n)) = frame_size n - (4 + n)"
proof -
  have n: "n + 67 < 18446744073709551616" using assms by (simp add: kMaxMessageSize_def)
  have un: "unat (of_nat n :: u64) = n" using n by (intro unat_of_nat_u64) simp
  let ?A = "AlignUpTo (of_nat n + 4) kAlignment"
  have A: "unat ?A = frame_size n" by (rule unat_AlignUpTo [OF n])
  have four: "unat (4 :: u64) = 4" by simp
  have "unat (?A - 4) = unat ?A - unat (4 :: u64)"
    using frame_size_bounds(1) [of n] by (intro unat_diff_u64) (simp add: A)
  then have B: "unat (?A - 4) = frame_size n - 4" by (simp only: A four)
  have "unat (?A - 4 - of_nat n) = unat (?A - 4) - unat (of_nat n :: u64)"
    using frame_size_bounds(1) [of n] by (intro unat_diff_u64) (unfold B un, linarith)
  then show ?thesis by (simp only: PaddingBytes_def B un diff_diff_left)
qed

declare frames_of.simps [simp del]

lemma frames_of_Nil [simp]: "frames_of [] = Some []"
  by (simp add: frames_of.simps)

lemma load32_prefix: "4 \<le> length xs \<Longrightarrow> load32 (xs @ ys) 0 = load32 xs 0"
  by (simp add: load32_def)

lemma frames_of_frame:
  assumes "length msg \<le> kMaxMessageSize" and "length pad = frame_size (length msg) - (4 + length msg)"
  shows "frames_of (MessageHeader (length msg) @ msg @ pad) = Some [msg]"
proof -
  let ?bs = "MessageHeader (length msg) @ msg @ pad"
  have "length ?bs = frame_size (length msg)"
    using assms(2) frame_size_bounds(1) [of "length msg"] by simp
  moreover have "?bs \<noteq> []" by (metis append_is_Nil_conv length_MessageHeader list.size(3) zero_neq_numeral)
  moreover have "header_body_bytes ?bs = length msg"
    by (rule header_body_bytes_MessageHeader [OF assms(1)])
  ultimately show ?thesis by (simp add: frames_of.simps [of ?bs])
qed

lemma frames_of_Cons:
  assumes "frames_of bs = Some (m # ms)"
  shows "frame_size (header_body_bytes bs) \<le> length bs"
    and "m = take (header_body_bytes bs) (drop 4 bs)"
    and "frames_of (drop (frame_size (header_body_bytes bs)) bs) = Some ms"
  using assms by (auto simp: frames_of.simps [of bs] Let_def split: if_splits)

lemma frames_of_append:
  assumes "frames_of xs = Some ms" and "frames_of ys = Some ns"
  shows "frames_of (xs @ ys) = Some (ms @ ns)"
  using assms
proof (induction xs arbitrary: ms rule: frames_of.induct)
  case (1 xs)
  show ?case
  proof (cases "xs = []")
    case True
    with 1 show ?thesis by simp
  next
    case False
    let ?n = "header_body_bytes xs"
    have long: "frame_size ?n \<le> length xs"
      using 1(2) False by (simp add: frames_of.simps [of xs] Let_def split: if_splits)
    then obtain ms' where ms': "frames_of (drop (frame_size ?n) xs) = Some ms'"
      "ms = take ?n (drop 4 xs) # ms'"
      using 1(2) False by (auto simp: frames_of.simps [of xs] Let_def)
    have IH: "frames_of (drop (frame_size ?n) xs @ ys) = Some (ms' @ ns)"
      using 1(1) [OF False refl] long ms'(1) 1(3) by simp
    have ge: "?n + 4 \<le> length xs" using long frame_size_bounds(1) [of ?n] by linarith
    then have "header_body_bytes (xs @ ys) = ?n"
      by (simp add: header_body_bytes_def load32_prefix)
    moreover have "take ?n (drop 4 (xs @ ys)) = take ?n (drop 4 xs)" using ge by simp
    ultimately show ?thesis
      using False long IH ms'(2) by (simp add: frames_of.simps [of "xs @ ys"] Let_def)
  qed
qed

lemma frames_of_length_mod: "frames_of bs = Some ms \<Longrightarrow> length bs mod 64 = 0"
proof (induction bs arbitrary: ms rule: frames_of.induct)
  case (1 bs)
  show ?case
  proof (cases "bs = []")
    case False
    let ?n = "header_body_bytes bs"
    have long: "frame_size ?n \<le> length bs"
      using 1(2) False by (simp add: frames_of.simps [of bs] Let_def split: if_splits)
    then obtain ms' where "frames_of (drop (frame_size ?n) bs) = Some ms'"
      using 1(2) False by (auto simp: frames_of.simps [of bs] Let_def)
    then have "(length bs - frame_size ?n) mod 64 = 0"
      using 1(1) [OF False refl] long by simp
    moreover have "length bs = (length bs - frame_size ?n) + frame_size ?n" using long by simp
    ultimately show ?thesis by (metis add.right_neutral frame_size_mod mod_add_eq mod_mod_trivial)
  qed simp
qed

section \<open>Sending refines appending a message\<close>

lemma ring_write_Nil [simp]: "ring_write r p [] = r"
  by (rule nth_equalityI) (simp_all add: ring_write_def)

text \<open>The header and the body appended to a batch that covers enough of the ring.\<close>

lemma append_header_body:
  assumes c: "sb_covers (length mem) batch p l" and pend: "sb_pending_bytes batch = 0"
    and room: "4 + length msg \<le> l"
  obtains b1 b2 where
    "SendBatch_Append q haddr (MessageHeader (length msg)) (batch, mem)
      = (kOk, b1, ring_write mem p (MessageHeader (length msg)))"
    "SendBatch_Append q addr msg (b1, ring_write mem p (MessageHeader (length msg)))
      = (kOk, b2, ring_write mem p (MessageHeader (length msg) @ msg))"
    "sb_covers (length mem) b2 (p + 4 + length msg) (l - 4 - length msg)"
    "sb_pending_bytes b2 = of_nat (4 + length msg)"
proof -
  let ?h = "MessageHeader (length msg)"
  let ?mem1 = "ring_write mem p ?h"
  have "length ?h \<le> l" using room by simp
  then obtain b1 where b1: "SendBatch_Append q haddr ?h (batch, mem) = (kOk, b1, ?mem1)"
    "sb_covers (length mem) b1 (p + length ?h) (l - length ?h)"
    "sb_pending_bytes b1 = sb_pending_bytes batch + of_nat (length ?h)"
    by (rule Append_ok [OF c])
  have c1: "sb_covers (length ?mem1) b1 (p + 4) (l - 4)" using b1(2) by simp
  have "length msg \<le> l - 4" using room by linarith
  then obtain b2 where b2: "SendBatch_Append q addr msg (b1, ?mem1)
      = (kOk, b2, ring_write ?mem1 (p + 4) msg)"
    "sb_covers (length ?mem1) b2 (p + 4 + length msg) (l - 4 - length msg)"
    "sb_pending_bytes b2 = sb_pending_bytes b1 + of_nat (length msg)"
    by (rule Append_ok [OF c1])
  have "l \<le> length mem" using c by (simp add: covers_def)
  then have "ring_write ?mem1 (p + 4) msg = ring_write mem p (?h @ msg)"
    using ring_write_append [of ?h msg mem p] room by simp
  then show thesis
    by (intro that [of b1 b2]) (use b1 b2 pend in simp_all)
qed

lemma Messaging_Send_room:
  assumes c: "sb_covers (length (ring remote)) (BeginSend q local) (unat (q_remote_bytes_produced q)) l"
    and pend: "sb_pending_bytes (BeginSend q local) = 0"
    and len: "length msg \<le> kMaxMessageSize"
    and room: "frame_size (length msg) \<le> l"
  shows "Messaging_Send haddr addr msg q local remote =
      (kOk, q\<lparr>q_remote_bytes_produced := q_remote_bytes_produced q + of_nat (frame_size (length msg))\<rparr>,
       remote\<lparr>ring := ring_write (ring remote) (unat (q_remote_bytes_produced q))
                (MessageHeader (length msg) @ msg),
         bytes_produced := q_remote_bytes_produced q + of_nat (frame_size (length msg))\<rparr>)"
proof -
  let ?n = "length msg" and ?N = "length (ring remote)" and ?p = "unat (q_remote_bytes_produced q)"
  let ?h = "MessageHeader (length msg)"
  let ?pad = "frame_size ?n - (4 + ?n)"
  note F = frame_size_bounds(1) [of ?n]
  have pad: "unat (PaddingBytes (of_nat ?n)) = ?pad" by (rule unat_PaddingBytes [OF len])
  have len': "\<not> kMaxMessageSize < ?n" using len by simp
  have "4 + ?n \<le> l" using room F by linarith
  then obtain b1 b2 where b: "SendBatch_Append q haddr ?h (BeginSend q local, ring remote)
      = (kOk, b1, ring_write (ring remote) ?p ?h)"
    "SendBatch_Append q addr msg (b1, ring_write (ring remote) ?p ?h)
      = (kOk, b2, ring_write (ring remote) ?p (?h @ msg))"
    "sb_covers ?N b2 (?p + 4 + ?n) (l - 4 - ?n)" "sb_pending_bytes b2 = of_nat (4 + ?n)"
    by (rule append_header_body [OF c pend])
  have "?pad \<le> l - 4 - ?n" using room F by linarith
  then obtain b3 where b3: "SendBatch_Skip ?pad b2 = (kOk, b3)"
    "sb_pending_bytes b3 = sb_pending_bytes b2 + of_nat ?pad"
    by (rule Skip_ok [OF b(3)])
  have "sb_pending_bytes b3 = of_nat (4 + ?n + ?pad)" by (simp only: b3(2) b(4) of_nat_add)
  also have "4 + ?n + ?pad = frame_size ?n" using F by linarith
  finally have "sb_pending_bytes b3 = of_nat (frame_size ?n)" .
  then show ?thesis
    unfolding Messaging_Send_def if_not_P [OF len'] pad
    by (simp add: b(1,2) b3(1) SendBatch_Commit_def Let_def)
qed

lemma Messaging_Send_full:
  assumes c: "sb_covers (length (ring remote)) (BeginSend q local) (unat (q_remote_bytes_produced q)) l"
    and pend: "sb_pending_bytes (BeginSend q local) = 0"
    and len: "length msg \<le> kMaxMessageSize"
    and full: "l < frame_size (length msg)"
  obtains bs where "length bs \<le> l"
    "Messaging_Send haddr addr msg q local remote = (kResourceExhausted, q,
        remote\<lparr>ring := ring_write (ring remote) (unat (q_remote_bytes_produced q)) bs\<rparr>)"
proof -
  let ?n = "length msg" and ?p = "unat (q_remote_bytes_produced q)"
  let ?h = "MessageHeader (length msg)"
  let ?pad = "frame_size ?n - (4 + ?n)"
  have pad: "unat (PaddingBytes (of_nat ?n)) = ?pad" by (rule unat_PaddingBytes [OF len])
  have len': "\<not> kMaxMessageSize < ?n" using len by simp
  consider "l < 4" | "4 \<le> l" "l < 4 + ?n" | "4 + ?n \<le> l" by linarith
  then show thesis
  proof cases
    case 1
    then have "SendBatch_Append q haddr ?h (BeginSend q local, ring remote)
        = (kResourceExhausted, BeginSend q local, ring remote)"
      by (intro Append_full [OF c]) simp
    then have "Messaging_Send haddr addr msg q local remote
        = (kResourceExhausted, q, remote\<lparr>ring := ring_write (ring remote) ?p []\<rparr>)"
      unfolding Messaging_Send_def if_not_P [OF len'] by simp
    then show thesis by (rule that [rotated]) simp
  next
    case 2
    have "length ?h \<le> l" using 2(1) by simp
    then obtain b1 where b1: "SendBatch_Append q haddr ?h (BeginSend q local, ring remote)
        = (kOk, b1, ring_write (ring remote) ?p ?h)"
      "sb_covers (length (ring remote)) b1 (?p + length ?h) (l - length ?h)"
      by (rule Append_ok [OF c])
    have "l - length ?h < ?n" using 2 by simp
    from Append_full [OF b1(2) this] b1(1)
    have "Messaging_Send haddr addr msg q local remote
        = (kResourceExhausted, q, remote\<lparr>ring := ring_write (ring remote) ?p ?h\<rparr>)"
      unfolding Messaging_Send_def if_not_P [OF len'] by simp
    then show thesis by (rule that [rotated]) (use 2 in simp)
  next
    case 3
    then obtain b1 b2 where b: "SendBatch_Append q haddr ?h (BeginSend q local, ring remote)
        = (kOk, b1, ring_write (ring remote) ?p ?h)"
      "SendBatch_Append q addr msg (b1, ring_write (ring remote) ?p ?h)
        = (kOk, b2, ring_write (ring remote) ?p (?h @ msg))"
      "sb_covers (length (ring remote)) b2 (?p + 4 + ?n) (l - 4 - ?n)"
      by (rule append_header_body [OF c pend])
    have "l - 4 - ?n < ?pad" using full 3 by linarith
    from Skip_full [OF b(3) this] b(1,2)
    have "Messaging_Send haddr addr msg q local remote
        = (kResourceExhausted, q, remote\<lparr>ring := ring_write (ring remote) ?p (?h @ msg)\<rparr>)"
      unfolding Messaging_Send_def if_not_P [OF len'] pad by simp
    then show thesis by (rule that [rotated]) (use 3 in simp)
  qed
qed

lemma messages_free:
  assumes "messages p c rp rc ms"
  shows "sb_covers (length (ring rc)) (BeginSend p rp) (unat (q_remote_bytes_produced p))
      (free_bytes p c rc)"
    and "sb_pending_bytes (BeginSend p rp) = 0"
proof -
  have m: "ring_ok (q_remote_ring p) (q_remote_ring_size_mask p) (ring rc)"
    "remote_bytes_consumed rp = q_local_bytes_consumed c"
    "unat (q_remote_bytes_produced p - remote_bytes_consumed rp) \<le> length (ring rc)"
    using assms by (simp_all add: messages_def)
  from BeginSend_covers [OF m(1,3)] m(2)
  show "sb_covers (length (ring rc)) (BeginSend p rp) (unat (q_remote_bytes_produced p))
      (free_bytes p c rc)"
    and "sb_pending_bytes (BeginSend p rp) = 0"
    by (simp_all add: free_bytes_def)
qed

text \<open>Writing into the free part of the ring keeps the messages in it.\<close>

lemma unread_write:
  assumes "messages p c rp rc ms" and "length bs \<le> free_bytes p c rc"
  shows "ring_read (ring_write (ring rc) (unat (q_remote_bytes_produced p)) bs)
      (unat (q_local_bytes_consumed c)) (unat (q_remote_bytes_produced p - q_local_bytes_consumed c))
    = unread c rc"
proof -
  let ?C = "q_local_bytes_consumed c" and ?P = "q_remote_bytes_produced p"
  have m: "length (ring rc) dvd 18446744073709551616" "bytes_produced rc = ?P"
    "unat (?P - ?C) \<le> length (ring rc)"
    using assms(1) ring_ok_facts(1) by (auto simp: messages_def)
  have "unat ?P mod length (ring rc) = (unat ?C + unat (?P - ?C)) mod length (ring rc)"
    by (simp only: unat_diff_mod [OF m(1)])
  moreover have "unat (?P - ?C) + length bs \<le> length (ring rc)"
    using m(3) assms(2) by (simp add: free_bytes_def)
  ultimately show ?thesis
    unfolding unread_def m(2) by (rule ring_read_write_before)
qed

lemma messages_send_ok:
  assumes msgs: "messages p c rp rc ms" and len: "length msg \<le> kMaxMessageSize"
    and room: "frame_size (length msg) \<le> free_bytes p c rc"
  obtains P' mem where
    "Messaging_Send haddr addr msg p rp rc
      = (kOk, p\<lparr>q_remote_bytes_produced := P'\<rparr>, rc\<lparr>ring := mem, bytes_produced := P'\<rparr>)"
    "messages (p\<lparr>q_remote_bytes_produced := P'\<rparr>) c rp (rc\<lparr>ring := mem, bytes_produced := P'\<rparr>) (ms @ [msg])"
    "free_bytes (p\<lparr>q_remote_bytes_produced := P'\<rparr>) c (rc\<lparr>ring := mem, bytes_produced := P'\<rparr>)
      = free_bytes p c rc - frame_size (length msg)"
proof -
  let ?C = "q_local_bytes_consumed c" and ?P = "q_remote_bytes_produced p" and ?N = "length (ring rc)"
  let ?F = "frame_size (length msg)" and ?bs = "MessageHeader (length msg) @ msg"
  let ?P' = "?P + of_nat ?F" and ?mem = "ring_write (ring rc) (unat ?P) ?bs"
  let ?u = "unat (?P - ?C)"
  have m: "?N dvd 18446744073709551616" "?N < 18446744073709551616" "?u \<le> ?N"
    "bytes_produced rc = ?P"
    using msgs ring_ok_facts(1,4) by (auto simp: messages_def)
  have fits: "?u + ?F \<le> ?N" using room m(3) frame_size_pos [of "length msg"] by (simp add: free_bytes_def)
  have bs: "length ?bs \<le> ?F" using frame_size_bounds(1) [of "length msg"] by simp
  have used: "unat (?P' - ?C) = ?u + ?F" using fits m(2) by (intro unat_grow) linarith
  have old: "ring_read ?mem (unat ?C) ?u = unread c rc"
    using unread_write [OF msgs, of ?bs] bs room by simp
  let ?pad = "ring_read ?mem (unat ?P + length ?bs) (?F - length ?bs)"
  have "(unat ?C + ?u) mod length ?mem = unat ?P mod length ?mem"
    by (simp add: unat_diff_mod [OF m(1)])
  then have "ring_read ?mem (unat ?C + ?u) ?F = ring_read ?mem (unat ?P) (length ?bs + (?F - length ?bs))"
    using bs by (subst ring_read_cong_mod) simp_all
  also have "\<dots> = ?bs @ ?pad"
    unfolding ring_read_add using bs fits by (subst ring_read_write_same) auto
  finally have "ring_read ?mem (unat ?C) (?u + ?F) = unread c rc @ MessageHeader (length msg) @ msg @ ?pad"
    by (simp add: ring_read_add [of _ _ ?u] old)
  moreover have "frames_of (MessageHeader (length msg) @ msg @ ?pad) = Some [msg]"
    by (rule frames_of_frame [OF len]) simp
  ultimately have "frames_of (ring_read ?mem (unat ?C) (?u + ?F)) = Some (ms @ [msg])"
    using frames_of_append msgs by (simp add: messages_def)
  then have "messages (p\<lparr>q_remote_bytes_produced := ?P'\<rparr>) c rp
      (rc\<lparr>ring := ?mem, bytes_produced := ?P'\<rparr>) (ms @ [msg])"
    using msgs fits by (simp add: messages_def unread_def used ring_ok_def)
  moreover have "free_bytes (p\<lparr>q_remote_bytes_produced := ?P'\<rparr>) c
      (rc\<lparr>ring := ?mem, bytes_produced := ?P'\<rparr>) = free_bytes p c rc - ?F"
    by (simp add: free_bytes_def used)
  moreover note Messaging_Send_room [OF messages_free [OF msgs] len room, of haddr addr]
  ultimately show thesis by (intro that)
qed

lemma messages_send_full:
  assumes msgs: "messages p c rp rc ms" and len: "length msg \<le> kMaxMessageSize"
    and full: "free_bytes p c rc < frame_size (length msg)"
  obtains mem where
    "Messaging_Send haddr addr msg p rp rc = (kResourceExhausted, p, rc\<lparr>ring := mem\<rparr>)"
    "messages p c rp (rc\<lparr>ring := mem\<rparr>) ms" "length mem = length (ring rc)"
proof -
  obtain bs where bs: "length bs \<le> free_bytes p c rc"
    "Messaging_Send haddr addr msg p rp rc = (kResourceExhausted, p,
        rc\<lparr>ring := ring_write (ring rc) (unat (q_remote_bytes_produced p)) bs\<rparr>)"
    by (rule Messaging_Send_full [OF messages_free [OF msgs] len full])
  let ?mem = "ring_write (ring rc) (unat (q_remote_bytes_produced p)) bs"
  have "bytes_produced rc = q_remote_bytes_produced p" using msgs by (simp add: messages_def)
  then have "unread c (rc\<lparr>ring := ?mem\<rparr>) = unread c rc"
    using unread_write [OF msgs bs(1)] by (simp add: unread_def [of c "rc\<lparr>ring := ?mem\<rparr>"])
  then have "messages p c rp (rc\<lparr>ring := ?mem\<rparr>) ms"
    using msgs by (simp add: messages_def ring_ok_def)
  with bs(2) show thesis by (rule that) simp
qed

section \<open>Receiving refines taking the first message\<close>

text \<open>The header is read the same way from the ring and from the copy.\<close>

lemma header_body_bytes_take: "4 \<le> length bs \<Longrightarrow> header_body_bytes (take 4 bs) = header_body_bytes bs"
  by (simp add: header_body_bytes_def load32_def)

lemma Receive_header_eq:
  assumes c: "rb_covers (length mem) batch p l" and l: "4 \<le> l"
  obtains batch1 where
    "Receive_header mem batch = (kOk, header_body_bytes (ring_read mem p l), batch1)"
    "rb_covers (length mem) batch1 (p + 4) (l - 4)"
    "rb_taken_bytes batch1 = rb_taken_bytes batch + of_nat 4"
proof -
  have hdr: "header_body_bytes (ring_read mem p 4) = header_body_bytes (ring_read mem p l)"
    using header_body_bytes_take [of "ring_read mem p l"] l by simp
  show thesis
  proof (cases "seg_size (rb_segment batch) < 4")
    case True
    obtain b1 where b1: "ReceiveBatch_Recv mem 4 (Some (replicate 4 0), batch)
        = (kOk, map_option (write_at 0 (ring_read mem p 4)) (Some (replicate 4 0)), b1)"
      "rb_covers (length mem) b1 (p + 4) (l - 4)" "rb_taken_bytes b1 = rb_taken_bytes batch + of_nat 4"
      by (rule Recv_ok [OF c l, of "Some (replicate 4 0)"]) simp_all
    have "Receive_header mem batch = (kOk, header_body_bytes (ring_read mem p l), b1)"
      unfolding Receive_header_def if_P [OF True] b1(1) by (simp add: write_at_whole hdr)
    then show thesis using b1(2,3) by (rule that)
  next
    case False
    obtain b1 where b1: "RemovePrefix mem 4 batch = (kOk, b1)"
      "rb_covers (length mem) b1 (p + 4) (l - 4)" "rb_taken_bytes b1 = rb_taken_bytes batch + of_nat 4"
      by (rule RemovePrefix_ok [OF c l])
    let ?bs = "seg_bytes mem (rb_segment batch)"
    have four: "4 \<le> seg_size (rb_segment batch)" using False by simp
    have "seg_off (rb_segment batch) + seg_size (rb_segment batch) \<le> length mem"
      using c by (auto simp: covers_def)
    then have "4 \<le> length ?bs" using four by (simp add: seg_bytes_def)
    then have "header_body_bytes ?bs = header_body_bytes (ring_read mem p l)"
      using header_body_bytes_take [of ?bs] seg_bytes_first [OF c four] hdr by simp
    then have "Receive_header mem batch = (kOk, header_body_bytes (ring_read mem p l), b1)"
      unfolding Receive_header_def if_not_P [OF False] by (simp add: b1(1))
    then show thesis using b1(2,3) by (rule that)
  qed
qed

lemma handler_spans_eq:
  assumes c: "rb_covers (length mem) batch p l" and n: "n \<le> l"
    and spans: "handler_spans mem n batch = (first, second)"
  shows "first @ second = ring_read mem p n"
proof -
  let ?s = "rb_segment batch" and ?b = "rb_backup_segment batch"
  have sizes: "seg_size ?s + seg_size ?b = l" "seg_off ?s + seg_size ?s \<le> length mem"
    using c by (auto simp: covers_def)
  then have len: "length (seg_bytes mem ?s) = seg_size ?s" by (simp add: seg_bytes_def)
  have "take n (seg_bytes mem ?s @ seg_bytes mem ?b) = ring_read mem p n"
    using n by (simp add: covers_read [OF c])
  then show ?thesis
    using spans len by (auto simp: handler_spans_def Let_def split: if_splits)
qed

lemma Receive_handler_eq:
  assumes b: "BeginReceive q local = Inr batch"
    and c: "rb_covers (length (ring local)) batch p l" and taken: "rb_taken_bytes batch = 0"
    and n: "n = header_body_bytes (ring_read (ring local) p l)" and len: "frame_size n \<le> l"
  obtains first second where
    "Receive_handler q local remote =
      (kOk, Some (first, second),
       q\<lparr>q_local_bytes_consumed := q_local_bytes_consumed q + of_nat (frame_size n)\<rparr>,
       remote\<lparr>remote_bytes_consumed := q_local_bytes_consumed q + of_nat (frame_size n)\<rparr>)"
    "first @ second = take n (drop 4 (ring_read (ring local) p l))"
proof -
  let ?mem = "ring local" and ?pad = "frame_size n - (4 + n)"
  note F = frame_size_bounds(1) [of n]
  have n_max: "n \<le> kMaxMessageSize" unfolding n by (rule header_body_bytes_le)
  have pad: "unat (PaddingBytes (of_nat n)) = ?pad" by (rule unat_PaddingBytes [OF n_max])
  have "4 \<le> l" using len F by linarith
  then obtain b1 where b1: "Receive_header ?mem batch = (kOk, n, b1)"
    "rb_covers (length ?mem) b1 (p + 4) (l - 4)" "rb_taken_bytes b1 = rb_taken_bytes batch + of_nat 4"
    unfolding n by (rule Receive_header_eq [OF c])
  have nl: "n \<le> l - 4" using len F by linarith
  then obtain b2 where b2: "RemovePrefix ?mem n b1 = (kOk, b2)"
    "rb_covers (length ?mem) b2 (p + 4 + n) (l - 4 - n)" "rb_taken_bytes b2 = rb_taken_bytes b1 + of_nat n"
    by (rule RemovePrefix_ok [OF b1(2)])
  have "?pad \<le> l - 4 - n" using len F by linarith
  then obtain b3 where b3: "RemovePrefix ?mem ?pad b2 = (kOk, b3)"
    "rb_taken_bytes b3 = rb_taken_bytes b2 + of_nat ?pad"
    by (rule RemovePrefix_ok [OF b2(2)])
  have "rb_taken_bytes b3 = of_nat (4 + n + ?pad)"
    by (simp only: b3(2) b2(3) b1(3) taken of_nat_add add_0)
  also have "4 + n + ?pad = frame_size n" using F by linarith
  finally have total: "rb_taken_bytes b3 = of_nat (frame_size n)" .
  have rem: "\<not> RemainingBytes b1 < n" using b1(2) nl by (simp add: RemainingBytes_def covers_def)
  obtain first second where spans: "handler_spans ?mem n b1 = (first, second)" by fastforce
  have "Receive_handler q local remote =
      (kOk, Some (first, second),
       q\<lparr>q_local_bytes_consumed := q_local_bytes_consumed q + of_nat (frame_size n)\<rparr>,
       remote\<lparr>remote_bytes_consumed := q_local_bytes_consumed q + of_nat (frame_size n)\<rparr>)"
    unfolding Receive_handler_def b
    using rem by (simp add: b1(1) b2(1) b3(1) pad spans Let_def ReceiveBatch_Commit_def total)
  moreover have "first @ second = take n (drop 4 (ring_read ?mem p l))"
    using handler_spans_eq [OF b1(2) nl spans] nl \<open>4 \<le> l\<close> by simp
  ultimately show thesis by (rule that)
qed

lemma messages_receive_ok:
  assumes msgs: "messages p c rp rc (m # ms)"
  obtains C' first second where
    "Receive_handler c rc rp = (kOk, Some (first, second),
      c\<lparr>q_local_bytes_consumed := C'\<rparr>, rp\<lparr>remote_bytes_consumed := C'\<rparr>)"
    "first @ second = m"
    "messages p (c\<lparr>q_local_bytes_consumed := C'\<rparr>) (rp\<lparr>remote_bytes_consumed := C'\<rparr>) rc ms"
    "free_bytes p (c\<lparr>q_local_bytes_consumed := C'\<rparr>) rc = free_bytes p c rc + frame_size (length m)"
proof -
  let ?C = "q_local_bytes_consumed c" and ?P = "q_remote_bytes_produced p" and ?N = "length (ring rc)"
  define n where "n = header_body_bytes (unread c rc)"
  let ?u = "unat (?P - ?C)" and ?F = "frame_size n"
  have m: "ring_ok (q_local_ring c) (q_local_ring_size_mask c) (ring rc)"
    "?N dvd 18446744073709551616" "64 dvd ?N" "?u \<le> ?N" "bytes_produced rc = ?P"
    and mod: "unat ?C mod 64 = 0" and frames: "frames_of (unread c rc) = Some (m # ms)"
    using msgs ring_ok_facts(1,2) by (auto simp: messages_def)
  have unread: "unread c rc = ring_read (ring rc) (unat ?C) ?u" by (simp add: unread_def m(5))
  have len: "length (unread c rc) = ?u" by (simp add: unread)
  have long: "?F \<le> ?u" using frames_of_Cons(1) [OF frames] by (simp only: len n_def)
  have mm: "m = take n (drop 4 (unread c rc))" and rest: "frames_of (drop ?F (unread c rc)) = Some ms"
    using frames_of_Cons(2,3) [OF frames] by (simp_all only: n_def)
  have lenm: "length m = n"
    unfolding mm length_take length_drop len using long frame_size_bounds(1) [of n] by linarith
  have avail: "bytes_produced rc \<noteq> ?C" "unat (bytes_produced rc - ?C) \<le> ?N"
    using long frame_size_pos [of n] m(4,5) by auto
  obtain batch where batch: "BeginReceive c rc = Inr batch" "rb_taken_bytes batch = 0"
    "rb_covers ?N batch (unat ?C) ?u"
    by (rule BeginReceive_covers [OF m(1) avail]) (simp add: m(5))
  let ?C' = "?C + of_nat ?F"
  obtain first second where r: "Receive_handler c rc rp = (kOk, Some (first, second),
      c\<lparr>q_local_bytes_consumed := ?C'\<rparr>, rp\<lparr>remote_bytes_consumed := ?C'\<rparr>)" "first @ second = m"
    by (rule Receive_handler_eq [OF batch(1,3,2), of n rp]) (use long mm n_def in \<open>simp_all add: unread\<close>)
  have used: "unat (?P - ?C') = ?u - ?F" by (rule unat_shrink [OF long])
  have F64: "unat (of_nat ?F :: u64) = ?F"
    using long unat_u64_less [of "?P - ?C"] by (intro unat_of_nat_u64) linarith
  have pos: "unat ?C' mod ?N = (unat ?C + ?F) mod ?N"
    using unat_advance_mod [OF m(2), of ?C "of_nat ?F"] by (simp only: F64)
  have "unat ?C' mod 64 = (unat ?C + ?F) mod 64"
    using unat_advance_mod [of 64 ?C "of_nat ?F"] by (simp add: F64)
  also have "\<dots> = 0" using mod by (metis add_0 frame_size_mod mod_add_eq mod_mod_trivial)
  finally have mod': "unat ?C' mod 64 = 0" .
  have "unread (c\<lparr>q_local_bytes_consumed := ?C'\<rparr>) rc = ring_read (ring rc) (unat ?C + ?F) (?u - ?F)"
    unfolding unread_def using ring_read_cong_mod [OF pos] by (simp add: m(5) used)
  also have "\<dots> = drop ?F (unread c rc)" using long by (simp add: unread)
  finally have "messages p (c\<lparr>q_local_bytes_consumed := ?C'\<rparr>) (rp\<lparr>remote_bytes_consumed := ?C'\<rparr>) rc ms"
    using msgs rest used mod' m(4) unfolding messages_def by simp
  moreover have "free_bytes p (c\<lparr>q_local_bytes_consumed := ?C'\<rparr>) rc = free_bytes p c rc + frame_size (length m)"
    using long m(4) by (simp add: free_bytes_def used lenm)
  ultimately show thesis using r by (intro that)
qed

lemma messages_receive_empty:
  assumes "messages p c rp rc []"
  shows "Receive_handler c rc rp = (kUnavailable, None, c, rp)"
proof -
  have m: "bytes_produced rc = q_remote_bytes_produced p" "frames_of (unread c rc) = Some []"
    using assms by (simp_all add: messages_def)
  then have "unread c rc = []"
    by (auto simp: frames_of.simps [of "unread c rc"] Let_def split: if_splits)
  then have "unat (bytes_produced rc - q_local_bytes_consumed c) = 0"
    unfolding unread_def by (metis length_ring_read list.size(3))
  then have "bytes_produced rc - q_local_bytes_consumed c = 0" by (simp only: unat_eq_0)
  then show ?thesis by (simp add: Receive_handler_def BeginReceive_def Let_def)
qed

section \<open>Both directions together\<close>

lemma Messaging_Send_long:
  "kMaxMessageSize < length msg \<Longrightarrow> Messaging_Send haddr addr msg q local remote = (kInvalidArgument, q, remote)"
  by (simp add: Messaging_Send_def)

lemma messages_frames: "messages p c rp rc ms \<Longrightarrow> ms = the (frames_of (unread c rc))"
  by (simp add: messages_def)

lemma dx_send_cases:
  assumes inv: "dx_inv d"
  obtains
    "kMaxMessageSize < length msg" "dx_send haddr addr msg d = (kInvalidArgument, d)"
  | d' where "length msg \<le> kMaxMessageSize" "frame_size (length msg) \<le> dx_room d"
    "dx_send haddr addr msg d = (kOk, d')" "dx_inv d'"
    "dx_outgoing d' = dx_outgoing d @ [msg]" "dx_incoming d' = dx_incoming d"
    "dx_room d' = dx_room d - frame_size (length msg)" "dx_room (swap_ends d') = dx_room (swap_ends d)"
  | d' where "length msg \<le> kMaxMessageSize" "dx_room d < frame_size (length msg)"
    "dx_send haddr addr msg d = (kResourceExhausted, d')" "dx_inv d'"
    "dx_outgoing d' = dx_outgoing d" "dx_incoming d' = dx_incoming d"
    "dx_room d' = dx_room d" "dx_room (swap_ends d') = dx_room (swap_ends d)"
proof -
  let ?p = "dx_qa d" and ?c = "dx_qb d" and ?rp = "dx_ra d" and ?rc = "dx_rb d"
  have out: "messages ?p ?c ?rp ?rc (dx_outgoing d)" and inc: "messages ?c ?p ?rc ?rp (dx_incoming d)"
    using inv by (simp_all add: dx_inv_def)
  consider "kMaxMessageSize < length msg"
    | "length msg \<le> kMaxMessageSize" "frame_size (length msg) \<le> free_bytes ?p ?c ?rc"
    | "length msg \<le> kMaxMessageSize" "free_bytes ?p ?c ?rc < frame_size (length msg)"
    by linarith
  then show thesis
  proof cases
    case 1
    then show thesis using that(1) by (simp add: dx_send_def Messaging_Send_long)
  next
    case 2
    obtain P' mem where s:
      "Messaging_Send haddr addr msg ?p ?rp ?rc
        = (kOk, ?p\<lparr>q_remote_bytes_produced := P'\<rparr>, ?rc\<lparr>ring := mem, bytes_produced := P'\<rparr>)"
      "messages (?p\<lparr>q_remote_bytes_produced := P'\<rparr>) ?c ?rp (?rc\<lparr>ring := mem, bytes_produced := P'\<rparr>)
        (dx_outgoing d @ [msg])"
      "free_bytes (?p\<lparr>q_remote_bytes_produced := P'\<rparr>) ?c (?rc\<lparr>ring := mem, bytes_produced := P'\<rparr>)
        = free_bytes ?p ?c ?rc - frame_size (length msg)"
      by (rule messages_send_ok [OF out 2])
    have i: "messages ?c (?p\<lparr>q_remote_bytes_produced := P'\<rparr>) (?rc\<lparr>ring := mem, bytes_produced := P'\<rparr>) ?rp
        (dx_incoming d)"
      using inc by (auto simp: messages_def unread_def)
    let ?d = "d\<lparr>dx_qa := ?p\<lparr>q_remote_bytes_produced := P'\<rparr>, dx_rb := ?rc\<lparr>ring := mem, bytes_produced := P'\<rparr>\<rparr>"
    have o: "dx_outgoing ?d = dx_outgoing d @ [msg]" "dx_incoming ?d = dx_incoming d"
      using messages_frames [OF s(2)] messages_frames [OF i] by (simp_all add: dx_outgoing_def dx_incoming_def)
    show thesis
    proof (rule that(2) [of ?d])
      show "dx_send haddr addr msg d = (kOk, ?d)" by (simp add: dx_send_def s(1))
      show "dx_inv ?d" unfolding dx_inv_def o using s(2) i by simp
    qed (use 2 o s(3) in \<open>simp_all add: dx_room_def swap_ends_def free_bytes_def\<close>)
  next
    case 3
    obtain mem where s:
      "Messaging_Send haddr addr msg ?p ?rp ?rc = (kResourceExhausted, ?p, ?rc\<lparr>ring := mem\<rparr>)"
      "messages ?p ?c ?rp (?rc\<lparr>ring := mem\<rparr>) (dx_outgoing d)" "length mem = length (ring ?rc)"
      by (rule messages_send_full [OF out 3])
    have i: "messages ?c ?p (?rc\<lparr>ring := mem\<rparr>) ?rp (dx_incoming d)"
      using inc by (simp add: messages_def)
    let ?d = "d\<lparr>dx_qa := ?p, dx_rb := ?rc\<lparr>ring := mem\<rparr>\<rparr>"
    have o: "dx_outgoing ?d = dx_outgoing d" "dx_incoming ?d = dx_incoming d"
      using messages_frames [OF s(2)] messages_frames [OF i] by (simp_all add: dx_outgoing_def dx_incoming_def)
    show thesis
    proof (rule that(3) [of ?d])
      show "dx_send haddr addr msg d = (kResourceExhausted, ?d)" by (simp add: dx_send_def s(1))
      show "dx_inv ?d" unfolding dx_inv_def o using s(2) i by simp
    qed (use 3 o s(3) in \<open>simp_all add: dx_room_def swap_ends_def free_bytes_def\<close>)
  qed
qed

lemma dx_recv_Nil:
  assumes "dx_inv d" and "dx_incoming d = []"
  shows "dx_recv d = (Inl kUnavailable, d)"
proof -
  have "messages (dx_qb d) (dx_qa d) (dx_rb d) (dx_ra d) []" using assms by (simp add: dx_inv_def)
  from messages_receive_empty [OF this] show ?thesis
    by (simp add: dx_recv_def Messaging_Receive_def)
qed

lemma dx_recv_Cons:
  assumes inv: "dx_inv d" and "dx_incoming d = m # ms"
  obtains d' where "dx_recv d = (Inr m, d')" "dx_inv d'"
    "dx_incoming d' = ms" "dx_outgoing d' = dx_outgoing d" "dx_room d' = dx_room d"
    "dx_room (swap_ends d') = dx_room (swap_ends d) + frame_size (length m)"
proof -
  let ?p = "dx_qb d" and ?c = "dx_qa d" and ?rp = "dx_rb d" and ?rc = "dx_ra d"
  have out: "messages ?c ?p ?rc ?rp (dx_outgoing d)" and inc: "messages ?p ?c ?rp ?rc (m # ms)"
    using inv assms(2) by (simp_all add: dx_inv_def)
  obtain C' first second where r:
    "Receive_handler ?c ?rc ?rp = (kOk, Some (first, second),
      ?c\<lparr>q_local_bytes_consumed := C'\<rparr>, ?rp\<lparr>remote_bytes_consumed := C'\<rparr>)"
    "first @ second = m"
    "messages ?p (?c\<lparr>q_local_bytes_consumed := C'\<rparr>) (?rp\<lparr>remote_bytes_consumed := C'\<rparr>) ?rc ms"
    "free_bytes ?p (?c\<lparr>q_local_bytes_consumed := C'\<rparr>) ?rc = free_bytes ?p ?c ?rc + frame_size (length m)"
    by (rule messages_receive_ok [OF inc])
  have o: "messages (?c\<lparr>q_local_bytes_consumed := C'\<rparr>) ?p ?rc (?rp\<lparr>remote_bytes_consumed := C'\<rparr>) (dx_outgoing d)"
    using out by (auto simp: messages_def unread_def)
  let ?d = "d\<lparr>dx_qa := ?c\<lparr>q_local_bytes_consumed := C'\<rparr>, dx_rb := ?rp\<lparr>remote_bytes_consumed := C'\<rparr>\<rparr>"
  have eqs: "dx_incoming ?d = ms" "dx_outgoing ?d = dx_outgoing d"
    using messages_frames [OF o] messages_frames [OF r(3)] by (simp_all add: dx_outgoing_def dx_incoming_def)
  show thesis
  proof (rule that [of ?d])
    show "dx_recv d = (Inr m, ?d)" by (simp add: dx_recv_def Messaging_Receive_def r(1,2))
    show "dx_inv ?d" unfolding dx_inv_def eqs using o r(3) by simp
  qed (use eqs r(4) in \<open>simp_all add: dx_room_def swap_ends_def free_bytes_def\<close>)
qed

lemma swap_swap [simp]: "swap_ends (swap_ends d) = d"
  by (simp add: swap_ends_def)

lemma swap_simps [simp]:
  "dx_outgoing (swap_ends d) = dx_incoming d" "dx_incoming (swap_ends d) = dx_outgoing d"
  "dx_inv (swap_ends d) = dx_inv d"
  by (auto simp: swap_ends_def dx_outgoing_def dx_incoming_def dx_inv_def)

lemma word_mod_kAlignment: "x mod kAlignment = 0 \<longleftrightarrow> unat x mod 64 = 0"
  by (simp add: kAlignment_def word_unat_eq_iff unat_mod)

lemma messages_aligned:
  assumes "messages p c rp rc ms"
  shows "unat (q_local_bytes_consumed c) mod 64 = 0" "unat (q_remote_bytes_produced p) mod 64 = 0"
proof -
  let ?C = "q_local_bytes_consumed c" and ?P = "q_remote_bytes_produced p"
  show C: "unat ?C mod 64 = 0" using assms by (simp add: messages_def)
  have m: "frames_of (unread c rc) = Some ms" "bytes_produced rc = ?P"
    using assms by (simp_all add: messages_def)
  have "unat (?P - ?C) mod 64 = 0"
    using frames_of_length_mod [OF m(1)] by (simp add: unread_def m(2))
  with C have "(unat ?C + unat (?P - ?C)) mod 64 = 0" by (metis add_0 mod_add_eq mod_0)
  then show "unat ?P mod 64 = 0" using unat_diff_mod [of 64 ?C ?P] by simp
qed

lemma BeginReceive_first_segment:
  assumes ok: "ring_ok (q_local_ring q) (q_local_ring_size_mask q) mem"
    and b: "BeginReceive q local = Inr batch"
  shows "seg_size (rb_segment batch) = min (unat (bytes_produced local - q_local_bytes_consumed q))
    (length mem - unat (q_local_bytes_consumed q) mod length mem)"
proof -
  note facts = ring_ok_facts [OF ok]
  let ?C = "q_local_bytes_consumed q" and ?off = "q_local_bytes_consumed q AND q_local_ring_size_mask q"
  let ?size = "span_size (q_local_ring q)" and ?avail = "bytes_produced local - q_local_bytes_consumed q"
  have "unat ?off \<le> unat ?size"
    using facts(3,5,6) by (metis le_trans less_imp_le_nat mod_less_eq_dividend mod_less_divisor
        neq0_conv not_numeral_le_zero)
  then have "unat (?size - ?off) = length mem - unat ?C mod length mem"
    using unat_diff_u64 [of ?off ?size] by (simp only: facts(5,6))
  moreover have "rb_segment batch = \<lparr>seg_off = unat ?off, seg_size = unat (min ?avail (?size - ?off))\<rparr>"
    using b by (auto simp: BeginReceive_def Let_def split: if_splits)
  ultimately show ?thesis by (simp add: min_def word_le_nat_alt)
qed

lemma subspan_from_size:
  assumes "subspan_from pos sp = Some sp'"
  shows "span_size sp' = span_size sp - pos"
proof -
  have "span_size sp' = min (span_size sp - pos) (- 1)"
    using assms by (auto simp: subspan_from_def subspan_def split: if_splits)
  also have "\<dots> = span_size sp - pos" by (rule min_absorb1) (rule word_order.extremum)
  finally show ?thesis .
qed

lemma Create_Inr:
  assumes "Create sa sb = Some (Inr q)"
  obtains ra rb where "q = new_SpscQueuePair ra rb"
    "subspan_from kDoorbellsSize sa = Some ra" "subspan_from kDoorbellsSize sb = Some rb"
    "has_single_bit (span_size ra)" "span_size ra mod kPageSize = 0"
    "has_single_bit (span_size rb)" "span_size rb mod kPageSize = 0"
proof -
  obtain da ra db rb where "subspan_from kDoorbellsSize sa = Some ra"
    "subspan_from kDoorbellsSize sb = Some rb" and make: "MakeSpscQueuePair da ra db rb = Inr q"
    using assms unfolding Create_def by (auto split: option.splits)
  with MakeSpscQueuePair_Inr [OF make] show thesis by (intro that)
qed

text \<open>Two idle endpoints on one-page rings, with counters one frame before they wrap.\<close>

definition idle_end :: SpscQueuePair where
  "idle_end = (new_SpscQueuePair wrap_span wrap_span)
     \<lparr>q_local_bytes_consumed := - 64, q_remote_bytes_produced := - 64\<rparr>"

definition idle_region :: region where
  "idle_region = \<lparr>bytes_produced = - 64, remote_bytes_consumed = - 64, ring = replicate 4096 0\<rparr>"

lemma idle_messages: "messages idle_end idle_end idle_region idle_region []"
  by (simp add: messages_def unread_def idle_end_def idle_region_def wrap_span_def
      new_SpscQueuePair_def ring_ok_def has_single_bit_4096 kPageSize_def)

lemma idle_free: "free_bytes idle_end idle_end idle_region = 4096"
  by (simp add: free_bytes_def idle_end_def idle_region_def)

lemma idle_sent:
  obtains p' rc' where "Messaging_Send 1 2 [5, 6, 7] idle_end idle_region idle_region = (kOk, p', rc')"
    "messages p' idle_end idle_region rc' [[5, 6, 7]]"
proof -
  let ?m = "[5, 6, 7 :: u8]"
  have len: "length ?m \<le> kMaxMessageSize" by (simp add: kMaxMessageSize_def)
  have room: "frame_size (length ?m) \<le> free_bytes idle_end idle_end idle_region"
    by (simp add: frame_size_def idle_free)
  show thesis
    by (rule messages_send_ok [OF idle_messages len room, of 1 2]) (rule that, auto)
qed

section \<open>Properties\<close>

text \<open>
  C19: sending implements appending to the list of messages in the ring. A message over the size
  limit is refused and changes nothing; one whose header, body and padding fit into the free bytes
  is accepted and becomes the last message; otherwise the status is \<open>kResourceExhausted\<close> and the
  messages in the ring stay as they were, even though the free part may have been written.
\<close>

theorem Messaging_Send_refines:
  assumes "messages p c rp rc ms"
  shows "case Messaging_Send haddr addr msg p rp rc of (status, p', rc') \<Rightarrow>
     status = (if length msg > kMaxMessageSize then kInvalidArgument
               else if frame_size (length msg) \<le> free_bytes p c rc then kOk
               else kResourceExhausted) \<and>
     messages p' c rp rc' (if status = kOk then ms @ [msg] else ms)"
proof -
  consider "kMaxMessageSize < length msg"
    | "length msg \<le> kMaxMessageSize" "frame_size (length msg) \<le> free_bytes p c rc"
    | "length msg \<le> kMaxMessageSize" "free_bytes p c rc < frame_size (length msg)"
    by linarith
  then show ?thesis
  proof cases
    case 1
    then show ?thesis using assms by (simp add: Messaging_Send_long)
  next
    case 2
    then show ?thesis by (rule messages_send_ok [OF assms, where haddr = haddr and addr = addr]) (use 2 in simp)
  next
    case 3
    then show ?thesis by (rule messages_send_full [OF assms, where haddr = haddr and addr = addr]) (use 3 in simp)
  qed
qed

theorem Messaging_Send_refines_witness:
  "\<exists>p' rc'. Messaging_Send 1 2 [5, 6, 7] idle_end idle_region idle_region = (kOk, p', rc') \<and>
     messages p' idle_end idle_region rc' [[5, 6, 7]]"
proof -
  obtain status p' rc' where s:
    "Messaging_Send 1 2 [5, 6, 7] idle_end idle_region idle_region = (status, p', rc')"
    by (rule prod_cases3)
  have "frame_size (length [5, 6, 7 :: u8]) \<le> 4096" "\<not> kMaxMessageSize < length [5, 6, 7 :: u8]"
    by (simp_all add: frame_size_def kMaxMessageSize_def)
  with Messaging_Send_refines [OF idle_messages, where haddr = 1 and addr = 2 and msg = "[5, 6, 7]"]
  have "status = kOk" "messages p' idle_end idle_region rc' ([] @ [[5, 6, 7]])"
    unfolding s idle_free by (auto simp del: length_Cons list.size)
  with s show ?thesis by auto
qed

text \<open>
  C20: receiving implements taking the first message out of the ring: the bytes handed over are
  exactly the oldest message, which leaves the ring; on an empty ring the status is \<open>kUnavailable\<close>,
  the handler is not called and nothing changes.
\<close>

theorem Messaging_Receive_refines:
  assumes "messages p c rp rc ms"
  shows "case Messaging_Receive c rc rp of (result, c', rp') \<Rightarrow>
     (case ms of [] \<Rightarrow> result = Inl kUnavailable \<and> c' = c \<and> rp' = rp
      | m # ms' \<Rightarrow> result = Inr m \<and> messages p c' rp' rc ms' \<and>
          free_bytes p c' rc = free_bytes p c rc + frame_size (length m))"
proof (cases ms)
  case Nil
  with messages_receive_empty [of p c rp rc] assms show ?thesis by (simp add: Messaging_Receive_def)
next
  case (Cons m ms')
  with assms have "messages p c rp rc (m # ms')" by simp
  then show ?thesis
    by (rule messages_receive_ok) (simp add: Cons Messaging_Receive_def)
qed

theorem Messaging_Receive_refines_witness:
  "\<exists>p' rc' c' rp'. Messaging_Send 1 2 [5, 6, 7] idle_end idle_region idle_region = (kOk, p', rc') \<and>
     Messaging_Receive idle_end rc' idle_region = (Inr [5, 6, 7], c', rp') \<and> messages p' c' rp' rc' []"
proof -
  obtain p' rc' where s: "Messaging_Send 1 2 [5, 6, 7] idle_end idle_region idle_region = (kOk, p', rc')"
    "messages p' idle_end idle_region rc' [[5, 6, 7]]"
    by (rule idle_sent)
  from Messaging_Receive_refines [OF s(2)] s(1) show ?thesis by (auto split: prod.splits)
qed

text \<open>
  The header of a message never crosses the end of the ring: whenever a message is there to be
  received, the first segment holds at least one whole alignment unit, so the copying fallback in
  \<open>Receive\<close> is not taken.
\<close>

theorem header_in_first_segment:
  assumes msgs: "messages p c rp rc (m # ms)" and b: "BeginReceive c rc = Inr batch"
  shows "64 \<le> seg_size (rb_segment batch)"
proof -
  let ?N = "length (ring rc)" and ?C = "q_local_bytes_consumed c"
  have ok: "ring_ok (q_local_ring c) (q_local_ring_size_mask c) (ring rc)"
    and frames: "frames_of (unread c rc) = Some (m # ms)" and C: "unat ?C mod 64 = 0"
    using msgs by (auto simp: messages_def)
  have avail: "64 \<le> unat (bytes_produced rc - ?C)"
  proof -
    have "64 \<le> frame_size (header_body_bytes (unread c rc))" by (simp add: frame_size_def)
    also have "\<dots> \<le> length (unread c rc)" by (rule frames_of_Cons(1) [OF frames])
    finally show ?thesis by (simp add: unread_def)
  qed
  have dvd: "64 dvd ?N" and N: "0 < ?N" using ring_ok_facts(2,3) [OF ok] by auto
  have "unat ?C mod ?N mod 64 = 0" using C by (simp add: mod_mod_cancel [OF dvd])
  then have "64 dvd ?N - unat ?C mod ?N" using dvd by (intro dvd_diff_nat) auto
  moreover have "0 < ?N - unat ?C mod ?N" using N by simp
  ultimately have "64 \<le> ?N - unat ?C mod ?N" by (rule dvd_imp_le)
  then show ?thesis using BeginReceive_first_segment [OF ok b] avail by linarith
qed

theorem header_in_first_segment_witness:
  "\<exists>p' rc' batch. Messaging_Send 1 2 [5, 6, 7] idle_end idle_region idle_region = (kOk, p', rc') \<and>
     BeginReceive idle_end rc' = Inr batch \<and> 64 \<le> seg_size (rb_segment batch)"
proof -
  obtain p' rc' where s: "Messaging_Send 1 2 [5, 6, 7] idle_end idle_region idle_region = (kOk, p', rc')"
    "messages p' idle_end idle_region rc' [[5, 6, 7]]"
    by (rule idle_sent)
  obtain batch where "BeginReceive idle_end rc' = Inr batch"
  proof (cases "BeginReceive idle_end rc'")
    case (Inl e)
    obtain first second c' rp' where
      "Receive_handler idle_end rc' idle_region = (kOk, Some (first, second), c', rp')"
      by (rule messages_receive_ok [OF s(2)])
    with Inl show ?thesis by (simp add: Receive_handler_def)
  qed
  with header_in_first_segment [OF s(2)] s(1) show ?thesis by blast
qed

text \<open>
  Two endpoints created on each other's zero-filled regions have an empty channel in both
  directions.
\<close>

theorem Create_channel:
  assumes a: "Create sa sb = Some (Inr (dx_qa d))" and b: "Create sb sa = Some (Inr (dx_qb d))"
    and "length (ring (dx_ra d)) = unat (span_size sa - kDoorbellsSize)"
    and "length (ring (dx_rb d)) = unat (span_size sb - kDoorbellsSize)"
    and "bytes_produced (dx_ra d) = 0" and "remote_bytes_consumed (dx_ra d) = 0"
    and "bytes_produced (dx_rb d) = 0" and "remote_bytes_consumed (dx_rb d) = 0"
  shows "dx_inv d \<and> dx_outgoing d = [] \<and> dx_incoming d = []"
proof -
  obtain ra rb where ab: "dx_qa d = new_SpscQueuePair ra rb"
    "subspan_from kDoorbellsSize sa = Some ra" "subspan_from kDoorbellsSize sb = Some rb"
    "has_single_bit (span_size ra)" "span_size ra mod kPageSize = 0"
    "has_single_bit (span_size rb)" "span_size rb mod kPageSize = 0"
    by (rule Create_Inr [OF a])
  obtain ra' rb' where ba: "dx_qb d = new_SpscQueuePair rb' ra'"
    "subspan_from kDoorbellsSize sb = Some rb'" "subspan_from kDoorbellsSize sa = Some ra'"
    by (rule Create_Inr [OF b])
  then have qb: "dx_qb d = new_SpscQueuePair rb ra" using ab(2,3) by simp
  have sizes: "span_size ra = span_size sa - kDoorbellsSize" "span_size rb = span_size sb - kDoorbellsSize"
    using subspan_from_size [OF ab(2)] subspan_from_size [OF ab(3)] by simp_all
  have "messages (dx_qa d) (dx_qb d) (dx_ra d) (dx_rb d) []"
    "messages (dx_qb d) (dx_qa d) (dx_rb d) (dx_ra d) []"
    using ab qb sizes assms(3-8) by (simp_all add: messages_def ring_ok_def new_SpscQueuePair_def unread_def)
  then show ?thesis
    using messages_frames [of "dx_qa d"] messages_frames [of "dx_qb d"]
    by (simp add: dx_inv_def dx_outgoing_def dx_incoming_def)
qed

theorem Create_channel_witness:
  "\<exists>q. let d = \<lparr>dx_qa = q, dx_qb = q, dx_ra = idle_region\<lparr>bytes_produced := 0, remote_bytes_consumed := 0\<rparr>,
             dx_rb = idle_region\<lparr>bytes_produced := 0, remote_bytes_consumed := 0\<rparr>\<rparr>
   in Create \<lparr>span_data = 0, span_size = 8192\<rparr> \<lparr>span_data = 0, span_size = 8192\<rparr> = Some (Inr q) \<and>
      dx_inv d \<and> dx_outgoing d = []"
proof -
  let ?sp = "\<lparr>span_data = 0, span_size = 8192\<rparr>"
  obtain q where q: "Create ?sp ?sp = Some (Inr q)"
    by (simp add: Create_def subspan_def subspan_from_def kDoorbellsSize_def kPageSize_def
        MakeSpscQueuePair_def check_region_def has_single_bit_4096)
  let ?r = "idle_region\<lparr>bytes_produced := 0, remote_bytes_consumed := 0\<rparr>"
  let ?d = "\<lparr>dx_qa = q, dx_qb = q, dx_ra = ?r, dx_rb = ?r\<rparr>"
  have "dx_inv ?d \<and> dx_outgoing ?d = [] \<and> dx_incoming ?d = []"
    by (rule Create_channel [of ?sp ?sp])
      (simp_all add: q idle_region_def kDoorbellsSize_def kPageSize_def)
  with q show ?thesis by (auto simp: Let_def)
qed

text \<open>
  A restart keeps the channel: when an endpoint is saved and restored on the same regions, the
  restored endpoint is the saved one, with every message in flight in both directions still there.
\<close>

theorem Restore_channel:
  assumes inv: "dx_inv d" and fresh: "Create sa sb = Some (Inr q)"
    and same: "q = (dx_qa d)\<lparr>q_local_bytes_consumed := 0, q_remote_bytes_produced := 0\<rparr>"
  shows "Restore sa sb (SaveState (dx_qa d)) (dx_rb d) = Some (Inr (dx_qa d))"
proof -
  have m: "messages (dx_qa d) (dx_qb d) (dx_ra d) (dx_rb d) (dx_outgoing d)"
    "messages (dx_qb d) (dx_qa d) (dx_rb d) (dx_ra d) (dx_incoming d)"
    using inv by (simp_all add: dx_inv_def)
  have "q_remote_bytes_produced (dx_qa d) mod kAlignment = 0"
    "q_local_bytes_consumed (dx_qa d) mod kAlignment = 0"
    using messages_aligned [OF m(1)] messages_aligned [OF m(2)] by (simp_all only: word_mod_kAlignment)
  moreover have "RestoreState (SaveState (dx_qa d)) (dx_rb d) q = (kOk, dx_qa d)"
    using m by (auto simp: same RestoreState_def SaveState_def messages_def)
  ultimately show ?thesis
    unfolding Restore_def fresh by (simp add: SaveState_def)
qed

theorem Restore_channel_witness:
  "let d = \<lparr>dx_qa = idle_end, dx_qb = idle_end, dx_ra = idle_region, dx_rb = idle_region\<rparr>;
       sp = \<lparr>span_data = 4096, span_size = 8192\<rparr>
   in Restore sp sp (SaveState (dx_qa d)) (dx_rb d) = Some (Inr idle_end)"
proof -
  let ?d = "\<lparr>dx_qa = idle_end, dx_qb = idle_end, dx_ra = idle_region, dx_rb = idle_region\<rparr>"
  let ?sp = "\<lparr>span_data = 4096, span_size = 8192\<rparr>"
  let ?q = "idle_end\<lparr>q_local_bytes_consumed := 0, q_remote_bytes_produced := 0\<rparr>"
  have "dx_inv ?d"
    using idle_messages messages_frames [OF idle_messages]
    by (simp add: dx_inv_def dx_outgoing_def dx_incoming_def)
  moreover have "Create ?sp ?sp = Some (Inr ?q)"
    by (simp add: Create_def subspan_def subspan_from_def kDoorbellsSize_def kPageSize_def
        MakeSpscQueuePair_def check_region_def has_single_bit_4096 idle_end_def wrap_span_def
        new_SpscQueuePair_def)
  ultimately have "Restore ?sp ?sp (SaveState (dx_qa ?d)) (dx_rb ?d) = Some (Inr (dx_qa ?d))"
    by (rule Restore_channel) simp
  then show ?thesis by simp
qed

end
