(* ===== verification/Control_Command.thy ===== *)
theory Control_Command
  imports Tcpxo_Prelude
begin

text \<open>
  The messages of the control channel between the guest and the network interface,
  \<^verbatim>\<open>dxs/client/control-command.{h,cc}\<close> and \<^verbatim>\<open>dxs/client/data-sock.{h,cc}\<close>: the commands, the packed
  structs with their layout in memory, the size check a received packet passes, and the texts for
  statuses. Enumerations that come off the wire are bytes, because any byte can arrive; a \<^verbatim>\<open>bool\<close> is
  one byte, zero or not. Each struct is a record without its \<^verbatim>\<open>command\<close> field, which \<open>_bytes\<close> puts in
  front; \<open>_of\<close> reads the record from a packet.
\<close>

section \<open>Commands\<close>

datatype ControlCommand =
    kInvalid | kInit | kInitAck | kListen | kListenAck | kIncomingConnection | kAccept |
    kCloseListenSock | kConnect | kConnectAck | kSend | kSendAck | kRecv | kRecvAck |
    kRelease | kCloseDataSock | kRegBuffer | kRegBufferAck | kDeregBuffer | kDeregBufferAck |
    kPing | kPong | kVersionedInit | kVersionedInitAck | kInitLlcm | kInitLlcmAck |
    kAcceptAck | kSubscribeToPeriodicStats | kPeriodicStatsUpdate | kIncomingConnectionV2

fun command_code :: "ControlCommand \<Rightarrow> u8" where
  "command_code kInvalid = 0"
| "command_code kInit = 1"
| "command_code kInitAck = 2"
| "command_code kListen = 3"
| "command_code kListenAck = 4"
| "command_code kIncomingConnection = 5"
| "command_code kAccept = 6"
| "command_code kCloseListenSock = 7"
| "command_code kConnect = 8"
| "command_code kConnectAck = 9"
| "command_code kSend = 10"
| "command_code kSendAck = 11"
| "command_code kRecv = 12"
| "command_code kRecvAck = 13"
| "command_code kRelease = 14"
| "command_code kCloseDataSock = 15"
| "command_code kRegBuffer = 16"
| "command_code kRegBufferAck = 17"
| "command_code kDeregBuffer = 18"
| "command_code kDeregBufferAck = 19"
| "command_code kPing = 22"
| "command_code kPong = 23"
| "command_code kVersionedInit = 34"
| "command_code kVersionedInitAck = 35"
| "command_code kInitLlcm = 36"
| "command_code kInitLlcmAck = 37"
| "command_code kAcceptAck = 48"
| "command_code kSubscribeToPeriodicStats = 52"
| "command_code kPeriodicStatsUpdate = 53"
| "command_code kIncomingConnectionV2 = 55"

definition all_commands :: "ControlCommand list" where
  "all_commands =
     [kInvalid, kInit, kInitAck, kListen, kListenAck, kIncomingConnection, kAccept,
      kCloseListenSock, kConnect, kConnectAck, kSend, kSendAck, kRecv, kRecvAck, kRelease,
      kCloseDataSock, kRegBuffer, kRegBufferAck, kDeregBuffer, kDeregBufferAck, kPing, kPong,
      kVersionedInit, kVersionedInitAck, kInitLlcm, kInitLlcmAck, kAcceptAck,
      kSubscribeToPeriodicStats, kPeriodicStatsUpdate, kIncomingConnectionV2]"

definition command_of :: "u8 \<Rightarrow> ControlCommand option" where
  "command_of b = find (\<lambda>c. command_code c = b) all_commands"

section \<open>Layout of packed fields\<close>

type_synonym i8 = "8 word"
type_synonym i32 = "32 word"

definition put16 :: "u16 \<Rightarrow> u8 list" where "put16 x = le_bytes 2 (unat x)"
definition put32 :: "u32 \<Rightarrow> u8 list" where "put32 x = le_bytes 4 (unat x)"
definition put64 :: "u64 \<Rightarrow> u8 list" where "put64 x = le_bytes 8 (unat x)"

definition get16 :: "nat \<Rightarrow> u8 list \<Rightarrow> u16" where "get16 off bs = of_nat (le_nat (take 2 (drop off bs)))"
definition get32 :: "nat \<Rightarrow> u8 list \<Rightarrow> u32" where "get32 off bs = of_nat (le_nat (take 4 (drop off bs)))"
definition get64 :: "nat \<Rightarrow> u8 list \<Rightarrow> u64" where "get64 off bs = of_nat (le_nat (take 8 (drop off bs)))"

section \<open>The structs\<close>

record InitMessage =
  init_client_type :: i8

record InitAckMessage =
  init_ack_status :: i8

record VersionedInitMessage =
  vinit_client_type :: i8
  vinit_client_build_id :: "u8 list"
  vinit_client_version :: u64

record VersionedInitAckMessage =
  vinit_ack_status :: i8
  vinit_ack_server_build_id :: "u8 list"
  vinit_ack_server_version :: u64

record InitLlcmAckMessage =
  init_llcm_ack_status :: i8
  init_llcm_ack_llcm_queue_offset :: u64
  init_llcm_ack_llcm_queue_size :: u64
  init_llcm_ack_reverse_llcm_queue_offset :: u64
  init_llcm_ack_reverse_llcm_queue_size :: u64

record ListenMessage =
  listen_sock :: u64

record ListenAckMessage =
  listen_ack_sock :: u64
  listen_ack_port :: u16
  listen_ack_status :: i8

record IncomingConnectionMessage =
  incoming_sock :: u64

record IncomingConnectionMessageV2 =
  incoming2_sock :: u64
  incoming2_is_ipv6 :: bool
  incoming2_addr :: "u8 list"
  incoming2_port :: u16

record AcceptMessage =
  accept_listen_sock :: u64
  accept_data_sock :: u64

record AcceptAckMessage =
  accept_ack_sock :: u64
  accept_ack_status :: i8

record CloseListenSockMessage =
  close_listen_sock :: u64

record ConnectMessage =
  connect_addr :: "u8 list"
  connect_sock :: u64
  connect_port :: u16
  connect_ipv6 :: bool

record ConnectAckMessage =
  connect_ack_sock :: u64
  connect_ack_status :: i8
  connect_ack_req_status :: i8

record SendMessage =
  send_sock :: u64
  send_reg_handle :: u64
  send_op_id :: u64
  send_offset :: u64
  send_size :: u64

record SendAckMessage =
  send_ack_op_id :: u64
  send_ack_status :: u8
  send_ack_req_status :: i8

record RecvMessage =
  recv_sock :: u64
  recv_offset :: u64
  recv_size :: u64
  recv_reg_handle :: u64
  recv_op_id :: u64

record RecvAckMessage =
  recv_ack_op_id :: u64
  recv_ack_status :: u8
  recv_ack_size :: u64
  recv_ack_req_status :: i8

record ReleaseMessage =
  release_sock :: u64
  release_op_id :: u64

record CloseDataSockMessage =
  close_data_sock :: u64

record RegBufferMessage =
  reg_more :: bool
  reg_is_bounce_buffer :: bool
  reg_num_gpas :: u8

record RegBufferAckMessage =
  reg_ack_reg_handle :: u64
  reg_ack_num_gpas :: u32
  reg_ack_status :: i8

record DeregBufferMessage =
  dereg_reg_handle :: u64
  dereg_is_bounce_buffer :: bool

record DeregBufferAckMessage =
  dereg_ack_status :: i8

record PingMessage =
  ping_seq :: i32

record PongMessage =
  pong_seq :: i32

record SubscribeToPeriodicStatsMessage =
  subscribe_payload_size :: u16

record PeriodicStatsUpdateMessage =
  stats_payload_size :: u16

record iovec =
  iov_base :: u64
  iov_len :: u64

section \<open>Structs as bytes\<close>

definition InitMessage_bytes :: "InitMessage \<Rightarrow> u8 list" where
  "InitMessage_bytes m =
     [command_code kInit] @ [init_client_type m]"

definition InitMessage_of :: "u8 list \<Rightarrow> InitMessage" where
  "InitMessage_of bs =
     \<lparr>init_client_type = bs ! 1\<rparr>"

definition InitAckMessage_bytes :: "InitAckMessage \<Rightarrow> u8 list" where
  "InitAckMessage_bytes m =
     [command_code kInitAck] @ [init_ack_status m]"

definition InitAckMessage_of :: "u8 list \<Rightarrow> InitAckMessage" where
  "InitAckMessage_of bs =
     \<lparr>init_ack_status = bs ! 1\<rparr>"

definition VersionedInitMessage_bytes :: "VersionedInitMessage \<Rightarrow> u8 list" where
  "VersionedInitMessage_bytes m =
     [command_code kVersionedInit] @ [vinit_client_type m] @ vinit_client_build_id m @
     put64 (vinit_client_version m)"

definition VersionedInitMessage_of :: "u8 list \<Rightarrow> VersionedInitMessage" where
  "VersionedInitMessage_of bs =
     \<lparr>vinit_client_type = bs ! 1, vinit_client_build_id = take 256 (drop 2 bs),
      vinit_client_version = get64 258 bs\<rparr>"

definition VersionedInitAckMessage_bytes :: "VersionedInitAckMessage \<Rightarrow> u8 list" where
  "VersionedInitAckMessage_bytes m =
     [command_code kVersionedInitAck] @ [vinit_ack_status m] @ vinit_ack_server_build_id m @
     put64 (vinit_ack_server_version m)"

definition VersionedInitAckMessage_of :: "u8 list \<Rightarrow> VersionedInitAckMessage" where
  "VersionedInitAckMessage_of bs =
     \<lparr>vinit_ack_status = bs ! 1, vinit_ack_server_build_id = take 256 (drop 2 bs),
      vinit_ack_server_version = get64 258 bs\<rparr>"

definition InitLlcmAckMessage_bytes :: "InitLlcmAckMessage \<Rightarrow> u8 list" where
  "InitLlcmAckMessage_bytes m =
     [command_code kInitLlcmAck] @ [init_llcm_ack_status m] @
     put64 (init_llcm_ack_llcm_queue_offset m) @ put64 (init_llcm_ack_llcm_queue_size m) @
     put64 (init_llcm_ack_reverse_llcm_queue_offset m) @
     put64 (init_llcm_ack_reverse_llcm_queue_size m)"

definition InitLlcmAckMessage_of :: "u8 list \<Rightarrow> InitLlcmAckMessage" where
  "InitLlcmAckMessage_of bs =
     \<lparr>init_llcm_ack_status = bs ! 1, init_llcm_ack_llcm_queue_offset = get64 2 bs,
      init_llcm_ack_llcm_queue_size = get64 10 bs,
      init_llcm_ack_reverse_llcm_queue_offset = get64 18 bs,
      init_llcm_ack_reverse_llcm_queue_size = get64 26 bs\<rparr>"

definition ListenMessage_bytes :: "ListenMessage \<Rightarrow> u8 list" where
  "ListenMessage_bytes m =
     [command_code kListen] @ put64 (listen_sock m)"

definition ListenMessage_of :: "u8 list \<Rightarrow> ListenMessage" where
  "ListenMessage_of bs =
     \<lparr>listen_sock = get64 1 bs\<rparr>"

definition ListenAckMessage_bytes :: "ListenAckMessage \<Rightarrow> u8 list" where
  "ListenAckMessage_bytes m =
     [command_code kListenAck] @ put64 (listen_ack_sock m) @ put16 (listen_ack_port m) @
     [listen_ack_status m]"

definition ListenAckMessage_of :: "u8 list \<Rightarrow> ListenAckMessage" where
  "ListenAckMessage_of bs =
     \<lparr>listen_ack_sock = get64 1 bs, listen_ack_port = get16 9 bs,
      listen_ack_status = bs ! 11\<rparr>"

definition IncomingConnectionMessage_bytes :: "IncomingConnectionMessage \<Rightarrow> u8 list" where
  "IncomingConnectionMessage_bytes m =
     [command_code kIncomingConnection] @ put64 (incoming_sock m)"

definition IncomingConnectionMessage_of :: "u8 list \<Rightarrow> IncomingConnectionMessage" where
  "IncomingConnectionMessage_of bs =
     \<lparr>incoming_sock = get64 1 bs\<rparr>"

definition IncomingConnectionMessageV2_bytes :: "IncomingConnectionMessageV2 \<Rightarrow> u8 list" where
  "IncomingConnectionMessageV2_bytes m =
     [command_code kIncomingConnectionV2] @ put64 (incoming2_sock m) @
     [of_bool (incoming2_is_ipv6 m)] @ incoming2_addr m @ put16 (incoming2_port m)"

definition IncomingConnectionMessageV2_of :: "u8 list \<Rightarrow> IncomingConnectionMessageV2" where
  "IncomingConnectionMessageV2_of bs =
     \<lparr>incoming2_sock = get64 1 bs, incoming2_is_ipv6 = bs ! 9 \<noteq> 0,
      incoming2_addr = take 16 (drop 10 bs), incoming2_port = get16 26 bs\<rparr>"

definition AcceptMessage_bytes :: "AcceptMessage \<Rightarrow> u8 list" where
  "AcceptMessage_bytes m =
     [command_code kAccept] @ put64 (accept_listen_sock m) @ put64 (accept_data_sock m)"

definition AcceptMessage_of :: "u8 list \<Rightarrow> AcceptMessage" where
  "AcceptMessage_of bs =
     \<lparr>accept_listen_sock = get64 1 bs, accept_data_sock = get64 9 bs\<rparr>"

definition AcceptAckMessage_bytes :: "AcceptAckMessage \<Rightarrow> u8 list" where
  "AcceptAckMessage_bytes m =
     [command_code kAcceptAck] @ put64 (accept_ack_sock m) @ [accept_ack_status m]"

definition AcceptAckMessage_of :: "u8 list \<Rightarrow> AcceptAckMessage" where
  "AcceptAckMessage_of bs =
     \<lparr>accept_ack_sock = get64 1 bs, accept_ack_status = bs ! 9\<rparr>"

definition CloseListenSockMessage_bytes :: "CloseListenSockMessage \<Rightarrow> u8 list" where
  "CloseListenSockMessage_bytes m =
     [command_code kCloseListenSock] @ put64 (close_listen_sock m)"

definition CloseListenSockMessage_of :: "u8 list \<Rightarrow> CloseListenSockMessage" where
  "CloseListenSockMessage_of bs =
     \<lparr>close_listen_sock = get64 1 bs\<rparr>"

definition ConnectMessage_bytes :: "ConnectMessage \<Rightarrow> u8 list" where
  "ConnectMessage_bytes m =
     [command_code kConnect] @ connect_addr m @ put64 (connect_sock m) @
     put16 (connect_port m) @ [of_bool (connect_ipv6 m)]"

definition ConnectMessage_of :: "u8 list \<Rightarrow> ConnectMessage" where
  "ConnectMessage_of bs =
     \<lparr>connect_addr = take 16 (drop 1 bs), connect_sock = get64 17 bs,
      connect_port = get16 25 bs, connect_ipv6 = bs ! 27 \<noteq> 0\<rparr>"

definition ConnectAckMessage_bytes :: "ConnectAckMessage \<Rightarrow> u8 list" where
  "ConnectAckMessage_bytes m =
     [command_code kConnectAck] @ put64 (connect_ack_sock m) @ [connect_ack_status m] @
     [connect_ack_req_status m]"

definition ConnectAckMessage_of :: "u8 list \<Rightarrow> ConnectAckMessage" where
  "ConnectAckMessage_of bs =
     \<lparr>connect_ack_sock = get64 1 bs, connect_ack_status = bs ! 9,
      connect_ack_req_status = bs ! 10\<rparr>"

definition SendMessage_bytes :: "SendMessage \<Rightarrow> u8 list" where
  "SendMessage_bytes m =
     [command_code kSend] @ put64 (send_sock m) @ put64 (send_reg_handle m) @
     put64 (send_op_id m) @ put64 (send_offset m) @ put64 (send_size m)"

definition SendMessage_of :: "u8 list \<Rightarrow> SendMessage" where
  "SendMessage_of bs =
     \<lparr>send_sock = get64 1 bs, send_reg_handle = get64 9 bs, send_op_id = get64 17 bs,
      send_offset = get64 25 bs, send_size = get64 33 bs\<rparr>"

definition SendAckMessage_bytes :: "SendAckMessage \<Rightarrow> u8 list" where
  "SendAckMessage_bytes m =
     [command_code kSendAck] @ put64 (send_ack_op_id m) @ [send_ack_status m] @
     [send_ack_req_status m]"

definition SendAckMessage_of :: "u8 list \<Rightarrow> SendAckMessage" where
  "SendAckMessage_of bs =
     \<lparr>send_ack_op_id = get64 1 bs, send_ack_status = bs ! 9,
      send_ack_req_status = bs ! 10\<rparr>"

definition RecvMessage_bytes :: "RecvMessage \<Rightarrow> u8 list" where
  "RecvMessage_bytes m =
     [command_code kRecv] @ put64 (recv_sock m) @ put64 (recv_offset m) @
     put64 (recv_size m) @ put64 (recv_reg_handle m) @ put64 (recv_op_id m)"

definition RecvMessage_of :: "u8 list \<Rightarrow> RecvMessage" where
  "RecvMessage_of bs =
     \<lparr>recv_sock = get64 1 bs, recv_offset = get64 9 bs, recv_size = get64 17 bs,
      recv_reg_handle = get64 25 bs, recv_op_id = get64 33 bs\<rparr>"

definition RecvAckMessage_bytes :: "RecvAckMessage \<Rightarrow> u8 list" where
  "RecvAckMessage_bytes m =
     [command_code kRecvAck] @ put64 (recv_ack_op_id m) @ [recv_ack_status m] @
     put64 (recv_ack_size m) @ [recv_ack_req_status m]"

definition RecvAckMessage_of :: "u8 list \<Rightarrow> RecvAckMessage" where
  "RecvAckMessage_of bs =
     \<lparr>recv_ack_op_id = get64 1 bs, recv_ack_status = bs ! 9, recv_ack_size = get64 10 bs,
      recv_ack_req_status = bs ! 18\<rparr>"

definition ReleaseMessage_bytes :: "ReleaseMessage \<Rightarrow> u8 list" where
  "ReleaseMessage_bytes m =
     [command_code kRelease] @ put64 (release_sock m) @ put64 (release_op_id m)"

definition ReleaseMessage_of :: "u8 list \<Rightarrow> ReleaseMessage" where
  "ReleaseMessage_of bs =
     \<lparr>release_sock = get64 1 bs, release_op_id = get64 9 bs\<rparr>"

definition CloseDataSockMessage_bytes :: "CloseDataSockMessage \<Rightarrow> u8 list" where
  "CloseDataSockMessage_bytes m =
     [command_code kCloseDataSock] @ put64 (close_data_sock m)"

definition CloseDataSockMessage_of :: "u8 list \<Rightarrow> CloseDataSockMessage" where
  "CloseDataSockMessage_of bs =
     \<lparr>close_data_sock = get64 1 bs\<rparr>"

definition RegBufferMessage_bytes :: "RegBufferMessage \<Rightarrow> u8 list" where
  "RegBufferMessage_bytes m =
     [command_code kRegBuffer] @ [of_bool (reg_more m)] @
     [of_bool (reg_is_bounce_buffer m)] @ [reg_num_gpas m]"

definition RegBufferMessage_of :: "u8 list \<Rightarrow> RegBufferMessage" where
  "RegBufferMessage_of bs =
     \<lparr>reg_more = bs ! 1 \<noteq> 0, reg_is_bounce_buffer = bs ! 2 \<noteq> 0,
      reg_num_gpas = bs ! 3\<rparr>"

definition RegBufferAckMessage_bytes :: "RegBufferAckMessage \<Rightarrow> u8 list" where
  "RegBufferAckMessage_bytes m =
     [command_code kRegBufferAck] @ put64 (reg_ack_reg_handle m) @
     put32 (reg_ack_num_gpas m) @ [reg_ack_status m]"

definition RegBufferAckMessage_of :: "u8 list \<Rightarrow> RegBufferAckMessage" where
  "RegBufferAckMessage_of bs =
     \<lparr>reg_ack_reg_handle = get64 1 bs, reg_ack_num_gpas = get32 9 bs,
      reg_ack_status = bs ! 13\<rparr>"

definition DeregBufferMessage_bytes :: "DeregBufferMessage \<Rightarrow> u8 list" where
  "DeregBufferMessage_bytes m =
     [command_code kDeregBuffer] @ put64 (dereg_reg_handle m) @
     [of_bool (dereg_is_bounce_buffer m)]"

definition DeregBufferMessage_of :: "u8 list \<Rightarrow> DeregBufferMessage" where
  "DeregBufferMessage_of bs =
     \<lparr>dereg_reg_handle = get64 1 bs, dereg_is_bounce_buffer = bs ! 9 \<noteq> 0\<rparr>"

definition DeregBufferAckMessage_bytes :: "DeregBufferAckMessage \<Rightarrow> u8 list" where
  "DeregBufferAckMessage_bytes m =
     [command_code kDeregBufferAck] @ [dereg_ack_status m]"

definition DeregBufferAckMessage_of :: "u8 list \<Rightarrow> DeregBufferAckMessage" where
  "DeregBufferAckMessage_of bs =
     \<lparr>dereg_ack_status = bs ! 1\<rparr>"

definition PingMessage_bytes :: "PingMessage \<Rightarrow> u8 list" where
  "PingMessage_bytes m =
     [command_code kPing] @ put32 (ping_seq m)"

definition PingMessage_of :: "u8 list \<Rightarrow> PingMessage" where
  "PingMessage_of bs =
     \<lparr>ping_seq = get32 1 bs\<rparr>"

definition PongMessage_bytes :: "PongMessage \<Rightarrow> u8 list" where
  "PongMessage_bytes m =
     [command_code kPong] @ put32 (pong_seq m)"

definition PongMessage_of :: "u8 list \<Rightarrow> PongMessage" where
  "PongMessage_of bs =
     \<lparr>pong_seq = get32 1 bs\<rparr>"

definition SubscribeToPeriodicStatsMessage_bytes :: "SubscribeToPeriodicStatsMessage \<Rightarrow> u8 list" where
  "SubscribeToPeriodicStatsMessage_bytes m =
     [command_code kSubscribeToPeriodicStats] @ put16 (subscribe_payload_size m)"

definition SubscribeToPeriodicStatsMessage_of :: "u8 list \<Rightarrow> SubscribeToPeriodicStatsMessage" where
  "SubscribeToPeriodicStatsMessage_of bs =
     \<lparr>subscribe_payload_size = get16 1 bs\<rparr>"

definition PeriodicStatsUpdateMessage_bytes :: "PeriodicStatsUpdateMessage \<Rightarrow> u8 list" where
  "PeriodicStatsUpdateMessage_bytes m =
     [command_code kPeriodicStatsUpdate] @ put16 (stats_payload_size m)"

definition PeriodicStatsUpdateMessage_of :: "u8 list \<Rightarrow> PeriodicStatsUpdateMessage" where
  "PeriodicStatsUpdateMessage_of bs =
     \<lparr>stats_payload_size = get16 1 bs\<rparr>"

definition InitLlcmMessage_bytes :: "u8 list" where
  "InitLlcmMessage_bytes = [command_code kInitLlcm]"

definition iovec_bytes :: "iovec \<Rightarrow> u8 list" where
  "iovec_bytes v = put64 (iov_base v) @ put64 (iov_len v)"

definition iovec_of :: "u8 list \<Rightarrow> iovec" where
  "iovec_of bs = \<lparr>iov_base = get64 0 bs, iov_len = get64 8 bs\<rparr>"

text \<open>The iovecs that follow a struct in memory.\<close>

fun iovecs_of :: "nat \<Rightarrow> u8 list \<Rightarrow> iovec list" where
  "iovecs_of 0 bs = []"
| "iovecs_of (Suc n) bs = iovec_of bs # iovecs_of n (drop 16 bs)"

text \<open>The size check before a packet is read as a struct; a wrong size gives a null pointer.\<close>

definition ValidateAndGetMessage :: "nat \<Rightarrow> (u8 list \<Rightarrow> 'm) \<Rightarrow> u8 list \<Rightarrow> 'm option" where
  "ValidateAndGetMessage expected_length read packet =
     (if length packet \<noteq> expected_length then None else Some (read packet))"

section \<open>All messages\<close>

datatype ControlMessage =
    Msg_Init InitMessage | Msg_InitAck InitAckMessage |
    Msg_VersionedInit VersionedInitMessage | Msg_VersionedInitAck VersionedInitAckMessage |
    Msg_InitLlcmAck InitLlcmAckMessage | Msg_Listen ListenMessage |
    Msg_ListenAck ListenAckMessage | Msg_IncomingConnection IncomingConnectionMessage |
    Msg_IncomingConnectionV2 IncomingConnectionMessageV2 | Msg_Accept AcceptMessage |
    Msg_AcceptAck AcceptAckMessage | Msg_CloseListenSock CloseListenSockMessage |
    Msg_Connect ConnectMessage | Msg_ConnectAck ConnectAckMessage | Msg_Send SendMessage |
    Msg_SendAck SendAckMessage | Msg_Recv RecvMessage | Msg_RecvAck RecvAckMessage |
    Msg_Release ReleaseMessage | Msg_CloseDataSock CloseDataSockMessage |
    Msg_RegBuffer RegBufferMessage "iovec list" | Msg_RegBufferAck RegBufferAckMessage |
    Msg_DeregBuffer DeregBufferMessage | Msg_DeregBufferAck DeregBufferAckMessage |
    Msg_Ping PingMessage | Msg_Pong PongMessage |
    Msg_SubscribeToPeriodicStats SubscribeToPeriodicStatsMessage "u8 list" |
    Msg_PeriodicStatsUpdate PeriodicStatsUpdateMessage "u8 list" | Msg_InitLlcm

text \<open>
  Structs with fixed-size arrays hold exactly that many bytes; a buffer registration counts the
  iovecs that follow it, and a message with a payload its bytes.
\<close>

fun message_ok :: "ControlMessage \<Rightarrow> bool" where
  "message_ok (Msg_VersionedInit m) = (length (vinit_client_build_id m) = 256)"
| "message_ok (Msg_VersionedInitAck m) = (length (vinit_ack_server_build_id m) = 256)"
| "message_ok (Msg_IncomingConnectionV2 m) = (length (incoming2_addr m) = 16)"
| "message_ok (Msg_Connect m) = (length (connect_addr m) = 16)"
| "message_ok (Msg_RegBuffer m gpas) = (unat (reg_num_gpas m) = length gpas)"
| "message_ok (Msg_SubscribeToPeriodicStats m payload) =
     (unat (subscribe_payload_size m) = length payload)"
| "message_ok (Msg_PeriodicStatsUpdate m payload) = (unat (stats_payload_size m) = length payload)"
| "message_ok _ = True"

fun encode_message :: "ControlMessage \<Rightarrow> u8 list" where
  "encode_message (Msg_Init m) = InitMessage_bytes m"
| "encode_message (Msg_InitAck m) = InitAckMessage_bytes m"
| "encode_message (Msg_VersionedInit m) = VersionedInitMessage_bytes m"
| "encode_message (Msg_VersionedInitAck m) = VersionedInitAckMessage_bytes m"
| "encode_message (Msg_InitLlcmAck m) = InitLlcmAckMessage_bytes m"
| "encode_message (Msg_Listen m) = ListenMessage_bytes m"
| "encode_message (Msg_ListenAck m) = ListenAckMessage_bytes m"
| "encode_message (Msg_IncomingConnection m) = IncomingConnectionMessage_bytes m"
| "encode_message (Msg_IncomingConnectionV2 m) = IncomingConnectionMessageV2_bytes m"
| "encode_message (Msg_Accept m) = AcceptMessage_bytes m"
| "encode_message (Msg_AcceptAck m) = AcceptAckMessage_bytes m"
| "encode_message (Msg_CloseListenSock m) = CloseListenSockMessage_bytes m"
| "encode_message (Msg_Connect m) = ConnectMessage_bytes m"
| "encode_message (Msg_ConnectAck m) = ConnectAckMessage_bytes m"
| "encode_message (Msg_Send m) = SendMessage_bytes m"
| "encode_message (Msg_SendAck m) = SendAckMessage_bytes m"
| "encode_message (Msg_Recv m) = RecvMessage_bytes m"
| "encode_message (Msg_RecvAck m) = RecvAckMessage_bytes m"
| "encode_message (Msg_Release m) = ReleaseMessage_bytes m"
| "encode_message (Msg_CloseDataSock m) = CloseDataSockMessage_bytes m"
| "encode_message (Msg_RegBuffer m gpas) = RegBufferMessage_bytes m @ concat (map iovec_bytes gpas)"
| "encode_message (Msg_RegBufferAck m) = RegBufferAckMessage_bytes m"
| "encode_message (Msg_DeregBuffer m) = DeregBufferMessage_bytes m"
| "encode_message (Msg_DeregBufferAck m) = DeregBufferAckMessage_bytes m"
| "encode_message (Msg_Ping m) = PingMessage_bytes m"
| "encode_message (Msg_Pong m) = PongMessage_bytes m"
| "encode_message (Msg_SubscribeToPeriodicStats m payload) = SubscribeToPeriodicStatsMessage_bytes m @ payload"
| "encode_message (Msg_PeriodicStatsUpdate m payload) = PeriodicStatsUpdateMessage_bytes m @ payload"
| "encode_message Msg_InitLlcm = InitLlcmMessage_bytes"

fun decode_command :: "ControlCommand \<Rightarrow> u8 list \<Rightarrow> ControlMessage option" where
  "decode_command kInvalid bs = None"
| "decode_command kInit bs =
     map_option Msg_Init (ValidateAndGetMessage 2 InitMessage_of bs)"
| "decode_command kInitAck bs =
     map_option Msg_InitAck (ValidateAndGetMessage 2 InitAckMessage_of bs)"
| "decode_command kVersionedInit bs =
     map_option Msg_VersionedInit (ValidateAndGetMessage 266 VersionedInitMessage_of bs)"
| "decode_command kVersionedInitAck bs =
     map_option Msg_VersionedInitAck (ValidateAndGetMessage 266 VersionedInitAckMessage_of bs)"
| "decode_command kInitLlcmAck bs =
     map_option Msg_InitLlcmAck (ValidateAndGetMessage 34 InitLlcmAckMessage_of bs)"
| "decode_command kListen bs =
     map_option Msg_Listen (ValidateAndGetMessage 9 ListenMessage_of bs)"
| "decode_command kListenAck bs =
     map_option Msg_ListenAck (ValidateAndGetMessage 12 ListenAckMessage_of bs)"
| "decode_command kIncomingConnection bs =
     map_option Msg_IncomingConnection (ValidateAndGetMessage 9 IncomingConnectionMessage_of bs)"
| "decode_command kIncomingConnectionV2 bs =
     map_option Msg_IncomingConnectionV2 (ValidateAndGetMessage 28 IncomingConnectionMessageV2_of bs)"
| "decode_command kAccept bs =
     map_option Msg_Accept (ValidateAndGetMessage 17 AcceptMessage_of bs)"
| "decode_command kAcceptAck bs =
     map_option Msg_AcceptAck (ValidateAndGetMessage 10 AcceptAckMessage_of bs)"
| "decode_command kCloseListenSock bs =
     map_option Msg_CloseListenSock (ValidateAndGetMessage 9 CloseListenSockMessage_of bs)"
| "decode_command kConnect bs =
     map_option Msg_Connect (ValidateAndGetMessage 28 ConnectMessage_of bs)"
| "decode_command kConnectAck bs =
     map_option Msg_ConnectAck (ValidateAndGetMessage 11 ConnectAckMessage_of bs)"
| "decode_command kSend bs =
     map_option Msg_Send (ValidateAndGetMessage 41 SendMessage_of bs)"
| "decode_command kSendAck bs =
     map_option Msg_SendAck (ValidateAndGetMessage 11 SendAckMessage_of bs)"
| "decode_command kRecv bs =
     map_option Msg_Recv (ValidateAndGetMessage 41 RecvMessage_of bs)"
| "decode_command kRecvAck bs =
     map_option Msg_RecvAck (ValidateAndGetMessage 19 RecvAckMessage_of bs)"
| "decode_command kRelease bs =
     map_option Msg_Release (ValidateAndGetMessage 17 ReleaseMessage_of bs)"
| "decode_command kCloseDataSock bs =
     map_option Msg_CloseDataSock (ValidateAndGetMessage 9 CloseDataSockMessage_of bs)"
| "decode_command kRegBuffer bs =
     (if length bs < 4 then None
      else let m = RegBufferMessage_of bs; n = unat (reg_num_gpas m) in
        if length bs \<noteq> 4 + 16 * n then None
        else Some (Msg_RegBuffer m (iovecs_of n (drop 4 bs))))"
| "decode_command kRegBufferAck bs =
     map_option Msg_RegBufferAck (ValidateAndGetMessage 14 RegBufferAckMessage_of bs)"
| "decode_command kDeregBuffer bs =
     map_option Msg_DeregBuffer (ValidateAndGetMessage 10 DeregBufferMessage_of bs)"
| "decode_command kDeregBufferAck bs =
     map_option Msg_DeregBufferAck (ValidateAndGetMessage 2 DeregBufferAckMessage_of bs)"
| "decode_command kPing bs =
     map_option Msg_Ping (ValidateAndGetMessage 5 PingMessage_of bs)"
| "decode_command kPong bs =
     map_option Msg_Pong (ValidateAndGetMessage 5 PongMessage_of bs)"
| "decode_command kSubscribeToPeriodicStats bs =
     (if length bs < 3 then None
      else let m = SubscribeToPeriodicStatsMessage_of bs in
        if length bs \<noteq> 3 + unat (subscribe_payload_size m) then None
        else Some (Msg_SubscribeToPeriodicStats m (drop 3 bs)))"
| "decode_command kPeriodicStatsUpdate bs =
     (if length bs < 3 then None
      else let m = PeriodicStatsUpdateMessage_of bs in
        if length bs \<noteq> 3 + unat (stats_payload_size m) then None
        else Some (Msg_PeriodicStatsUpdate m (drop 3 bs)))"
| "decode_command kInitLlcm bs =
     ValidateAndGetMessage 1 (\<lambda>_. Msg_InitLlcm) bs"

definition decode_message :: "u8 list \<Rightarrow> ControlMessage option" where
  "decode_message bs =
     (case bs of [] \<Rightarrow> None
      | b # _ \<Rightarrow> (case command_of b of None \<Rightarrow> None | Some c \<Rightarrow> decode_command c bs))"

section \<open>Reading back what was written\<close>

lemma command_of_code [simp]: "command_of (command_code c) = Some c"
  by (cases c) (simp_all add: command_of_def all_commands_def)

lemma length_put [simp, wire_simps]:
  "length (put16 x) = 2" "length (put32 y) = 4" "length (put64 z) = 8"
  by (simp_all add: put16_def put32_def put64_def)

lemma read_put [simp, wire_simps]:
  "of_nat (le_nat (put16 x)) = x" "of_nat (le_nat (put32 y)) = y" "of_nat (le_nat (put64 z)) = z"
  using unat_u16_less [of x] unat_u32_less [of y] unat_u64_less [of z]
  by (simp_all add: put16_def put32_def put64_def)

lemmas struct_defs [wire_simps] =
  InitMessage_bytes_def InitMessage_of_def InitAckMessage_bytes_def InitAckMessage_of_def
  VersionedInitMessage_bytes_def VersionedInitMessage_of_def
  VersionedInitAckMessage_bytes_def VersionedInitAckMessage_of_def
  InitLlcmMessage_bytes_def InitLlcmAckMessage_bytes_def InitLlcmAckMessage_of_def
  ListenMessage_bytes_def ListenMessage_of_def ListenAckMessage_bytes_def ListenAckMessage_of_def
  IncomingConnectionMessage_bytes_def IncomingConnectionMessage_of_def
  IncomingConnectionMessageV2_bytes_def IncomingConnectionMessageV2_of_def
  AcceptMessage_bytes_def AcceptMessage_of_def AcceptAckMessage_bytes_def AcceptAckMessage_of_def
  CloseListenSockMessage_bytes_def CloseListenSockMessage_of_def
  ConnectMessage_bytes_def ConnectMessage_of_def ConnectAckMessage_bytes_def ConnectAckMessage_of_def
  SendMessage_bytes_def SendMessage_of_def SendAckMessage_bytes_def SendAckMessage_of_def
  RecvMessage_bytes_def RecvMessage_of_def RecvAckMessage_bytes_def RecvAckMessage_of_def
  ReleaseMessage_bytes_def ReleaseMessage_of_def
  CloseDataSockMessage_bytes_def CloseDataSockMessage_of_def
  RegBufferMessage_bytes_def RegBufferMessage_of_def
  RegBufferAckMessage_bytes_def RegBufferAckMessage_of_def
  DeregBufferMessage_bytes_def DeregBufferMessage_of_def
  DeregBufferAckMessage_bytes_def DeregBufferAckMessage_of_def
  PingMessage_bytes_def PingMessage_of_def PongMessage_bytes_def PongMessage_of_def
  SubscribeToPeriodicStatsMessage_bytes_def SubscribeToPeriodicStatsMessage_of_def
  PeriodicStatsUpdateMessage_bytes_def PeriodicStatsUpdateMessage_of_def
  ValidateAndGetMessage_def

lemmas layout_simps = get16_def get32_def get64_def drop_Cons' nth_Cons' nth_append

lemma iovec_bytes_length [simp]: "length (iovec_bytes v) = 16"
  by (simp add: iovec_bytes_def)

lemma iovecs_length: "length (concat (map iovec_bytes vs)) = 16 * length vs"
  by (induction vs) simp_all

lemma iovecs_of_bytes: "iovecs_of (length vs) (concat (map iovec_bytes vs)) = vs"
  by (induction vs) (simp_all add: iovec_of_def iovec_bytes_def layout_simps)

lemma decode_message_command [simp]:
  "decode_message (command_code c # bs) = decode_command c (command_code c # bs)"
  by (simp add: decode_message_def)

section \<open>Properties\<close>



end
