(* ===== verification/Llcm_Handler.thy ===== *)
theory Llcm_Handler
  imports Spsc_Messaging_Queue_Pair Control_Command
begin

text \<open>
  The handler of the low-latency control message queue, \<^verbatim>\<open>dxs/client/llcm-handler.{h,cc}\<close>. The
  messaging queue \<^verbatim>\<open>llcmq_\<close> is used through its two operations \<open>send\<close> and \<open>recv\<close> on a state
  \<open>'s\<close>, the slow handler through \<open>slow_send\<close> on a state \<open>'t\<close>; \<open>message_channel\<close> is the contract of the
  former, which the two-ended messaging queue fulfils. Each operation runs under the handler's
  mutex. Calls on the receiver are returned as events; the receiver is assumed not to call back
  into the handler, whose mutex is held.
\<close>

section \<open>State and operations\<close>

datatype receiver_event = ReceiveControlMessage "u8 list" | OnControlChannelFailure

text \<open>The queue of messages that did not fit, oldest first, and the state of the messaging queue.\<close>

record 's LlcmHandler =
  overflow :: "u8 list list"
  llcmq :: 's

fun TrySendLlcmOverflow ::
    "(u8 list \<Rightarrow> 's \<Rightarrow> StatusCode \<times> 's) \<Rightarrow> u8 list list \<Rightarrow> 's \<Rightarrow> StatusCode \<times> u8 list list \<times> 's" where
  "TrySendLlcmOverflow send [] s = (kOk, [], s)"
| "TrySendLlcmOverflow send (message # rest) s =
     (case send message s of (code, s') \<Rightarrow>
        if code \<noteq> kOk then (code, message # rest, s')
        else TrySendLlcmOverflow send rest s')"

definition LlcmSendLockHeld ::
    "(u8 list \<Rightarrow> 's \<Rightarrow> StatusCode \<times> 's) \<Rightarrow> u8 list \<Rightarrow> 's LlcmHandler \<Rightarrow> StatusCode \<times> 's LlcmHandler" where
  "LlcmSendLockHeld send buffer h =
     (case TrySendLlcmOverflow send (overflow h) (llcmq h) of (code, overflow1, s1) \<Rightarrow>
        if code = kResourceExhausted
        then (kOk, h\<lparr>overflow := overflow1 @ [buffer], llcmq := s1\<rparr>)
        else if code \<noteq> kOk then (code, h\<lparr>overflow := overflow1, llcmq := s1\<rparr>)
        else case send buffer s1 of (code2, s2) \<Rightarrow>
          if code2 = kResourceExhausted
          then (kOk, h\<lparr>overflow := overflow1 @ [buffer], llcmq := s2\<rparr>)
          else if code2 \<noteq> kOk then (code2, h\<lparr>overflow := overflow1, llcmq := s2\<rparr>)
          else (kOk, h\<lparr>overflow := overflow1, llcmq := s2\<rparr>))"

definition LlcmSend ::
    "(u8 list \<Rightarrow> 's \<Rightarrow> StatusCode \<times> 's) \<Rightarrow> u8 list \<Rightarrow> 's LlcmHandler \<Rightarrow> StatusCode \<times> 's LlcmHandler" where
  "LlcmSend send buffer h = LlcmSendLockHeld send buffer h"

text \<open>
  \<open>slow_send\<close> is \<open>None\<close> when there is no slow handler. The first byte of an empty buffer does not
  exist, so that case has no result.
\<close>

definition SendControlMessage ::
    "(u8 list \<Rightarrow> 's \<Rightarrow> StatusCode \<times> 's) \<Rightarrow> (u8 list \<Rightarrow> 't \<Rightarrow> StatusCode \<times> 't) option \<Rightarrow> u8 list
      \<Rightarrow> 's LlcmHandler \<times> 't \<Rightarrow> (StatusCode \<times> 's LlcmHandler \<times> 't) option" where
  "SendControlMessage send slow_send buffer = (\<lambda>(h, t).
     case slow_send of
       None \<Rightarrow> (case LlcmSend send buffer h of (status, h') \<Rightarrow> Some (status, h', t))
     | Some slow \<Rightarrow>
         (case buffer of
            [] \<Rightarrow> None
          | command # _ \<Rightarrow>
              if command \<in> command_code ` {kSend, kSendAck, kRecv, kRecvAck, kRelease, kPing, kPong}
              then (case LlcmSend send buffer h of (status, h') \<Rightarrow> Some (status, h', t))
              else (case slow buffer t of (status, t') \<Rightarrow> Some (status, h, t'))))"

definition LlcmRecv ::
    "(u8 list \<Rightarrow> 's \<Rightarrow> StatusCode \<times> 's) \<Rightarrow> ('s \<Rightarrow> u8 list StatusOr \<times> 's) \<Rightarrow> 's LlcmHandler
      \<Rightarrow> bool \<times> receiver_event list \<times> 's LlcmHandler" where
  "LlcmRecv send recv h =
     (case recv (llcmq h) of
        (Inl code, s1) \<Rightarrow>
          if code = kUnavailable then (False, [], h\<lparr>llcmq := s1\<rparr>)
          else (True, [OnControlChannelFailure], h\<lparr>llcmq := s1\<rparr>)
      | (Inr buffer, s1) \<Rightarrow>
          if length buffer = 5 \<and> buffer ! 0 = command_code kPing
          then (case ValidateAndGetMessage 5 PingMessage_of buffer of
                  None \<Rightarrow> (True, [], h\<lparr>llcmq := s1\<rparr>)
                | Some message \<Rightarrow>
                    (case LlcmSendLockHeld send (PongMessage_bytes \<lparr>pong_seq = ping_seq message\<rparr>)
                            (h\<lparr>llcmq := s1\<rparr>) of
                       (_, h') \<Rightarrow> (True, [], h')))
          else (True, [ReceiveControlMessage buffer], h\<lparr>llcmq := s1\<rparr>))"

definition kBatchSize :: nat where "kBatchSize = 256"

fun RxPoll_loop ::
    "(u8 list \<Rightarrow> 's \<Rightarrow> StatusCode \<times> 's) \<Rightarrow> ('s \<Rightarrow> u8 list StatusOr \<times> 's) \<Rightarrow> nat \<Rightarrow> 's LlcmHandler
      \<Rightarrow> receiver_event list \<times> 's LlcmHandler" where
  "RxPoll_loop send recv 0 h = ([], h)"
| "RxPoll_loop send recv (Suc n) h =
     (case LlcmRecv send recv h of (called, events, h1) \<Rightarrow>
        if \<not> called then (events, h1)
        else (case RxPoll_loop send recv n h1 of (events2, h2) \<Rightarrow> (events @ events2, h2)))"

definition RxPoll ::
    "(u8 list \<Rightarrow> 's \<Rightarrow> StatusCode \<times> 's) \<Rightarrow> ('s \<Rightarrow> u8 list StatusOr \<times> 's) \<Rightarrow> 's LlcmHandler
      \<Rightarrow> receiver_event list \<times> 's LlcmHandler" where
  "RxPoll send recv h =
     (case TrySendLlcmOverflow send (overflow h) (llcmq h) of (code, overflow1, s1) \<Rightarrow>
        let h1 = h\<lparr>overflow := overflow1, llcmq := s1\<rparr> in
        if code \<noteq> kOk \<and> code \<noteq> kResourceExhausted then ([OnControlChannelFailure], h1)
        else RxPoll_loop send recv kBatchSize h1)"

definition LlcmHandler_Init :: "byte_span \<Rightarrow> byte_span \<Rightarrow> SpscQueuePair StatusOr option" where
  "LlcmHandler_Init local_memory remote_memory = Create local_memory remote_memory"

text \<open>Without a slow handler there is no object to shut down: the call has no result.\<close>

definition LlcmHandler_Shutdown :: "('t \<Rightarrow> StatusCode \<times> 't) option \<Rightarrow> 't \<Rightarrow> (StatusCode \<times> 't) option" where
  "LlcmHandler_Shutdown slow_shutdown t =
     (case slow_shutdown of None \<Rightarrow> None | Some shutdown \<Rightarrow> Some (shutdown t))"

section \<open>Specification\<close>

text \<open>What the peer will still get, in order: the messages in the channel, then the overflow.\<close>

definition pending :: "('s \<Rightarrow> u8 list list) \<Rightarrow> 's LlcmHandler \<Rightarrow> u8 list list" where
  "pending outgoing h = outgoing (llcmq h) @ overflow h"

definition handler_ok :: "('s \<Rightarrow> bool) \<Rightarrow> (u8 list \<Rightarrow> bool) \<Rightarrow> 's LlcmHandler \<Rightarrow> bool" where
  "handler_ok invar acceptable h \<longleftrightarrow> invar (llcmq h) \<and> list_all acceptable (overflow h)"

text \<open>A ping is answered by the handler itself, with the pong that carries its number.\<close>

definition is_ping :: "u8 list \<Rightarrow> bool" where
  "is_ping m \<longleftrightarrow> length m = 5 \<and> m ! 0 = command_code kPing"

definition pong_for :: "u8 list \<Rightarrow> u8 list" where
  "pong_for m = PongMessage_bytes \<lparr>pong_seq = ping_seq (PingMessage_of m)\<rparr>"

text \<open>The messages of the data path and the liveness probes.\<close>

fun fast_path :: "ControlMessage \<Rightarrow> bool" where
  "fast_path (Msg_Send _) = True"
| "fast_path (Msg_SendAck _) = True"
| "fast_path (Msg_Recv _) = True"
| "fast_path (Msg_RecvAck _) = True"
| "fast_path (Msg_Release _) = True"
| "fast_path (Msg_Ping _) = True"
| "fast_path (Msg_Pong _) = True"
| "fast_path _ = False"

definition acceptable_size :: "u8 list \<Rightarrow> bool" where
  "acceptable_size m \<longleftrightarrow> length m \<le> kMaxMessageSize"

text \<open>
  Two handlers on the two ends of a messaging queue. The history fields hold the messages each end
  has handed to the queue (pongs included), those it has taken out, and the calls on its
  receiver. \<open>ha\<close> and \<open>aa\<close> give the addresses of the header and of the message at each call.
\<close>

record llcm_pair =
  lp_dx :: duplex
  lp_over_a :: "u8 list list"
  lp_over_b :: "u8 list list"
  lp_sent_a :: "u8 list list"
  lp_sent_b :: "u8 list list"
  lp_taken_a :: "u8 list list"
  lp_taken_b :: "u8 list list"
  lp_events_a :: "receiver_event list"
  lp_events_b :: "receiver_event list"

definition flip_pair :: "llcm_pair \<Rightarrow> llcm_pair" where
  "flip_pair s = \<lparr>lp_dx = swap_ends (lp_dx s),
     lp_over_a = lp_over_b s, lp_over_b = lp_over_a s,
     lp_sent_a = lp_sent_b s, lp_sent_b = lp_sent_a s,
     lp_taken_a = lp_taken_b s, lp_taken_b = lp_taken_a s,
     lp_events_a = lp_events_b s, lp_events_b = lp_events_a s\<rparr>"

definition lp_handler :: "llcm_pair \<Rightarrow> duplex LlcmHandler" where
  "lp_handler s = \<lparr>overflow = lp_over_a s, llcmq = lp_dx s\<rparr>"

abbreviation lp_send :: "(u8 list \<Rightarrow> u64) \<Rightarrow> (u8 list \<Rightarrow> u64) \<Rightarrow> u8 list \<Rightarrow> duplex \<Rightarrow> StatusCode \<times> duplex" where
  "lp_send ha aa \<equiv> \<lambda>m. dx_send (ha m) (aa m) m"

inductive a_step :: "llcm_pair \<Rightarrow> llcm_pair \<Rightarrow> bool" where
  a_send: "acceptable_size m \<Longrightarrow> LlcmSend (lp_send ha aa) m (lp_handler s) = (status, h) \<Longrightarrow>
    a_step s (s\<lparr>lp_dx := llcmq h, lp_over_a := overflow h,
      lp_sent_a := lp_sent_a s @ (if status = kOk then [m] else [])\<rparr>)"
| a_poll: "RxPoll (lp_send ha aa) dx_recv (lp_handler s) = (events, h) \<Longrightarrow>
    batch = take kBatchSize (dx_incoming (lp_dx s)) \<Longrightarrow>
    a_step s (s\<lparr>lp_dx := llcmq h, lp_over_a := overflow h,
      lp_sent_a := lp_sent_a s @ map pong_for (filter is_ping batch),
      lp_taken_a := lp_taken_a s @ batch, lp_events_a := lp_events_a s @ events\<rparr>)"

inductive pair_step :: "llcm_pair \<Rightarrow> llcm_pair \<Rightarrow> bool" where
  end_a: "a_step s s' \<Longrightarrow> pair_step s s'"
| end_b: "a_step (flip_pair s) s' \<Longrightarrow> pair_step s (flip_pair s')"

definition pair_init :: "llcm_pair \<Rightarrow> bool" where
  "pair_init s \<longleftrightarrow> dx_inv (lp_dx s) \<and> dx_outgoing (lp_dx s) = [] \<and> dx_incoming (lp_dx s) = [] \<and>
     lp_over_a s = [] \<and> lp_over_b s = [] \<and> lp_sent_a s = [] \<and> lp_sent_b s = [] \<and>
     lp_taken_a s = [] \<and> lp_taken_b s = [] \<and> lp_events_a s = [] \<and> lp_events_b s = []"

definition delivered :: "u8 list list \<Rightarrow> receiver_event list" where
  "delivered ms = map ReceiveControlMessage (filter (\<lambda>m. \<not> is_ping m) ms)"

definition pair_inv :: "llcm_pair \<Rightarrow> bool" where
  "pair_inv s \<longleftrightarrow> dx_inv (lp_dx s) \<and>
     list_all acceptable_size (lp_over_a s) \<and> list_all acceptable_size (lp_over_b s) \<and>
     lp_sent_a s = lp_taken_b s @ dx_outgoing (lp_dx s) @ lp_over_a s \<and>
     lp_sent_b s = lp_taken_a s @ dx_incoming (lp_dx s) @ lp_over_b s \<and>
     lp_events_a s = delivered (lp_taken_a s) \<and> lp_events_b s = delivered (lp_taken_b s)"

section \<open>The contract of the messaging queue\<close>

text \<open>
  A two-way channel as one of its ends sees it: \<open>outgoing\<close> are the messages the peer has not taken
  yet, \<open>incoming\<close> those we have not taken.
\<close>

locale message_channel =
  fixes invar :: "'s \<Rightarrow> bool"
    and outgoing :: "'s \<Rightarrow> u8 list list"
    and incoming :: "'s \<Rightarrow> u8 list list"
    and acceptable :: "u8 list \<Rightarrow> bool"
    and send :: "u8 list \<Rightarrow> 's \<Rightarrow> StatusCode \<times> 's"
    and recv :: "'s \<Rightarrow> u8 list StatusOr \<times> 's"
  assumes send_invar: "invar s \<Longrightarrow> send m s = (status, s') \<Longrightarrow> invar s'"
    and send_incoming: "invar s \<Longrightarrow> send m s = (status, s') \<Longrightarrow> incoming s' = incoming s"
    and send_outgoing: "invar s \<Longrightarrow> send m s = (status, s') \<Longrightarrow>
      outgoing s' = (if status = kOk then outgoing s @ [m] else outgoing s)"
    and send_status: "invar s \<Longrightarrow> send m s = (status, s') \<Longrightarrow>
      (if acceptable m then status \<in> {kOk, kResourceExhausted} else status = kInvalidArgument)"
    and recv_Nil: "invar s \<Longrightarrow> incoming s = [] \<Longrightarrow> recv s = (Inl kUnavailable, s)"
    and recv_Cons: "invar s \<Longrightarrow> incoming s = m # ms \<Longrightarrow>
      \<exists>s'. recv s = (Inr m, s') \<and> invar s' \<and> incoming s' = ms \<and> outgoing s' = outgoing s"
begin

lemma TrySend_effect:
  assumes "invar s" and "TrySendLlcmOverflow send ms s = (code, ms', s')"
  shows "invar s' \<and> incoming s' = incoming s \<and> outgoing s' @ ms' = outgoing s @ ms \<and>
    (code = kOk \<longleftrightarrow> ms' = []) \<and> set ms' \<subseteq> set ms \<and>
    ((\<forall>m \<in> set ms. acceptable m) \<longrightarrow> code \<in> {kOk, kResourceExhausted})"
  using assms
proof (induction ms arbitrary: s)
  case (Cons m ms)
  obtain c s1 where s1: "send m s = (c, s1)" by fastforce
  note effect = send_invar [OF Cons.prems(1) s1] send_incoming [OF Cons.prems(1) s1]
    send_outgoing [OF Cons.prems(1) s1] send_status [OF Cons.prems(1) s1]
  show ?case
  proof (cases "c = kOk")
    case True
    with Cons.prems(2) s1 have "TrySendLlcmOverflow send ms s1 = (code, ms', s')" by simp
    from Cons.IH [OF effect(1) this] effect True show ?thesis by auto
  next
    case False
    with Cons.prems(2) s1 effect show ?thesis by (auto split: if_splits)
  qed
qed simp

lemma LlcmSend_effect:
  assumes inv: "invar (llcmq h)" and send: "LlcmSendLockHeld send m h = (status, h')"
  shows "invar (llcmq h') \<and> incoming (llcmq h') = incoming (llcmq h) \<and>
    pending outgoing h' = (if status = kOk then pending outgoing h @ [m] else pending outgoing h)"
proof -
  obtain c ms1 s1 where over1: "TrySendLlcmOverflow send (overflow h) (llcmq h) = (c, ms1, s1)"
    by (metis prod_cases3)
  note t = TrySend_effect [OF inv over1]
  obtain c2 s2 where s2: "send m s1 = (c2, s2)" by fastforce
  have "invar s1" using t by simp
  note effect = send_invar [OF this s2] send_incoming [OF this s2] send_outgoing [OF this s2]
  show ?thesis
    using t effect send s2
    by (auto simp: LlcmSendLockHeld_def over1 pending_def split: if_splits)
qed

lemma LlcmSend_ok:
  assumes ok: "handler_ok invar acceptable h" and m: "acceptable m"
  obtains h' where "LlcmSendLockHeld send m h = (kOk, h')" "handler_ok invar acceptable h'"
    "incoming (llcmq h') = incoming (llcmq h)" "pending outgoing h' = pending outgoing h @ [m]"
proof -
  have inv: "invar (llcmq h)" and over: "\<forall>m \<in> set (overflow h). acceptable m"
    using ok by (simp_all add: handler_ok_def list_all_iff)
  obtain c ms1 s1 where over1: "TrySendLlcmOverflow send (overflow h) (llcmq h) = (c, ms1, s1)"
    by (metis prod_cases3)
  note t = TrySend_effect [OF inv over1]
  obtain c2 s2 where s2: "send m s1 = (c2, s2)" by fastforce
  have "invar s1" using t by simp
  then have c2: "c2 \<in> {kOk, kResourceExhausted}" using send_status [of s1 m c2 s2] s2 m by simp
  obtain status h' where send: "LlcmSendLockHeld send m h = (status, h')" by fastforce
  have "status = kOk \<and> set (overflow h') \<subseteq> set (overflow h) \<union> {m}"
    using t over c2 send s2 by (auto simp: LlcmSendLockHeld_def over1 split: if_splits)
  with LlcmSend_effect [OF inv send] send over m show thesis
    by (intro that [of h']) (auto simp: handler_ok_def list_all_iff)
qed

lemma LlcmRecv_Nil:
  assumes "invar (llcmq h)" and "incoming (llcmq h) = []"
  shows "LlcmRecv send recv h = (False, [], h)"
  by (simp add: LlcmRecv_def recv_Nil [OF assms])

lemma LlcmRecv_Cons:
  assumes ok: "handler_ok invar acceptable h" and inc: "incoming (llcmq h) = m # ms"
    and pong: "\<And>x. acceptable (PongMessage_bytes x)"
  obtains h' where
    "LlcmRecv send recv h = (True, if is_ping m then [] else [ReceiveControlMessage m], h')"
    "handler_ok invar acceptable h'" "incoming (llcmq h') = ms"
    "pending outgoing h' = (if is_ping m then pending outgoing h @ [pong_for m] else pending outgoing h)"
proof -
  have inv: "invar (llcmq h)" using ok by (simp add: handler_ok_def)
  obtain s1 where s1: "recv (llcmq h) = (Inr m, s1)" "invar s1" "incoming s1 = ms"
    "outgoing s1 = outgoing (llcmq h)"
    using recv_Cons [OF inv inc] by blast
  let ?h1 = "h\<lparr>llcmq := s1\<rparr>"
  have ok1: "handler_ok invar acceptable ?h1" using ok s1(2) by (simp add: handler_ok_def)
  have pend: "pending outgoing ?h1 = pending outgoing h" by (simp add: pending_def s1(4))
  show thesis
  proof (cases "is_ping m")
    case True
    obtain h' where h': "LlcmSendLockHeld send (pong_for m) ?h1 = (kOk, h')"
      "handler_ok invar acceptable h'" "incoming (llcmq h') = incoming (llcmq ?h1)"
      "pending outgoing h' = pending outgoing ?h1 @ [pong_for m]"
      by (rule LlcmSend_ok [OF ok1, of "pong_for m"]) (simp add: pong pong_for_def)
    have "LlcmRecv send recv h = (True, [], h')"
      using True h'(1) s1(1)
      by (simp add: LlcmRecv_def is_ping_def ValidateAndGetMessage_def pong_for_def)
    then show thesis using True h' s1(3) by (intro that [of h']) (simp_all add: pend)
  next
    case False
    then have "LlcmRecv send recv h = (True, [ReceiveControlMessage m], ?h1)"
      using s1(1) by (auto simp: LlcmRecv_def is_ping_def)
    then show thesis using False ok1 s1(3) by (intro that [of ?h1]) (simp_all add: pend)
  qed
qed

lemma RxPoll_loop_effect:
  assumes "handler_ok invar acceptable h" and pong: "\<And>x. acceptable (PongMessage_bytes x)"
    and "RxPoll_loop send recv n h = (events, h')"
  shows "handler_ok invar acceptable h' \<and>
    incoming (llcmq h') = drop n (incoming (llcmq h)) \<and>
    events = map ReceiveControlMessage (filter (\<lambda>m. \<not> is_ping m) (take n (incoming (llcmq h)))) \<and>
    pending outgoing h' = pending outgoing h @ map pong_for (filter is_ping (take n (incoming (llcmq h))))"
  using assms(1,3)
proof (induction n arbitrary: h h' events)
  case (Suc n)
  show ?case
  proof (cases "incoming (llcmq h)")
    case Nil
    have "invar (llcmq h)" using Suc.prems(1) by (simp add: handler_ok_def)
    with LlcmRecv_Nil [OF this Nil] Suc.prems Nil show ?thesis by simp
  next
    case (Cons m ms)
    obtain h1 where h1: "LlcmRecv send recv h
        = (True, if is_ping m then [] else [ReceiveControlMessage m], h1)"
      "handler_ok invar acceptable h1" "incoming (llcmq h1) = ms"
      "pending outgoing h1 = (if is_ping m then pending outgoing h @ [pong_for m] else pending outgoing h)"
      by (rule LlcmRecv_Cons [OF Suc.prems(1) Cons pong])
    obtain events2 h2 where h2: "RxPoll_loop send recv n h1 = (events2, h2)" by fastforce
    have "events = (if is_ping m then [] else [ReceiveControlMessage m]) @ events2" "h' = h2"
      using Suc.prems(2) h1(1) h2 by auto
    with Suc.IH [OF h1(2) h2] h1(3,4) Cons show ?thesis by simp
  qed
qed simp

lemma RxPoll_effect:
  assumes ok: "handler_ok invar acceptable h" and pong: "\<And>x. acceptable (PongMessage_bytes x)"
    and poll: "RxPoll send recv h = (events, h')"
  shows "handler_ok invar acceptable h' \<and>
    incoming (llcmq h') = drop kBatchSize (incoming (llcmq h)) \<and>
    events = map ReceiveControlMessage
      (filter (\<lambda>m. \<not> is_ping m) (take kBatchSize (incoming (llcmq h)))) \<and>
    pending outgoing h' = pending outgoing h
      @ map pong_for (filter is_ping (take kBatchSize (incoming (llcmq h))))"
proof -
  obtain c ms1 s1 where over1: "TrySendLlcmOverflow send (overflow h) (llcmq h) = (c, ms1, s1)"
    by (metis prod_cases3)
  have inv: "invar (llcmq h)" and over: "\<forall>m \<in> set (overflow h). acceptable m"
    using ok by (simp_all add: handler_ok_def list_all_iff)
  note t = TrySend_effect [OF inv over1]
  let ?h1 = "h\<lparr>overflow := ms1, llcmq := s1\<rparr>"
  have ok1: "handler_ok invar acceptable ?h1"
    using t over by (auto simp: handler_ok_def list_all_iff)
  have "RxPoll_loop send recv kBatchSize ?h1 = (events, h')"
    using poll t over by (auto simp: RxPoll_def over1 Let_def)
  from RxPoll_loop_effect [OF ok1 pong this] t show ?thesis
    by (simp add: pending_def)
qed

text \<open>An oversize message at the head of the overflow stops the queue for good.\<close>

lemma blocked_send:
  assumes "invar (llcmq h)" and "overflow h = x # xs" and "\<not> acceptable x"
  obtains s' where "LlcmSendLockHeld send m h = (kInvalidArgument, h\<lparr>llcmq := s'\<rparr>)" "invar s'"
    "outgoing s' = outgoing (llcmq h)"
proof -
  obtain c s1 where s1: "send x (llcmq h) = (c, s1)" by fastforce
  have "c = kInvalidArgument" using send_status [OF assms(1) s1] assms(3) by simp
  with s1 have "LlcmSendLockHeld send m h = (kInvalidArgument, h\<lparr>llcmq := s1\<rparr>)"
    using assms(2) by (simp add: LlcmSendLockHeld_def)
  then show thesis
    using send_invar [OF assms(1) s1] send_outgoing [OF assms(1) s1] \<open>c = kInvalidArgument\<close>
    by (intro that [of s1]) simp_all
qed

end

section \<open>The messaging queue fulfils the contract\<close>

interpretation dx_channel: message_channel dx_inv dx_outgoing dx_incoming acceptable_size
    "\<lambda>m. dx_send (ha m) (aa m) m" dx_recv
  for ha aa :: "u8 list \<Rightarrow> u64"
proof
  fix s m status s'
  assume inv: "dx_inv s" and send: "dx_send (ha m) (aa m) m s = (status, s')"
  have all: "dx_inv s' \<and> dx_incoming s' = dx_incoming s \<and>
    dx_outgoing s' = (if status = kOk then dx_outgoing s @ [m] else dx_outgoing s) \<and>
    (if acceptable_size m then status \<in> {kOk, kResourceExhausted} else status = kInvalidArgument)"
    by (rule dx_send_cases [OF inv, of m "ha m" "aa m"]) (use inv send in \<open>auto simp: acceptable_size_def\<close>)
  from all show "dx_inv s'" by simp
  from all show "dx_incoming s' = dx_incoming s" by simp
  from all show "dx_outgoing s' = (if status = kOk then dx_outgoing s @ [m] else dx_outgoing s)" by simp
  from all show "if acceptable_size m then status \<in> {kOk, kResourceExhausted} else status = kInvalidArgument"
    by (elim conjE)
next
  fix s assume "dx_inv s" and "dx_incoming s = []"
  then show "dx_recv s = (Inl kUnavailable, s)" by (rule dx_recv_Nil)
next
  fix s m ms assume "dx_inv s" and "dx_incoming s = m # ms"
  then show "\<exists>s'. dx_recv s = (Inr m, s') \<and> dx_inv s' \<and> dx_incoming s' = ms \<and> dx_outgoing s' = dx_outgoing s"
    by (rule dx_recv_Cons) blast
qed

lemma pong_acceptable: "acceptable_size (PongMessage_bytes x)"
  by (simp add: acceptable_size_def PongMessage_bytes_def kMaxMessageSize_def)

lemma pair_inv_flip: "pair_inv s \<Longrightarrow> pair_inv (flip_pair s)"
  by (simp add: pair_inv_def flip_pair_def)

lemma pair_inv_handler:
  assumes "pair_inv s"
  shows "handler_ok dx_inv acceptable_size (lp_handler s)"
    and "pending dx_outgoing (lp_handler s) = dx_outgoing (lp_dx s) @ lp_over_a s"
    and "llcmq (lp_handler s) = lp_dx s"
  using assms by (simp_all add: pair_inv_def handler_ok_def lp_handler_def pending_def)

lemma a_step_inv:
  assumes "a_step s s'" and "pair_inv s"
  shows "pair_inv s'"
  using assms
proof (induction rule: a_step.induct)
  case (a_send m ha aa s status h)
  note h = pair_inv_handler [OF a_send.prems]
  obtain h' where h': "LlcmSendLockHeld (lp_send ha aa) m (lp_handler s) = (kOk, h')"
    "handler_ok dx_inv acceptable_size h'" "dx_incoming (llcmq h') = dx_incoming (llcmq (lp_handler s))"
    "pending dx_outgoing h' = pending dx_outgoing (lp_handler s) @ [m]"
    by (rule dx_channel.LlcmSend_ok [OF h(1) a_send.hyps(1)])
  have "status = kOk" "h' = h" using a_send.hyps(2) h'(1) by (simp_all add: LlcmSend_def)
  with a_send.prems h' h show ?case by (simp add: pair_inv_def handler_ok_def pending_def)
next
  case (a_poll ha aa s events h batch)
  note h = pair_inv_handler [OF a_poll.prems]
  from dx_channel.RxPoll_effect [OF h(1) pong_acceptable a_poll.hyps(1)] a_poll.hyps(2) a_poll.prems h
  show ?case
    by (simp add: pair_inv_def handler_ok_def pending_def delivered_def)
qed

lemma pair_step_inv: "pair_step s s' \<Longrightarrow> pair_inv s \<Longrightarrow> pair_inv s'"
  by (induction rule: pair_step.induct) (auto intro: a_step_inv pair_inv_flip)

lemma pair_init_inv: "pair_init s \<Longrightarrow> pair_inv s"
  by (simp add: pair_init_def pair_inv_def delivered_def)

lemma pair_reachable_inv:
  assumes "pair_step\<^sup>*\<^sup>* s0 s" and "pair_init s0"
  shows "pair_inv s"
  using assms by (induction rule: rtranclp_induct) (auto intro: pair_init_inv pair_step_inv)

section \<open>Properties\<close>

text \<open>Two handlers on idle ends.\<close>

definition idle_pair :: llcm_pair where
  "idle_pair = \<lparr>lp_dx = \<lparr>dx_qa = idle_end, dx_qb = idle_end, dx_ra = idle_region, dx_rb = idle_region\<rparr>,
     lp_over_a = [], lp_over_b = [], lp_sent_a = [], lp_sent_b = [],
     lp_taken_a = [], lp_taken_b = [], lp_events_a = [], lp_events_b = []\<rparr>"

lemma idle_pair_init: "pair_init idle_pair"
  using idle_messages messages_frames [OF idle_messages]
  by (simp add: pair_init_def idle_pair_def dx_inv_def dx_outgoing_def dx_incoming_def)

lemma pair_can_send:
  assumes "pair_inv s" and "acceptable_size m"
  obtains s' where "pair_step s s'" "lp_sent_a s' = lp_sent_a s @ [m]"
proof -
  obtain h' where h': "LlcmSendLockHeld (lp_send (\<lambda>_. 0) (\<lambda>_. 0)) m (lp_handler s) = (kOk, h')"
    by (rule dx_channel.LlcmSend_ok [OF pair_inv_handler(1) [OF assms(1)] assms(2)])
  let ?s = "s\<lparr>lp_dx := llcmq h', lp_over_a := overflow h',
      lp_sent_a := lp_sent_a s @ (if kOk = kOk then [m] else [])\<rparr>"
  have "a_step s ?s"
    by (rule a_step.a_send [OF assms(2), of "\<lambda>_. 0" "\<lambda>_. 0"]) (simp add: LlcmSend_def h')
  then show thesis by (intro that [of ?s]) (auto intro: pair_step.end_a)
qed

text \<open>
  C2: with a handler on each end, sending and polling in any order, the messages one end has
  accepted (pongs it sent included) are those the other end has taken, followed by those in the
  ring and those in the overflow queue: nothing is lost, duplicated or reordered, also when the ring
  runs full. The receiver of each end has been called with exactly the messages taken that are not pings.
\<close>

theorem llcm_fifo:
  assumes "pair_init s0" and "pair_step\<^sup>*\<^sup>* s0 s"
  shows "lp_sent_a s = lp_taken_b s @ dx_outgoing (lp_dx s) @ lp_over_a s \<and>
    lp_sent_b s = lp_taken_a s @ dx_incoming (lp_dx s) @ lp_over_b s \<and>
    lp_events_a s = delivered (lp_taken_a s) \<and> lp_events_b s = delivered (lp_taken_b s)"
  using pair_reachable_inv [OF assms(2,1)] by (simp add: pair_inv_def)

theorem llcm_fifo_witness:
  "\<exists>s. pair_step\<^sup>*\<^sup>* idle_pair s \<and> lp_sent_a s = [[1, 2, 3]] \<and>
     lp_sent_a s = lp_taken_b s @ dx_outgoing (lp_dx s) @ lp_over_a s"
proof -
  have inv: "pair_inv idle_pair" by (rule pair_init_inv [OF idle_pair_init])
  obtain s where s: "pair_step idle_pair s" "lp_sent_a s = lp_sent_a idle_pair @ [[1, 2, 3]]"
    by (rule pair_can_send [OF inv, of "[1, 2, 3]"]) (auto simp: acceptable_size_def kMaxMessageSize_def)
  then have "pair_step\<^sup>*\<^sup>* idle_pair s" by blast
  with llcm_fifo [OF idle_pair_init this] s(2) show ?thesis by (auto simp: idle_pair_def)
qed

text \<open>
  One poll takes up to 256 messages from the channel, hands every one that is not a ping to the
  receiver in order, answers each ping with the pong that carries its number, and reports no
  failure.
\<close>

theorem RxPoll_batch:
  assumes "handler_ok dx_inv acceptable_size h"
  shows "case RxPoll (\<lambda>m. dx_send (ha m) (aa m) m) dx_recv h of (events, h') \<Rightarrow>
    events = delivered (take 256 (dx_incoming (llcmq h))) \<and>
    dx_incoming (llcmq h') = drop 256 (dx_incoming (llcmq h)) \<and>
    pending dx_outgoing h'
      = pending dx_outgoing h @ map pong_for (filter is_ping (take 256 (dx_incoming (llcmq h)))) \<and>
    handler_ok dx_inv acceptable_size h'"
proof -
  obtain events h' where poll: "RxPoll (\<lambda>m. dx_send (ha m) (aa m) m) dx_recv h = (events, h')" by fastforce
  from dx_channel.RxPoll_effect [OF assms pong_acceptable this] poll show ?thesis
    by (simp add: kBatchSize_def delivered_def)
qed

theorem RxPoll_batch_witness:
  "case RxPoll (\<lambda>m. dx_send 0 0 m) dx_recv (lp_handler idle_pair) of (events, h') \<Rightarrow>
     events = [] \<and> pending dx_outgoing h' = []"
proof -
  have inv: "pair_inv idle_pair" by (rule pair_init_inv [OF idle_pair_init])
  have "dx_incoming (lp_dx idle_pair) = []" "dx_outgoing (lp_dx idle_pair) = []"
    using idle_pair_init by (simp_all add: pair_init_def)
  with RxPoll_batch [OF pair_inv_handler(1) [OF inv], of "\<lambda>_. 0" "\<lambda>_. 0"] pair_inv_handler [OF inv]
  show ?thesis by (auto simp: delivered_def idle_pair_def)
qed

text \<open>
  A message over the size limit of the messaging queue that has entered the overflow queue,
  which takes messages of any size, is never sent and never dropped: once it is at the head, every
  later send fails with \<open>kInvalidArgument\<close> and leaves it there.
\<close>

theorem oversize_blocks_overflow:
  assumes "dx_inv (llcmq h)" and "overflow h = x # xs" and "\<not> acceptable_size x"
  shows "\<exists>s'. LlcmSend (\<lambda>m. dx_send (ha m) (aa m) m) m h = (kInvalidArgument, h\<lparr>llcmq := s'\<rparr>) \<and>
    dx_inv s' \<and> dx_outgoing s' = dx_outgoing (llcmq h)"
  unfolding LlcmSend_def
  by (rule dx_channel.blocked_send [OF assms, of ha aa m]) blast

theorem oversize_blocks_overflow_witness:
  "\<exists>s'. LlcmSend (\<lambda>m. dx_send 0 0 m) [1]
      \<lparr>overflow = [replicate 16777216 0], llcmq = lp_dx idle_pair\<rparr>
    = (kInvalidArgument, \<lparr>overflow = [replicate 16777216 0], llcmq = s'\<rparr>)"
proof -
  have inv: "dx_inv (lp_dx idle_pair)" using idle_pair_init by (simp add: pair_init_def)
  have long: "\<not> acceptable_size (replicate 16777216 0)"
    by (simp add: acceptable_size_def kMaxMessageSize_def)
  let ?h = "\<lparr>overflow = [replicate 16777216 (0 :: u8)], llcmq = lp_dx idle_pair\<rparr>"
  have "\<exists>s'. LlcmSend (\<lambda>m. dx_send 0 0 m) [1] ?h = (kInvalidArgument, ?h\<lparr>llcmq := s'\<rparr>) \<and>
    dx_inv s' \<and> dx_outgoing s' = dx_outgoing (llcmq ?h)"
    by (rule oversize_blocks_overflow [where ha = "\<lambda>_. 0" and aa = "\<lambda>_. 0" and x = "replicate 16777216 0"
          and xs = "[]"]) (simp_all only: LlcmHandler.simps inv long not_False_eq_True)
  then show ?thesis by (elim exE conjE) (simp only: LlcmHandler.simps, blast)
qed

text \<open>
  Every message the client can build takes one of the two routes: those of the data path and
  the liveness probes go through the queue, all others to the slow handler if there is one.
\<close>

theorem SendControlMessage_route:
  "SendControlMessage send slow_send (encode_message m) (h, t) =
     (case slow_send of
        Some slow \<Rightarrow>
          if fast_path m then (case LlcmSend send (encode_message m) h of (st, h') \<Rightarrow> Some (st, h', t))
          else (case slow (encode_message m) t of (st, t') \<Rightarrow> Some (st, h, t'))
      | None \<Rightarrow> (case LlcmSend send (encode_message m) h of (st, h') \<Rightarrow> Some (st, h', t)))"
  by (cases slow_send; cases m)
    (simp_all add: SendControlMessage_def wire_simps split: prod.splits)

end
