(* ===== verification/Status_Text.thy ===== *)
theory Status_Text
  imports Control_Command
begin

text \<open>
  The texts for commands and statuses in \<^verbatim>\<open>dxs/client/control-command.cc\<close> and
  \<^verbatim>\<open>dxs/client/data-sock.cc\<close>. A status argument is the byte that came off the wire; a
  value outside its enumeration takes the default branch. The texts of whole messages, which only go to
  the log, are left out.
\<close>

section \<open>Numbers as text\<close>

text \<open>\<^verbatim>\<open>std::to_string\<close> for naturals and integers.\<close>

fun dec_nat :: "nat \<Rightarrow> string" where
  "dec_nat n = (if n < 10 then [char_of (48 + n)] else dec_nat (n div 10) @ [char_of (48 + n mod 10)])"

declare dec_nat.simps [simp del]

definition dec_int :: "int \<Rightarrow> string" where
  "dec_int i = (if i < 0 then ''-'' @ dec_nat (nat (- i)) else dec_nat (nat i))"

section \<open>Commands and statuses\<close>

definition ToString_ControlCommand :: "u8 \<Rightarrow> string" where
  "ToString_ControlCommand cmd =
     (if cmd = command_code kInvalid then ''kInvalid''
      else if cmd = command_code kInit then ''kInit''
      else if cmd = command_code kInitAck then ''kInitAck''
      else if cmd = command_code kListen then ''kListen''
      else if cmd = command_code kListenAck then ''kListenAck''
      else if cmd = command_code kIncomingConnection then ''kIncomingConnection''
      else if cmd = command_code kAccept then ''kAccept''
      else if cmd = command_code kAcceptAck then ''kAcceptAck''
      else if cmd = command_code kCloseListenSock then ''kCloseListenSock''
      else if cmd = command_code kConnect then ''kConnect''
      else if cmd = command_code kConnectAck then ''kConnectAck''
      else if cmd = command_code kSend then ''kSend''
      else if cmd = command_code kSendAck then ''kSendAck''
      else if cmd = command_code kRecv then ''kRecv''
      else if cmd = command_code kRecvAck then ''kRecvAck''
      else if cmd = command_code kRelease then ''kRelease''
      else if cmd = command_code kCloseDataSock then ''kCloseDataSock''
      else if cmd = command_code kRegBuffer then ''kRegBuffer''
      else if cmd = command_code kRegBufferAck then ''kRegBufferAck''
      else if cmd = command_code kDeregBuffer then ''kDeregBuffer''
      else if cmd = command_code kDeregBufferAck then ''kDeregBufferAck''
      else if cmd = command_code kPing then ''kPing''
      else if cmd = command_code kPong then ''kPong''
      else if cmd = command_code kVersionedInit then ''kVersionedInit''
      else if cmd = command_code kVersionedInitAck then ''kVersionedInitAck''
      else if cmd = command_code kInitLlcm then ''kInitLlcm''
      else if cmd = command_code kInitLlcmAck then ''kInitLlcmAck''
      else if cmd = command_code kSubscribeToPeriodicStats then ''kSubscribeToPeriodicStats''
      else if cmd = command_code kPeriodicStatsUpdate then ''kPeriodicStatsUpdate''
      else ''Unknown('' @ dec_nat (unat cmd) @ '')'')"

definition ToString_DataSockStatus :: "i8 \<Rightarrow> string" where
  "ToString_DataSockStatus e =
     (if e = 1 then ''kConnected''
      else if e = 0 then ''kPendingConnect''
      else if e = - 1 then ''kInvalid''
      else if e = - 2 then ''kConnectionRefused''
      else if e = - 3 then ''kTimeout''
      else if e = - 4 then ''kUnreachable''
      else if e = - 5 then ''kUnknownError''
      else if e = - 6 then ''kInternalError''
      else ''INVALID'')"

definition ToString_Init_ClientType :: "i8 \<Rightarrow> string" where
  "ToString_Init_ClientType status =
     (if status = 0 then ''kBufferManager''
      else if status = 2 then ''kSnapClient''
      else ''Unknown('' @ dec_nat (unat status) @ '')'')"

definition ToString_InitAck_Status :: "i8 \<Rightarrow> string" where
  "ToString_InitAck_Status status =
     (if status = 0 then ''kOk''
      else if status = - 1 then ''kExists''
      else if status = - 2 then ''kSecureInitRequired''
      else if status = - 3 then ''kRejected''
      else if status = - 4 then ''kInvalidRequest''
      else if status = - 5 then ''kUnsupportedClientVersion''
      else ''Unknown('' @ dec_int (sint status) @ '')'')"

definition ToString_InitLlcmAck_Status :: "i8 \<Rightarrow> string" where
  "ToString_InitLlcmAck_Status status =
     (if status = 0 then ''kOk''
      else if status = - 1 then ''kFailed''
      else ''Unknown('' @ dec_int (sint status) @ '')'')"

definition ToString_AcceptAck_Status :: "i8 \<Rightarrow> string" where
  "ToString_AcceptAck_Status status =
     (if status = 0 then ''kOk''
      else if status = - 1 then ''kInvalidRequest''
      else if status = - 2 then ''kInvalidListenSocket''
      else if status = - 3 then ''kInternalError''
      else if status = - 4 then ''kNoPendingConnection''
      else if status = - 5 then ''kInvalidClientType''
      else ''Unknown('' @ dec_int (sint status) @ '')'')"

definition ToString_RegBufferAck_Status :: "i8 \<Rightarrow> string" where
  "ToString_RegBufferAck_Status status =
     (if status = 0 then ''kOk''
      else if status = - 2 then ''kInvalidRegion''
      else if status = - 1 then ''kOverlappingRegions''
      else if status = - 3 then ''kAlreadyRegistered''
      else if status = - 4 then ''kMismatchedDirection''
      else if status = - 5 then ''kRegistrationFailed''
      else if status = - 6 then ''kNotAllowed''
      else ''Unknown('' @ dec_int (sint status) @ '')'')"

definition ToString_DeregBufferAck_Status :: "i8 \<Rightarrow> string" where
  "ToString_DeregBufferAck_Status status =
     (if status = 0 then ''kOk''
      else if status = - 1 then ''kNotFound''
      else if status = - 2 then ''kNotAllowed''
      else if status = - 3 then ''kInternal''
      else ''Unknown('' @ dec_int (sint status) @ '')'')"

definition ToString_OpStatus :: "u8 \<Rightarrow> string" where
  "ToString_OpStatus status =
     (if status = 1 then ''kComplete''
      else if status = 0 then ''kPending''
      else if status = 2 then ''kError''
      else ''Unknown('' @ dec_nat (unat status) @ '')'')"

definition GetDetailedStatus_InitAck_Status :: "i8 \<Rightarrow> string" where
  "GetDetailedStatus_InitAck_Status status =
     (if status = 0 then ''Everything is OK. DXS client should now be initialized.''
      else if status = - 1 then ''The client is already initialized.''
      else if status = - 2 then ''kSecureInitRequired''
      else if status = - 3 then ''Init request rejected (Possible reasons: (1) Client's source port '' @
        ''doesn't match the buffer manager port that DXS is using or (2) Buffer manager client '' @
        ''already exists).''
      else if status = - 4 then ''Init request is invalid (or not provided)''
      else if status = - 5 then ''Client version is no longer supported.''
      else ''Unknown('' @ dec_int (sint status) @ '')'')"

definition GetDetailedStatus_RegBufferAck_Status :: "i8 \<Rightarrow> string" where
  "GetDetailedStatus_RegBufferAck_Status status =
     (if status = 0 then ''Everything is OK. Buffer should now be registered.''
      else if status = - 2 then ''Truncated packet or malicious client.''
      else if status = - 1 then ''Iovec overlaps existing pending buffer registration.''
      else if status = - 3 then ''Buffer is already registered.''
      else if status = - 4 then ''Direction of buffer requested, isn't what DXS is expecting.''
      else if status = - 5 then ''Registration failed. Possibly, malformed (or empty) RegBuffer request.''
      else if status = - 6 then ''The client associated with this request isn't allowed to register '' @
        ''the buffer. Please use this method with a buffer manager client.''
      else ''Unknown('' @ dec_int (sint status) @ '')'')"

definition GetDetailedStatus_DeregBufferAck_Status :: "i8 \<Rightarrow> string" where
  "GetDetailedStatus_DeregBufferAck_Status status =
     (if status = 0 then ''Everything is OK. Buffer should now be deregistered.''
      else if status = - 1 then ''Dereg Buffer request is either malformed (or empty) or receive '' @
        ''buffer reg handle not found.''
      else if status = - 2 then ''The client associated with this request isn't allowed to '' @
        ''deregister the buffer. Please use this method with a buffer manager client.''
      else if status = - 3 then ''Failed to uninstall LEM rules.''
      else ''Unknown('' @ dec_int (sint status) @ '')'')"

definition GetDetailedStatus_ListenAck_Status :: "i8 \<Rightarrow> string" where
  "GetDetailedStatus_ListenAck_Status status =
     (if status = 0 then ''Everything is OK.''
      else if status = - 1 then ''Listen request is invalid (or not provided)''
      else if status = - 2 then ''Free ports unavailable.''
      else if status = - 3 then ''Listen handler is already in use.''
      else ''Unknown('' @ dec_int (sint status) @ '')'')"

definition GetDetailedStatus_AcceptAck_Status :: "i8 \<Rightarrow> string" where
  "GetDetailedStatus_AcceptAck_Status status =
     (if status = 0 then ''Everything is OK.''
      else if status = - 1 then ''Accept request is invalid (or not provided)''
      else if status = - 2 then ''Accept request had an invalid listen socket handle''
      else if status = - 3 then ''Server error processing the accept request''
      else if status = - 4 then ''Accept called when no connection was pending on the listening socket''
      else if status = - 5 then ''Accept request had an unknown client type''
      else ''Unknown('' @ dec_int (sint status) @ '')'')"

definition GetDetailedStatus_SendAck_Status :: "i8 \<Rightarrow> string" where
  "GetDetailedStatus_SendAck_Status req_status =
     (let (public_error_code, message) =
        (if req_status = 0 then (sint req_status, ''Everything is OK.'')
         else if req_status = - 1 then (sint req_status, ''Invalid send buffer reg handle.'')
         else if req_status = - 2 then (sint req_status, ''Invalid registered buffer.'')
         else if req_status = - 3 then (sint req_status, ''Invalid socket.'')
         else if req_status = - 4 then (sint req_status, ''Invalid pipeline.'')
         else if req_status = - 5 then (sint req_status, ''Error sent in the ack; completion failed.'')
         else if req_status = - 7 then (sint req_status, ''Bad connection (Possible early '' @
        ''connection teardown from remote side).'')
         else if req_status = - 8 then (sint req_status, ''Send and Receive sides have mismatched size.'')
         else if req_status = - 9 then (sint req_status, ''SCTP or LLCM control channel failed.'')
         else (1, ''Unknown failure in Send Ack.''))
      in ''Code ('' @ dec_int public_error_code @ ''): '' @ message)"

definition GetDetailedStatus_RecvAck_Status :: "i8 \<Rightarrow> string" where
  "GetDetailedStatus_RecvAck_Status req_status =
     (let (public_error_code, message) =
        (if req_status = 0 then (sint req_status, ''Everything is OK.'')
         else if req_status = - 1 then (sint req_status, ''Receive buffer is not registered.'')
         else if req_status = - 2 then (sint req_status, ''Invalid receive buffer reg handle.'')
         else if req_status = - 3 then (sint req_status, ''Invalid registered buffer.'')
         else if req_status = - 4 then (sint req_status, ''Invalid socket.'')
         else if req_status = - 5 then (sint req_status, ''Invalid pipeline.'')
         else if req_status = - 6 then (sint req_status, ''Error sent in the ack; completion failed.'')
         else if req_status = - 7 then (sint req_status, ''Wrong element.'')
         else if req_status = - 8 then (sint req_status, ''Bad connection (Possible early '' @
        ''connection teardown from remote side).'')
         else if req_status = - 9 then (sint req_status, ''Send and Receive sides have mismatched size.'')
         else if req_status = - 10 then (sint req_status, ''SCTP or LLCM control channel failed.'')
         else (1, ''Unknown failure in Recv Ack.''))
      in ''Code ('' @ dec_int public_error_code @ ''): '' @ message)"

definition GetDetailedStatus_ConnectAck_Status :: "i8 \<Rightarrow> string" where
  "GetDetailedStatus_ConnectAck_Status status =
     (if status = 0 then ''Everything is OK. Connection successful.''
      else if status = - 1 then ''Invalid (or empty) connection request.''
      else if status = - 2 then ''Got connection request but not serving any VM.''
      else if status = - 3 then ''VIP not found.''
      else if status = - 4 then ''Unable to add socket to engine.''
      else if status = - 5 then ''Error opening to connection to DXS data channel.''
      else if status = - 7 then ''Connection failed.''
      else if status = - 8 then ''Snap not enabled.''
      else ''Unknown('' @ dec_int (sint status) @ '')'')"

section \<open>Properties\<close>

text \<open>
  The names of the commands in the log are unambiguous: no two commands share one, and only
  \<open>kIncomingConnectionV2\<close> is shown by its number.
\<close>

theorem command_names_distinct:
  "distinct (map (\<lambda>c. ToString_ControlCommand (command_code c)) all_commands) \<and>
   ToString_ControlCommand (command_code kIncomingConnectionV2) = ''Unknown(55)''"
  by code_simp

text \<open>
  The status \<^verbatim>\<open>kWrongElement\<close> (-6) of a send acknowledgement is shown as the unknown failure with code 1,
  while that of a receive acknowledgement (-7) is shown under its own code.
\<close>

lemma send_wrong_element_unknown:
  "GetDetailedStatus_SendAck_Status (- 6) = ''Code (1): Unknown failure in Send Ack.''"
  "GetDetailedStatus_RecvAck_Status (- 7) = ''Code (-7): Wrong element.''"
  by code_simp+

end
