(* ===== verification/Buffer_Manager.thy ===== *)
theory Buffer_Manager
  imports Llcm_Handler
begin

text \<open>
  The buffer manager of \<^verbatim>\<open>dxs/client/dxs-client.{h,cc}\<close>: it registers lists of guest physical
  addresses with the server, in messages that fit the link, and takes registrations back. A call
  sends its messages and then waits for the receiver thread to handle the acknowledgements; what
  the receiver thread handles between the messages and while the call waits is an explicit list of
  events. A wait that runs out of events has timed out.
\<close>

section \<open>Sizes\<close>

definition GetUsableSizeForMtu :: "u64 \<Rightarrow> u64" where
  "GetUsableSizeForMtu mtu = mtu - 40 - 8 - 12 - 4 - 12"

definition kMinMtu :: u64 where "kMinMtu = 1460"
definition kAvailableBufferSize :: u64 where "kAvailableBufferSize = GetUsableSizeForMtu kMinMtu"

definition kMaxGpaPerMessage :: u64 where
  "kMaxGpaPerMessage = (kAvailableBufferSize - 4) div 16"

definition kSubscribeToPeriodicStatsVersion :: u64 where "kSubscribeToPeriodicStatsVersion = 5"

section \<open>State and messages from the server\<close>

text \<open>\<open>stats_calls\<close> lists the arguments with which the callback for periodic statistics was called.\<close>

record 'p BufferManager =
  bm_initialized :: bool
  bm_failed :: bool
  bm_server_build_id :: "u8 list"
  bm_server_version :: u64
  outstanding_registrations :: int
  last_reg_buffer_ack :: RegBufferAckMessage
  awaiting_unreg_buffer :: bool
  last_dereg_buffer_ack :: DeregBufferAckMessage
  stats_calls :: "'p list"

text \<open>The constructor leaves the two last acknowledgements uninitialised.\<close>

definition new_BufferManager :: "RegBufferAckMessage \<Rightarrow> DeregBufferAckMessage \<Rightarrow> 'p BufferManager" where
  "new_BufferManager reg_ack dereg_ack =
     \<lparr>bm_initialized = False, bm_failed = False, bm_server_build_id = map (of_nat \<circ> of_char) ''<unknown>'',
      bm_server_version = 0, outstanding_registrations = 0, last_reg_buffer_ack = reg_ack,
      awaiting_unreg_buffer = False, last_dereg_buffer_ack = dereg_ack, stats_calls = []\<rparr>"

text \<open>
  \<open>beyond\<close> is what lies in memory after the packet; the build id is copied up to the first null byte,
  wherever that is.
\<close>

definition BufferManager_HandleVersionedInitAck ::
    "u8 list \<Rightarrow> u8 list \<Rightarrow> 'p BufferManager \<Rightarrow> 'p BufferManager" where
  "BufferManager_HandleVersionedInitAck beyond packet b =
     (if bm_initialized b then b
      else case ValidateAndGetMessage 266 VersionedInitAckMessage_of packet of
        None \<Rightarrow> b
      | Some message \<Rightarrow>
          if vinit_ack_status message \<noteq> 0 then b\<lparr>bm_failed := True\<rparr>
          else b\<lparr>bm_initialized := True,
                 bm_server_build_id := takeWhile (\<lambda>c. c \<noteq> 0) (drop 2 (packet @ beyond)),
                 bm_server_version := vinit_ack_server_version message\<rparr>)"

definition HandleRegBufferAck :: "u8 list \<Rightarrow> 'p BufferManager \<Rightarrow> 'p BufferManager" where
  "HandleRegBufferAck packet b =
     (case ValidateAndGetMessage 14 RegBufferAckMessage_of packet of
        None \<Rightarrow> b
      | Some message \<Rightarrow>
          if outstanding_registrations b \<le> 0 then b
          else b\<lparr>outstanding_registrations := outstanding_registrations b - 1,
                 last_reg_buffer_ack := message\<rparr>)"

definition HandleDeregBufferAck :: "u8 list \<Rightarrow> 'p BufferManager \<Rightarrow> 'p BufferManager" where
  "HandleDeregBufferAck packet b =
     (case ValidateAndGetMessage 2 DeregBufferAckMessage_of packet of
        None \<Rightarrow> b
      | Some message \<Rightarrow>
          if \<not> awaiting_unreg_buffer b then b
          else b\<lparr>last_dereg_buffer_ack := message, awaiting_unreg_buffer := False\<rparr>)"

definition ValidateAndGetMessageWithTail :: "nat \<Rightarrow> (u8 list \<Rightarrow> 'm) \<Rightarrow> u8 list \<Rightarrow> 'm option" where
  "ValidateAndGetMessageWithTail expected_length read packet =
     (if length packet < expected_length then None else Some (read packet))"

text \<open>\<open>parse\<close> stands for the parser of the protocol buffer; it is given the bytes the message announces.\<close>

definition HandlePeriodicStatsUpdate ::
    "(u8 list \<Rightarrow> 'p option) \<Rightarrow> u8 list \<Rightarrow> u8 list \<Rightarrow> 'p BufferManager \<Rightarrow> 'p BufferManager" where
  "HandlePeriodicStatsUpdate parse beyond packet b =
     (case ValidateAndGetMessageWithTail 3 PeriodicStatsUpdateMessage_of packet of
        None \<Rightarrow> b
      | Some message \<Rightarrow>
          (case parse (take (unat (stats_payload_size message)) (drop 3 (packet @ beyond))) of
             None \<Rightarrow> b
           | Some stats \<Rightarrow> b\<lparr>stats_calls := stats_calls b @ [stats]\<rparr>))"

definition BufferManager_ReceiveControlMessage ::
    "(u8 list \<Rightarrow> 'p option) \<Rightarrow> u8 list \<Rightarrow> u8 list \<Rightarrow> 'p BufferManager \<Rightarrow> 'p BufferManager" where
  "BufferManager_ReceiveControlMessage parse beyond buffer b =
     (if length buffer < 1 then b
      else case command_of (buffer ! 0) of
        Some kVersionedInitAck \<Rightarrow> BufferManager_HandleVersionedInitAck beyond buffer b
      | Some kRegBufferAck \<Rightarrow> HandleRegBufferAck buffer b
      | Some kDeregBufferAck \<Rightarrow> HandleDeregBufferAck buffer b
      | Some kPeriodicStatsUpdate \<Rightarrow> HandlePeriodicStatsUpdate parse beyond buffer b
      | _ \<Rightarrow> b)"

definition BufferManager_OnControlChannelFailure :: "'p BufferManager \<Rightarrow> 'p BufferManager" where
  "BufferManager_OnControlChannelFailure b = b\<lparr>bm_failed := True\<rparr>"

fun bm_event ::
    "(u8 list \<Rightarrow> 'p option) \<Rightarrow> u8 list \<Rightarrow> receiver_event \<Rightarrow> 'p BufferManager \<Rightarrow> 'p BufferManager" where
  "bm_event parse beyond (ReceiveControlMessage buffer) b =
     BufferManager_ReceiveControlMessage parse beyond buffer b"
| "bm_event parse beyond OnControlChannelFailure b = BufferManager_OnControlChannelFailure b"

text \<open>Waiting for a condition with a timeout: whether it came to hold, and the state then.\<close>

fun AwaitWithTimeout ::
    "('b \<Rightarrow> bool) \<Rightarrow> ('e \<Rightarrow> 'b \<Rightarrow> 'b) \<Rightarrow> 'e list \<Rightarrow> 'b \<Rightarrow> bool \<times> 'b" where
  "AwaitWithTimeout done step [] b = (done b, b)"
| "AwaitWithTimeout done step (e # es) b =
     (if done b then (True, b) else AwaitWithTimeout done step es (step e b))"

section \<open>Creation\<close>

text \<open>
  The destination address; \<open>inet_pton4\<close> says whether the source address is an IPv4 address. Every other
  source needs an explicit destination.
\<close>

definition Create_dest_addr :: "(string \<Rightarrow> bool) \<Rightarrow> string \<Rightarrow> string \<Rightarrow> string option \<Rightarrow> string StatusOr" where
  "Create_dest_addr inet_pton4 kDefaultDxsAddr source_addr dest_addr_override =
     (case dest_addr_override of
        Some dest_addr \<Rightarrow> Inr dest_addr
      | None \<Rightarrow> if inet_pton4 source_addr then Inr kDefaultDxsAddr else Inl kInvalidArgument)"

text \<open>
  \<^verbatim>\<open>Init\<close> once the channel is open. \<open>subscribe\<close> is the serialised subscription to periodic statistics
  if the caller asks for them.
\<close>

definition BufferManager_Init ::
    "(u8 list \<Rightarrow> 'h \<Rightarrow> StatusCode \<times> 'h) \<Rightarrow> (receiver_event \<Rightarrow> 'p BufferManager \<Rightarrow> 'p BufferManager)
      \<Rightarrow> receiver_event list \<Rightarrow> u8 list option \<Rightarrow> 'p BufferManager \<times> 'h \<Rightarrow> StatusCode \<times> 'p BufferManager \<times> 'h" where
  "BufferManager_Init send step events subscribe = (\<lambda>(b, h).
     case AwaitWithTimeout (\<lambda>b. bm_failed b \<or> bm_initialized b) step events b of (ok, b1) \<Rightarrow>
       if \<not> ok then (kDeadlineExceeded, b1, h)
       else if bm_failed b1 then (kInternal, b1, h)
       else case subscribe of
         None \<Rightarrow> (kOk, b1, h)
       | Some payload \<Rightarrow>
           if bm_server_version b1 < kSubscribeToPeriodicStatsVersion then (kOk, b1, h)
           else case send (SubscribeToPeriodicStatsMessage_bytes
                       \<lparr>subscribe_payload_size = of_nat (length payload)\<rparr> @ payload) h of
             (status, h1) \<Rightarrow> (status, b1, h1))"

section \<open>Registration\<close>

text \<open>The message for the addresses from index \<open>i\<close> on.\<close>

definition RegBuffer_message :: "iovec list \<Rightarrow> nat \<Rightarrow> u8 list" where
  "RegBuffer_message gpas i =
     (let message = \<lparr>reg_more = i + unat kMaxGpaPerMessage < length gpas, reg_is_bounce_buffer = False,
                     reg_num_gpas = of_nat (min (unat kMaxGpaPerMessage) (length gpas - i))\<rparr>
      in RegBufferMessage_bytes message @
         concat (map iovec_bytes (take (unat (reg_num_gpas message)) (drop i gpas))))"

text \<open>
  The loop of \<^verbatim>\<open>RegBufferWithDxsServer\<close>; its index is an unsigned int of 32 bits. \<open>between i\<close> is what the
  receiver thread handles after the message at index \<open>i\<close>.
\<close>

partial_function (option) RegBuffer_loop ::
    "(u8 list \<Rightarrow> 'h \<Rightarrow> StatusCode \<times> 'h) \<Rightarrow> (receiver_event \<Rightarrow> 'p BufferManager \<Rightarrow> 'p BufferManager)
      \<Rightarrow> (nat \<Rightarrow> receiver_event list) \<Rightarrow> iovec list \<Rightarrow> u32 \<Rightarrow> 'p BufferManager \<Rightarrow> 'h
      \<Rightarrow> (StatusCode \<times> 'p BufferManager \<times> 'h) option" where
  "RegBuffer_loop send step between gpas i b h =
     (if unat i < length gpas
      then let b1 = b\<lparr>outstanding_registrations := outstanding_registrations b + 1\<rparr>;
               r = send (RegBuffer_message gpas (unat i)) h
           in if fst r \<noteq> kOk then Some (fst r, b1, snd r)
              else RegBuffer_loop send step between gpas (i + ucast kMaxGpaPerMessage)
                     (fold step (between (unat i)) b1) (snd r)
      else Some (kOk, b, h))"

definition RegBuffer ::
    "(u8 list \<Rightarrow> 'h \<Rightarrow> StatusCode \<times> 'h) \<Rightarrow> (receiver_event \<Rightarrow> 'p BufferManager \<Rightarrow> 'p BufferManager)
      \<Rightarrow> (nat \<Rightarrow> receiver_event list) \<Rightarrow> receiver_event list \<Rightarrow> iovec list \<Rightarrow> 'p BufferManager \<Rightarrow> 'h
      \<Rightarrow> (u64 StatusOr \<times> 'p BufferManager \<times> 'h) option" where
  "RegBuffer send step between events gpas b h =
     (if outstanding_registrations b \<noteq> 0 then Some (Inl kFailedPrecondition, b, h)
      else case RegBuffer_loop send step between gpas 0 b h of
        None \<Rightarrow> None
      | Some (status, b1, h1) \<Rightarrow>
          if status \<noteq> kOk then Some (Inl status, b1, h1)
          else case AwaitWithTimeout (\<lambda>b. bm_failed b \<or> outstanding_registrations b = 0) step events b1 of
            (ok, b2) \<Rightarrow>
              if \<not> ok then Some (Inl kDeadlineExceeded, b2, h1)
              else if bm_failed b2 then Some (Inl kInternal, b2, h1)
              else if reg_ack_status (last_reg_buffer_ack b2) \<noteq> 0 then Some (Inl kInternal, b2, h1)
              else Some (Inr (reg_ack_reg_handle (last_reg_buffer_ack b2)), b2, h1))"

definition DeregBuffer ::
    "(u8 list \<Rightarrow> 'h \<Rightarrow> StatusCode \<times> 'h) \<Rightarrow> (receiver_event \<Rightarrow> 'p BufferManager \<Rightarrow> 'p BufferManager)
      \<Rightarrow> receiver_event list \<Rightarrow> u64 \<Rightarrow> 'p BufferManager \<Rightarrow> 'h \<Rightarrow> StatusCode \<times> 'p BufferManager \<times> 'h" where
  "DeregBuffer send step events reg_handle b h =
     (if awaiting_unreg_buffer b then (kFailedPrecondition, b, h)
      else
        let b1 = b\<lparr>awaiting_unreg_buffer := True\<rparr>;
            r = send (DeregBufferMessage_bytes
                  \<lparr>dereg_reg_handle = reg_handle, dereg_is_bounce_buffer = False\<rparr>) h
        in if fst r \<noteq> kOk then (fst r, b1, snd r)
           else case AwaitWithTimeout (\<lambda>b. bm_failed b \<or> \<not> awaiting_unreg_buffer b) step events b1 of
             (ok, b2) \<Rightarrow>
               if \<not> ok then (kDeadlineExceeded, b2, snd r)
               else if bm_failed b2 then (kInternal, b2, snd r)
               else if dereg_ack_status (last_dereg_buffer_ack b2) \<noteq> 0 then (kInternal, b2, snd r)
               else (kOk, b2, snd r))"

section \<open>The messages of a registration\<close>

lemma kMaxGpaPerMessage_86 [simp]: "kMaxGpaPerMessage = 86"
  by (simp add: kMaxGpaPerMessage_def kAvailableBufferSize_def GetUsableSizeForMtu_def kMinMtu_def)

lemma kAvailableBufferSize_1384: "kAvailableBufferSize = 1384"
  by (simp add: kAvailableBufferSize_def GetUsableSizeForMtu_def kMinMtu_def)

text \<open>The indices at which messages start.\<close>

function offsets :: "nat \<Rightarrow> nat \<Rightarrow> nat list" where
  "offsets i n = (if i < n then i # offsets (i + 86) n else [])"
  by pat_completeness auto
termination by (relation "measure (\<lambda>(i, n). n - i)") auto

declare offsets.simps [simp del]

definition after_message ::
    "(receiver_event \<Rightarrow> 'p BufferManager \<Rightarrow> 'p BufferManager) \<Rightarrow> (nat \<Rightarrow> receiver_event list)
      \<Rightarrow> nat \<Rightarrow> 'p BufferManager \<Rightarrow> 'p BufferManager" where
  "after_message step between i b =
     fold step (between i) (b\<lparr>outstanding_registrations := outstanding_registrations b + 1\<rparr>)"

lemma RegBuffer_loop_run:
  assumes "\<And>m h. fst (send m h) = kOk" and "length gpas + 86 \<le> 4294967296"
  shows "RegBuffer_loop send step between gpas i b h =
    Some (kOk, fold (after_message step between) (offsets (unat i) (length gpas)) b,
      fold (\<lambda>j h. snd (send (RegBuffer_message gpas j) h)) (offsets (unat i) (length gpas)) h)"
proof (induction "unat i" "length gpas" arbitrary: i b h rule: offsets.induct)
  case 1
  show ?case
  proof (cases "unat i < length gpas")
    case True
    then have i: "unat (i + 86) = unat i + 86" using assms(2) by (simp add: unat_word_ariths)
    show ?thesis
      using True assms(1) 1 [OF True, of "i + 86"] i
      by (subst RegBuffer_loop.simps, subst (1 2) offsets.simps) (simp add: after_message_def Let_def)
  next
    case False
    then show ?thesis by (subst RegBuffer_loop.simps, subst (1 2) offsets.simps) simp
  qed
qed

lemma offsets_upt: "offsets (86 * k) n = map ((*) 86) [k..<(n + 85) div 86]"
proof (induction "86 * k" n arbitrary: k rule: offsets.induct)
  case (1 n)
  show ?case
  proof (cases "86 * k < n")
    case True
    then have k: "k < (n + 85) div 86" by linarith
    have "offsets (86 * k) n = 86 * k # offsets (86 * Suc k) n"
      using True by (subst offsets.simps) (simp add: algebra_simps)
    also have "offsets (86 * Suc k) n = map ((*) 86) [Suc k..<(n + 85) div 86]"
      using 1 [OF True, of "Suc k"] by simp
    finally show ?thesis using k by (simp add: upt_conv_Cons)
  next
    case False
    then have "\<not> k < (n + 85) div 86" by linarith
    then show ?thesis using False by (subst offsets.simps) simp
  qed
qed

text \<open>What the server reads of a message.\<close>

definition message_gpas :: "u8 list \<Rightarrow> iovec list" where
  "message_gpas m = (case decode_message m of Some (Msg_RegBuffer _ gpas) \<Rightarrow> gpas | _ \<Rightarrow> [])"

definition message_more :: "u8 list \<Rightarrow> bool" where
  "message_more m = (case decode_message m of Some (Msg_RegBuffer r _) \<Rightarrow> reg_more r | _ \<Rightarrow> False)"

lemma decode_RegBuffer:
  assumes "unat (reg_num_gpas m) = length vs"
  shows "decode_message (RegBufferMessage_bytes m @ concat (map iovec_bytes vs)) = Some (Msg_RegBuffer m vs)"
  using assms by (simp add: wire_simps layout_simps iovecs_length iovecs_of_bytes Let_def del: command_code.simps)

lemma decode_RegBuffer_message:
  "decode_message (RegBuffer_message gpas i) =
    Some (Msg_RegBuffer \<lparr>reg_more = i + 86 < length gpas, reg_is_bounce_buffer = False,
        reg_num_gpas = of_nat (min 86 (length gpas - i))\<rparr> (take 86 (drop i gpas)))"
proof -
  have n: "unat (of_nat (min 86 (length gpas - i)) :: u8) = min 86 (length gpas - i)"
    by (simp add: unat_of_nat)
  have "take (min 86 (length gpas - i)) (drop i gpas) = take 86 (drop i gpas)"
    by (simp add: min_def)
  then show ?thesis
    using n by (simp add: RegBuffer_message_def Let_def decode_RegBuffer)
qed

lemma RegBuffer_message_size: "length (RegBuffer_message gpas i) \<le> unat kAvailableBufferSize"
proof -
  have "unat (of_nat (min 86 (length gpas - i)) :: u8) \<le> 86" by (simp add: unat_of_nat)
  then show ?thesis
    by (simp add: RegBuffer_message_def Let_def iovecs_length RegBufferMessage_bytes_def
        kAvailableBufferSize_1384 del: command_code.simps)
qed

lemma concat_message_gpas:
  "concat (map (message_gpas \<circ> RegBuffer_message gpas) (offsets i (length gpas))) = drop i gpas"
proof (induction i "length gpas" rule: offsets.induct)
  case (1 i)
  show ?case
  proof (cases "i < length gpas")
    case True
    have "drop (i + 86) gpas = drop 86 (drop i gpas)" by (simp add: add.commute)
    then show ?thesis using True 1
      by (subst offsets.simps) (simp add: message_gpas_def decode_RegBuffer_message del: drop_drop)
  qed (subst offsets.simps, simp)
qed

lemma message_more_last:
  assumes "i < length gpas"
  shows "map (message_more \<circ> RegBuffer_message gpas) (offsets i (length gpas)) =
    replicate (length (offsets i (length gpas)) - 1) True @ [False]"
  using assms
proof (induction i "length gpas" rule: offsets.induct)
  case (1 i)
  show ?case
  proof (cases "i + 86 < length gpas")
    case True
    then have "offsets (i + 86) (length gpas) \<noteq> []" by (subst offsets.simps) simp
    then have "length (offsets (i + 86) (length gpas)) = Suc (length (offsets (i + 86) (length gpas)) - 1)"
      by (cases "offsets (i + 86) (length gpas)") simp_all
    then have "replicate (length (offsets (i + 86) (length gpas))) True
        = True # replicate (length (offsets (i + 86) (length gpas)) - 1) True"
      by (metis replicate_Suc)
    then show ?thesis using 1 True
      by (subst (1 2) offsets.simps) (simp add: message_more_def decode_RegBuffer_message)
  next
    case False
    then have "offsets (i + 86) (length gpas) = []" by (subst offsets.simps) simp
    then show ?thesis using 1 False
      by (subst (1 2) offsets.simps) (simp add: message_more_def decode_RegBuffer_message)
  qed
qed

lemma fold_log: "fold (\<lambda>j h. h @ [f j]) js h = h @ map f js"
  by (induction js arbitrary: h) simp_all

section \<open>Acknowledgements\<close>

definition reg_acks :: "RegBufferAckMessage list \<Rightarrow> receiver_event list" where
  "reg_acks = map (\<lambda>a. ReceiveControlMessage (RegBufferAckMessage_bytes a))"

definition take_acks :: "RegBufferAckMessage list \<Rightarrow> 'p BufferManager \<Rightarrow> 'p BufferManager" where
  "take_acks acks b =
     b\<lparr>outstanding_registrations := outstanding_registrations b - int (length acks),
       last_reg_buffer_ack := last (last_reg_buffer_ack b # acks)\<rparr>"

lemma take_acks_simps [simp]:
  "take_acks [] b = b"
  "outstanding_registrations (take_acks acks b) = outstanding_registrations b - int (length acks)"
  "bm_failed (take_acks acks b) = bm_failed b"
  "last_reg_buffer_ack (take_acks acks b) = last (last_reg_buffer_ack b # acks)"
  by (simp_all add: take_acks_def)

lemma take_acks_append: "take_acks bs (take_acks as b) = take_acks (as @ bs) b"
  by (simp add: take_acks_def last_append)

lemma bm_event_ack:
  assumes "0 < outstanding_registrations b"
  shows "bm_event parse beyond (ReceiveControlMessage (RegBufferAckMessage_bytes a)) b = take_acks [a] b"
proof -
  have a: "ValidateAndGetMessage 14 RegBufferAckMessage_of (RegBufferAckMessage_bytes a) = Some a"
    by (simp add: ValidateAndGetMessage_def wire_simps layout_simps del: command_code.simps)
  moreover have "RegBufferAckMessage_bytes a \<noteq> []" "RegBufferAckMessage_bytes a ! 0 = command_code kRegBufferAck"
    by (simp_all add: RegBufferAckMessage_bytes_def del: command_code.simps)
  ultimately show ?thesis
    using assms
    by (simp add: BufferManager_ReceiveControlMessage_def HandleRegBufferAck_def take_acks_def Suc_le_eq
        del: command_code.simps)
qed

lemma fold_acks:
  assumes "int (length acks) \<le> outstanding_registrations b"
  shows "fold (bm_event parse beyond) (reg_acks acks) b = take_acks acks b"
  using assms
proof (induction acks arbitrary: b)
  case (Cons a acks)
  then have "bm_event parse beyond (ReceiveControlMessage (RegBufferAckMessage_bytes a)) b = take_acks [a] b"
    by (intro bm_event_ack) simp
  then show ?case using Cons take_acks_append [of acks "[a]" b] by (simp add: reg_acks_def)
qed (simp add: reg_acks_def)

lemma await_acks:
  assumes "\<not> bm_failed b" and "int (length acks) \<le> outstanding_registrations b"
  shows "AwaitWithTimeout (\<lambda>b. bm_failed b \<or> outstanding_registrations b = 0)
      (bm_event parse beyond) (reg_acks acks) b
    = (int (length acks) = outstanding_registrations b, take_acks acks b)"
  using assms
proof (induction acks arbitrary: b)
  case (Cons a acks)
  then have "bm_event parse beyond (ReceiveControlMessage (RegBufferAckMessage_bytes a)) b = take_acks [a] b"
    by (intro bm_event_ack) simp
  then show ?case
    using Cons take_acks_append [of acks "[a]" b] by (simp add: reg_acks_def) linarith
qed (simp add: reg_acks_def)

text \<open>The state after the first \<open>k\<close> messages, \<open>acks j\<close> being acknowledged after message \<open>j\<close>.\<close>

lemma after_messages:
  assumes "outstanding_registrations b = 0"
    and "\<forall>j < k. length (concat (map acks [0..<Suc j])) \<le> Suc j"
  shows "fold (after_message (bm_event parse beyond) (\<lambda>i. reg_acks (acks (i div 86))))
      (map ((*) 86) [0..<k]) b
    = (take_acks (concat (map acks [0..<k])) b)
        \<lparr>outstanding_registrations := int k - int (length (concat (map acks [0..<k])))\<rparr>"
  using assms(2)
proof (induction k)
  case 0
  then show ?case using assms(1) by simp
next
  case (Suc k)
  define s where "s = (take_acks (concat (map acks [0..<k])) b)
    \<lparr>outstanding_registrations := int k - int (length (concat (map acks [0..<k])))\<rparr>"
  have "length (concat (map acks [0..<Suc k])) \<le> Suc k" using Suc.prems by blast
  then have n: "int (length (acks k)) \<le> int k - int (length (concat (map acks [0..<k]))) + 1" by simp
  have "fold (after_message (bm_event parse beyond) (\<lambda>i. reg_acks (acks (i div 86))))
      (map ((*) 86) [0..<k]) b = s"
    unfolding s_def using Suc.prems by (intro Suc.IH) simp
  then have "fold (after_message (bm_event parse beyond) (\<lambda>i. reg_acks (acks (i div 86))))
      (map ((*) 86) [0..<Suc k]) b
    = fold (bm_event parse beyond) (reg_acks (acks k))
        (s\<lparr>outstanding_registrations := outstanding_registrations s + 1\<rparr>)"
    by (simp add: after_message_def)
  also have "\<dots> = take_acks (acks k) (s\<lparr>outstanding_registrations := outstanding_registrations s + 1\<rparr>)"
    using n by (intro fold_acks) (simp add: s_def)
  finally show ?case by (simp add: s_def take_acks_def last_append)
qed

section \<open>Properties\<close>

text \<open>
  A registration sends all its addresses, in order and each once, in messages that fit the
  link, of which exactly the last says that no more will follow.
\<close>

theorem RegBuffer_sends_all:
  assumes "gpas \<noteq> []" and "length gpas + 86 \<le> 4294967296"
  shows "\<exists>ms b'. RegBuffer_loop (\<lambda>m h. (kOk, h @ [m])) step between gpas 0 b [] = Some (kOk, b', ms) \<and>
    concat (map message_gpas ms) = gpas \<and>
    map message_more ms = replicate (length ms - 1) True @ [False] \<and>
    (\<forall>m \<in> set ms. length m \<le> unat kAvailableBufferSize)"
proof -
  let ?ms = "map (RegBuffer_message gpas) (offsets 0 (length gpas))"
  have "concat (map message_gpas ?ms) = gpas"
    using concat_message_gpas [of gpas 0] by simp
  moreover have "map message_more ?ms = replicate (length ?ms - 1) True @ [False]"
    using message_more_last [of 0 gpas] assms(1) by simp
  moreover have "\<forall>m \<in> set ?ms. length m \<le> unat kAvailableBufferSize"
    by (auto simp: RegBuffer_message_size)
  ultimately show ?thesis
    using RegBuffer_loop_run [of "\<lambda>m h. (kOk, h @ [m])" gpas step between 0 b "[]"] assms(2)
    by (auto simp: fold_log)
qed

theorem RegBuffer_sends_all_witness:
  "\<exists>ms b'. RegBuffer_loop (\<lambda>m h. (kOk, h @ [m])) (bm_event (\<lambda>_. None :: unit option) []) (\<lambda>_. [])
      (replicate 200 \<lparr>iov_base = 4096, iov_len = 4096\<rparr>) 0
      (new_BufferManager \<lparr>reg_ack_reg_handle = 0, reg_ack_num_gpas = 0, reg_ack_status = 0\<rparr>
         \<lparr>dereg_ack_status = 0\<rparr>) [] = Some (kOk, b', ms) \<and>
    concat (map message_gpas ms) = replicate 200 \<lparr>iov_base = 4096, iov_len = 4096\<rparr> \<and>
    map message_more ms = replicate (length ms - 1) True @ [False] \<and>
    (\<forall>m \<in> set ms. length m \<le> unat kAvailableBufferSize)"
  by (rule RegBuffer_sends_all) simp_all

text \<open>
  C30: whatever the interleaving of the acknowledgements with the messages, as long as the server
  acknowledges no message before it is sent, the call returns with the result of the last
  acknowledgement once each message has its own; when one is missing, it times out and the missing
  ones stay counted.
\<close>

theorem RegBuffer_result:
  assumes "outstanding_registrations b = 0" and "\<not> bm_failed b"
    and "\<And>m h. fst (send m h) = kOk" and "length gpas + 86 \<le> 4294967296"
    and "n = (length gpas + 85) div 86"
    and "\<forall>j < n. length (concat (map acks [0..<Suc j])) \<le> Suc j"
    and "all = concat (map acks [0..<n]) @ late" and "length all \<le> n"
  shows "\<exists>b' h'. RegBuffer send (bm_event parse beyond) (\<lambda>i. reg_acks (acks (i div 86))) (reg_acks late)
      gpas b h =
    Some (if length all < n then Inl kDeadlineExceeded
          else if reg_ack_status (last (last_reg_buffer_ack b # all)) \<noteq> 0 then Inl kInternal
          else Inr (reg_ack_reg_handle (last (last_reg_buffer_ack b # all))), b', h') \<and>
    outstanding_registrations b' = int n - int (length all)"
proof -
  define s where "s = (take_acks (concat (map acks [0..<n])) b)
    \<lparr>outstanding_registrations := int n - int (length (concat (map acks [0..<n])))\<rparr>"
  have offs: "offsets 0 (length gpas) = map ((*) 86) [0..<n]"
    using offsets_upt [of 0 "length gpas"] assms(5) by simp
  obtain h1 where loop: "RegBuffer_loop send (bm_event parse beyond) (\<lambda>i. reg_acks (acks (i div 86))) gpas 0 b h
      = Some (kOk, s, h1)"
    unfolding RegBuffer_loop_run [OF assms(3,4)]
    using offs after_messages [OF assms(1,6)] by (simp add: s_def)
  have "AwaitWithTimeout (\<lambda>b. bm_failed b \<or> outstanding_registrations b = 0)
      (bm_event parse beyond) (reg_acks late) s
    = (int (length late) = outstanding_registrations s, take_acks late s)"
    using assms(2,7,8) by (intro await_acks) (simp_all add: s_def)
  moreover have "last_reg_buffer_ack (take_acks late s) = last (last_reg_buffer_ack b # all)"
    by (simp add: s_def assms(7) last_append)
  moreover have "int (length late) = outstanding_registrations s \<longleftrightarrow> \<not> length all < n"
    using assms(7,8) by (simp add: s_def) linarith
  ultimately show ?thesis
    using loop assms(1,2,7) by (simp add: RegBuffer_def s_def)
qed

theorem RegBuffer_result_witness:
  "\<exists>b' h'. RegBuffer (\<lambda>m h. (kOk, h @ [m])) (bm_event (\<lambda>_. None :: unit option) [])
      (\<lambda>i. reg_acks (if i div 86 = 1
         then [\<lparr>reg_ack_reg_handle = 0, reg_ack_num_gpas = 86, reg_ack_status = 0\<rparr>] else []))
      (reg_acks [\<lparr>reg_ack_reg_handle = 77, reg_ack_num_gpas = 100, reg_ack_status = 0\<rparr>])
      (replicate 100 \<lparr>iov_base = 4096, iov_len = 4096\<rparr>)
      (new_BufferManager \<lparr>reg_ack_reg_handle = 0, reg_ack_num_gpas = 0, reg_ack_status = 0\<rparr>
         \<lparr>dereg_ack_status = 0\<rparr>) [] = Some (Inr 77, b', h') \<and> outstanding_registrations b' = 0"
  using RegBuffer_result [where n = 2
      and all = "[\<lparr>reg_ack_reg_handle = 0, reg_ack_num_gpas = 86, reg_ack_status = 0\<rparr>,
        \<lparr>reg_ack_reg_handle = 77, reg_ack_num_gpas = 100, reg_ack_status = 0\<rparr>]"
      and acks = "\<lambda>k. if k = 1 then [\<lparr>reg_ack_reg_handle = 0, reg_ack_num_gpas = 86, reg_ack_status = 0\<rparr>] else []"
      and late = "[\<lparr>reg_ack_reg_handle = 77, reg_ack_num_gpas = 100, reg_ack_status = 0\<rparr>]"
      and gpas = "replicate 100 \<lparr>iov_base = 4096, iov_len = 4096\<rparr>"
      and b = "new_BufferManager \<lparr>reg_ack_reg_handle = 0, reg_ack_num_gpas = 0, reg_ack_status = 0\<rparr>
         \<lparr>dereg_ack_status = 0\<rparr>" and h = "[]" and send = "\<lambda>m h. (kOk, h @ [m])"
      and parse = "\<lambda>_. None :: unit option" and beyond = "[]"]
  by (simp add: new_BufferManager_def less_Suc_eq numeral_2_eq_2)

text \<open>
  Registering no address sends nothing and returns the handle of whatever registration was
  acknowledged last.
\<close>

theorem RegBuffer_empty:
  assumes "outstanding_registrations b = 0" and "\<not> bm_failed b" and "reg_ack_status (last_reg_buffer_ack b) = 0"
  shows "RegBuffer send step between events [] b h =
    Some (Inr (reg_ack_reg_handle (last_reg_buffer_ack b)), b, h)"
proof -
  have "AwaitWithTimeout (\<lambda>b. bm_failed b \<or> outstanding_registrations b = 0) step events b = (True, b)"
    using assms(1) by (cases events) simp_all
  then show ?thesis
    using assms by (subst RegBuffer_def, subst RegBuffer_loop.simps) simp
qed

theorem RegBuffer_empty_witness:
  "RegBuffer (\<lambda>m h. (kOk, h @ [m])) (bm_event (\<lambda>_. None :: unit option) []) (\<lambda>_. []) [] []
      (new_BufferManager \<lparr>reg_ack_reg_handle = 41, reg_ack_num_gpas = 3, reg_ack_status = 0\<rparr>
         \<lparr>dereg_ack_status = 0\<rparr>) []
   = Some (Inr 41, new_BufferManager \<lparr>reg_ack_reg_handle = 41, reg_ack_num_gpas = 3, reg_ack_status = 0\<rparr>
         \<lparr>dereg_ack_status = 0\<rparr>, [])"
  by (subst RegBuffer_empty) (simp_all add: new_BufferManager_def)

text \<open>
  A deregistration whose message is acknowledged returns the acknowledged status, and the
  manager is ready for the next one.
\<close>

theorem DeregBuffer_acked:
  assumes "\<not> awaiting_unreg_buffer b" and "\<not> bm_failed b" and "\<And>m h. fst (send m h) = kOk"
  shows "\<exists>b' h'. DeregBuffer send (bm_event parse beyond)
      (ReceiveControlMessage (DeregBufferAckMessage_bytes ack) # events) reg b h
    = (if dereg_ack_status ack = 0 then kOk else kInternal, b', h') \<and> \<not> awaiting_unreg_buffer b'"
proof -
  have a: "ValidateAndGetMessage 2 DeregBufferAckMessage_of (DeregBufferAckMessage_bytes ack) = Some ack"
    by (simp add: ValidateAndGetMessage_def wire_simps layout_simps del: command_code.simps)
  have "DeregBufferAckMessage_bytes ack \<noteq> []"
      "DeregBufferAckMessage_bytes ack ! 0 = command_code kDeregBufferAck"
    by (simp_all add: DeregBufferAckMessage_bytes_def del: command_code.simps)
  with a have event: "bm_event parse beyond (ReceiveControlMessage (DeregBufferAckMessage_bytes ack))
      (b\<lparr>awaiting_unreg_buffer := True\<rparr>)
    = b\<lparr>last_dereg_buffer_ack := ack, awaiting_unreg_buffer := False\<rparr>"
    by (simp add: BufferManager_ReceiveControlMessage_def HandleDeregBufferAck_def Suc_le_eq
        del: command_code.simps)
  have "AwaitWithTimeout (\<lambda>b. bm_failed b \<or> \<not> awaiting_unreg_buffer b) (bm_event parse beyond) events
      (b\<lparr>last_dereg_buffer_ack := ack, awaiting_unreg_buffer := False\<rparr>)
    = (True, b\<lparr>last_dereg_buffer_ack := ack, awaiting_unreg_buffer := False\<rparr>)"
    by (cases events) simp_all
  then show ?thesis
    using assms event by (simp add: DeregBuffer_def Let_def del: bm_event.simps)
qed

theorem DeregBuffer_acked_witness:
  "\<exists>b' h'. DeregBuffer (\<lambda>m h. (kOk, h @ [m])) (bm_event (\<lambda>_. None :: unit option) [])
      [ReceiveControlMessage (DeregBufferAckMessage_bytes \<lparr>dereg_ack_status = 0\<rparr>)] 41
      (new_BufferManager \<lparr>reg_ack_reg_handle = 41, reg_ack_num_gpas = 3, reg_ack_status = 0\<rparr>
         \<lparr>dereg_ack_status = 5\<rparr>) []
    = (kOk, b', h') \<and> \<not> awaiting_unreg_buffer b'"
  using DeregBuffer_acked [where b = "new_BufferManager
        \<lparr>reg_ack_reg_handle = 41, reg_ack_num_gpas = 3, reg_ack_status = 0\<rparr> \<lparr>dereg_ack_status = 5\<rparr>"
      and send = "\<lambda>m h. (kOk, h @ [m])" and ack = "\<lparr>dereg_ack_status = 0\<rparr>" and events = "[]"
      and parse = "\<lambda>_. None :: unit option" and beyond = "[]" and reg = 41 and h = "[]"]
  by (simp add: new_BufferManager_def)



end
