(* ===== verification/Dxs_Client.thy ===== *)
theory Dxs_Client
  imports Control_Command
begin

text \<open>
  The DXS client, \<^verbatim>\<open>dxs/client/dxs-client.{h,cc}\<close>, with the sockets and operations it hands out
  (\<^verbatim>\<open>send-socket.h\<close>, \<^verbatim>\<open>recv-socket.h\<close>, \<^verbatim>\<open>listen-socket.h\<close>, \<^verbatim>\<open>send-op.h\<close>, \<^verbatim>\<open>linearized-recv-op.h\<close>,
  \<^verbatim>\<open>sequence-number.h\<close>). Sockets and operations share state with the client through references; here the client
  holds that state in maps and an object is its key. The control message handler is a parameter:
  \<open>send\<close> sends a packet on a handler state \<open>'h\<close>. A call that takes \<^verbatim>\<open>mu_\<close> is atomic. Times are integers and are
  arguments. Opening the control channel is not modelled.
\<close>

section \<open>State\<close>

definition kWireVersion :: u64 where "kWireVersion = 7"
definition kMinimumWireVersion :: u64 where "kMinimumWireVersion = 1"
definition kAcceptAckVersion :: u64 where "kAcceptAckVersion = 4"

text \<open>\<^verbatim>\<open>OpStatus\<close> and \<^verbatim>\<open>DataSockStatus\<close> as the bytes on the wire.\<close>

definition kPending :: u8 where "kPending = 0"
definition kComplete :: u8 where "kComplete = 1"
definition kError :: u8 where "kError = 2"

definition kConnected :: i8 where "kConnected = 1"
definition kPendingConnect :: i8 where "kPendingConnect = 0"
definition kInvalidSock :: i8 where "kInvalidSock = - 1"
definition kInternalError :: i8 where "kInternalError = - 6"

definition kSendControlChannelFailure :: i8 where "kSendControlChannelFailure = - 9"
definition kRecvControlChannelFailure :: i8 where "kRecvControlChannelFailure = - 10"

record SendOpState =
  so_status :: u8
  so_req_status :: i8
  so_completion_time :: "int option"

record RecvOpState =
  ro_status :: u8
  ro_req_status :: i8
  ro_size :: u64
  ro_completion_time :: "int option"

record WireSocketAddr =
  wsa_is_ipv6 :: bool
  wsa_addr :: "u8 list"
  wsa_port :: u16

record ListenState =
  ls_port :: int
  ls_pending_connections :: "WireSocketAddr list"

record LlcmInfo =
  li_llcm_queue_offset :: u64
  li_llcm_queue_size :: u64
  li_reverse_llcm_queue_offset :: u64
  li_reverse_llcm_queue_size :: u64

record DxsClient =
  send_close_on_teardown :: bool
  next_op_id :: u64
  next_data_socket_handle :: u64
  next_listen_socket_handle :: u64
  outstanding_send_ops :: "u64 \<rightharpoonup> SendOpState"
  outstanding_linearized_recv_ops :: "u64 \<rightharpoonup> RecvOpState"
  outstanding_data_sockets :: "u64 \<rightharpoonup> i8"
  outstanding_listen_sockets :: "u64 \<rightharpoonup> ListenState"
  initialized :: bool
  server_build_id :: "u8 list"
  server_version :: u64
  failed :: bool
  llcm_info :: "LlcmInfo option"
  ping_seq_number :: u32
  outstanding_pings :: "u32 \<rightharpoonup> int"
  ping_results :: "u32 \<rightharpoonup> int"

definition new_DxsClient :: "bool \<Rightarrow> DxsClient" where
  "new_DxsClient close_on_teardown =
     \<lparr>send_close_on_teardown = close_on_teardown, next_op_id = 1000,
      next_data_socket_handle = 1, next_listen_socket_handle = 1,
      outstanding_send_ops = Map.empty, outstanding_linearized_recv_ops = Map.empty,
      outstanding_data_sockets = Map.empty, outstanding_listen_sockets = Map.empty,
      initialized = False, server_build_id = map (of_nat \<circ> of_char) ''<unknown>'',
      server_version = 0, failed = False, llcm_info = None,
      ping_seq_number = 0, outstanding_pings = Map.empty, ping_results = Map.empty\<rparr>"

definition new_SendOpState :: SendOpState where
  "new_SendOpState = \<lparr>so_status = kPending, so_req_status = 0, so_completion_time = None\<rparr>"

definition new_RecvOpState :: RecvOpState where
  "new_RecvOpState =
     \<lparr>ro_status = kPending, ro_req_status = 0, ro_size = 0, ro_completion_time = None\<rparr>"

definition new_ListenState :: ListenState where
  "new_ListenState = \<lparr>ls_port = 0, ls_pending_connections = []\<rparr>"

section \<open>Messages from the server\<close>

definition DxsClient_HandleVersionedInitAck :: "u8 list \<Rightarrow> DxsClient \<Rightarrow> DxsClient" where
  "DxsClient_HandleVersionedInitAck packet c =
     (if initialized c then c
      else case ValidateAndGetMessage 266 VersionedInitAckMessage_of packet of
        None \<Rightarrow> c
      | Some message \<Rightarrow>
          if vinit_ack_status message \<noteq> 0 then c\<lparr>failed := True\<rparr>
          else
            let c1 = c\<lparr>server_build_id := takeWhile (\<lambda>b. b \<noteq> 0) (vinit_ack_server_build_id message),
                       server_version := vinit_ack_server_version message\<rparr>
            in if server_version c1 < kMinimumWireVersion then c1\<lparr>failed := True\<rparr>
               else c1\<lparr>initialized := True\<rparr>)"

definition HandleInitLlcmAck :: "u8 list \<Rightarrow> DxsClient \<Rightarrow> DxsClient" where
  "HandleInitLlcmAck packet c =
     (if llcm_info c \<noteq> None then c
      else case ValidateAndGetMessage 34 InitLlcmAckMessage_of packet of
        None \<Rightarrow> c
      | Some message \<Rightarrow>
          if init_llcm_ack_status message \<noteq> 0 then c\<lparr>failed := True\<rparr>
          else c\<lparr>llcm_info := Some
            \<lparr>li_llcm_queue_offset = init_llcm_ack_llcm_queue_offset message,
             li_llcm_queue_size = init_llcm_ack_llcm_queue_size message,
             li_reverse_llcm_queue_offset = init_llcm_ack_reverse_llcm_queue_offset message,
             li_reverse_llcm_queue_size = init_llcm_ack_reverse_llcm_queue_size message\<rparr>\<rparr>)"

definition HandleListenAck :: "u8 list \<Rightarrow> DxsClient \<Rightarrow> DxsClient" where
  "HandleListenAck packet c =
     (case ValidateAndGetMessage 12 ListenAckMessage_of packet of
        None \<Rightarrow> c
      | Some message \<Rightarrow>
          (case outstanding_listen_sockets c (listen_ack_sock message) of
             None \<Rightarrow> c
           | Some state \<Rightarrow>
               c\<lparr>outstanding_listen_sockets := (outstanding_listen_sockets c)
                   (listen_ack_sock message \<mapsto> state\<lparr>ls_port := uint (listen_ack_port message)\<rparr>)\<rparr>))"

definition AddPendingConnection :: "WireSocketAddr \<Rightarrow> ListenState \<Rightarrow> ListenState" where
  "AddPendingConnection peer_saddr state =
     state\<lparr>ls_pending_connections := ls_pending_connections state @ [peer_saddr]\<rparr>"

definition HandleIncomingConnection :: "u8 list \<Rightarrow> DxsClient \<Rightarrow> DxsClient" where
  "HandleIncomingConnection packet c =
     (case ValidateAndGetMessage 9 IncomingConnectionMessage_of packet of
        None \<Rightarrow> c
      | Some message \<Rightarrow>
          (case outstanding_listen_sockets c (incoming_sock message) of
             None \<Rightarrow> c
           | Some state \<Rightarrow>
               if ls_port state \<le> 0 then c
               else c\<lparr>outstanding_listen_sockets := (outstanding_listen_sockets c)
                   (incoming_sock message \<mapsto> AddPendingConnection
                      \<lparr>wsa_is_ipv6 = False, wsa_addr = replicate 16 0, wsa_port = 0\<rparr> state)\<rparr>))"

definition HandleIncomingConnectionV2 :: "u8 list \<Rightarrow> DxsClient \<Rightarrow> DxsClient" where
  "HandleIncomingConnectionV2 packet c =
     (case ValidateAndGetMessage 28 IncomingConnectionMessageV2_of packet of
        None \<Rightarrow> c
      | Some message \<Rightarrow>
          (case outstanding_listen_sockets c (incoming2_sock message) of
             None \<Rightarrow> c
           | Some state \<Rightarrow>
               if ls_port state \<le> 0 then c
               else c\<lparr>outstanding_listen_sockets := (outstanding_listen_sockets c)
                   (incoming2_sock message \<mapsto> AddPendingConnection
                      \<lparr>wsa_is_ipv6 = incoming2_is_ipv6 message, wsa_addr = incoming2_addr message,
                       wsa_port = incoming2_port message\<rparr> state)\<rparr>))"

definition HandleConnectAck :: "u8 list \<Rightarrow> DxsClient \<Rightarrow> DxsClient" where
  "HandleConnectAck packet c =
     (case ValidateAndGetMessage 11 ConnectAckMessage_of packet of
        None \<Rightarrow> c
      | Some message \<Rightarrow>
          if outstanding_data_sockets c (connect_ack_sock message) = None then c
          else c\<lparr>outstanding_data_sockets := (outstanding_data_sockets c)
                   (connect_ack_sock message \<mapsto> connect_ack_status message)\<rparr>)"

definition HandleAcceptAck :: "u8 list \<Rightarrow> DxsClient \<Rightarrow> DxsClient" where
  "HandleAcceptAck packet c =
     (case ValidateAndGetMessage 10 AcceptAckMessage_of packet of
        None \<Rightarrow> c
      | Some message \<Rightarrow>
          if outstanding_data_sockets c (accept_ack_sock message) = None then c
          else c\<lparr>outstanding_data_sockets := (outstanding_data_sockets c)
                   (accept_ack_sock message \<mapsto>
                      (if accept_ack_status message = 0 then kConnected else kInvalidSock))\<rparr>)"

definition HandleSendAck :: "int \<Rightarrow> u8 list \<Rightarrow> DxsClient \<Rightarrow> DxsClient" where
  "HandleSendAck now packet c =
     (case ValidateAndGetMessage 11 SendAckMessage_of packet of
        None \<Rightarrow> c
      | Some message \<Rightarrow>
          (case outstanding_send_ops c (send_ack_op_id message) of
             None \<Rightarrow> c
           | Some op \<Rightarrow>
               let op1 = (if send_ack_status message = kComplete
                          then op\<lparr>so_completion_time := Some now\<rparr> else op);
                   op2 = op1\<lparr>so_status := send_ack_status message,
                             so_req_status := send_ack_req_status message\<rparr>
               in c\<lparr>outstanding_send_ops := (outstanding_send_ops c)(send_ack_op_id message \<mapsto> op2)\<rparr>))"

definition HandleRecvAck :: "int \<Rightarrow> u8 list \<Rightarrow> DxsClient \<Rightarrow> DxsClient" where
  "HandleRecvAck now packet c =
     (case ValidateAndGetMessage 19 RecvAckMessage_of packet of
        None \<Rightarrow> c
      | Some message \<Rightarrow>
          (case outstanding_linearized_recv_ops c (recv_ack_op_id message) of
             None \<Rightarrow> c
           | Some op \<Rightarrow>
               let op1 = (if recv_ack_status message = kComplete
                          then op\<lparr>ro_size := recv_ack_size message, ro_completion_time := Some now\<rparr>
                          else op);
                   op2 = op1\<lparr>ro_status := recv_ack_status message,
                             ro_req_status := recv_ack_req_status message\<rparr>
               in c\<lparr>outstanding_linearized_recv_ops :=
                      (outstanding_linearized_recv_ops c)(recv_ack_op_id message \<mapsto> op2)\<rparr>))"

definition HandlePong :: "int \<Rightarrow> u8 list \<Rightarrow> DxsClient \<Rightarrow> DxsClient" where
  "HandlePong now packet c =
     (case ValidateAndGetMessage 5 PongMessage_of packet of
        None \<Rightarrow> c
      | Some message \<Rightarrow>
          (case outstanding_pings c (pong_seq message) of
             None \<Rightarrow> c
           | Some start \<Rightarrow>
               c\<lparr>ping_results := (ping_results c)(pong_seq message \<mapsto> now - start),
                 outstanding_pings := (outstanding_pings c)(pong_seq message := None)\<rparr>))"

definition DxsClient_ReceiveControlMessage :: "int \<Rightarrow> u8 list \<Rightarrow> DxsClient \<Rightarrow> DxsClient" where
  "DxsClient_ReceiveControlMessage now buffer c =
     (if length buffer < 1 then c
      else case command_of (buffer ! 0) of
        Some kVersionedInitAck \<Rightarrow> DxsClient_HandleVersionedInitAck buffer c
      | Some kInitLlcmAck \<Rightarrow> HandleInitLlcmAck buffer c
      | Some kListenAck \<Rightarrow> HandleListenAck buffer c
      | Some kIncomingConnection \<Rightarrow> HandleIncomingConnection buffer c
      | Some kIncomingConnectionV2 \<Rightarrow> HandleIncomingConnectionV2 buffer c
      | Some kConnectAck \<Rightarrow> HandleConnectAck buffer c
      | Some kAcceptAck \<Rightarrow> HandleAcceptAck buffer c
      | Some kSendAck \<Rightarrow> HandleSendAck now buffer c
      | Some kRecvAck \<Rightarrow> HandleRecvAck now buffer c
      | Some kPong \<Rightarrow> HandlePong now buffer c
      | _ \<Rightarrow> c)"

definition DxsClient_OnControlChannelFailure :: "DxsClient \<Rightarrow> DxsClient" where
  "DxsClient_OnControlChannelFailure c =
     c\<lparr>failed := True,
       outstanding_send_ops := map_option
         (\<lambda>op. op\<lparr>so_status := kError, so_req_status := kSendControlChannelFailure\<rparr>)
         \<circ> outstanding_send_ops c,
       outstanding_linearized_recv_ops := map_option
         (\<lambda>op. op\<lparr>ro_status := kError, ro_req_status := kRecvControlChannelFailure\<rparr>)
         \<circ> outstanding_linearized_recv_ops c,
       outstanding_data_sockets := map_option (\<lambda>_. kInternalError) \<circ> outstanding_data_sockets c,
       outstanding_listen_sockets := map_option (\<lambda>sock. sock\<lparr>ls_port := - 1\<rparr>)
         \<circ> outstanding_listen_sockets c\<rparr>"

section \<open>Operations\<close>

text \<open>
  Registering puts the shared state under its key; when the object is destroyed, its cleanup takes
  the key out before the object's own destructor runs.
\<close>

definition RegisterSendOp :: "u64 \<Rightarrow> DxsClient \<Rightarrow> DxsClient" where
  "RegisterSendOp op c =
     c\<lparr>outstanding_send_ops := (outstanding_send_ops c)(op \<mapsto> new_SendOpState)\<rparr>"

definition destroy_SendOp :: "u64 \<Rightarrow> DxsClient \<Rightarrow> DxsClient" where
  "destroy_SendOp op c = c\<lparr>outstanding_send_ops := (outstanding_send_ops c)(op := None)\<rparr>"

definition RegisterLinearizedRecvOp :: "u64 \<Rightarrow> DxsClient \<Rightarrow> DxsClient" where
  "RegisterLinearizedRecvOp op c =
     c\<lparr>outstanding_linearized_recv_ops := (outstanding_linearized_recv_ops c)(op \<mapsto> new_RecvOpState)\<rparr>"

definition destroy_LinearizedRecvOp :: "u64 \<Rightarrow> DxsClient \<Rightarrow> DxsClient" where
  "destroy_LinearizedRecvOp op c =
     c\<lparr>outstanding_linearized_recv_ops := (outstanding_linearized_recv_ops c)(op := None)\<rparr>"

text \<open>What \<^verbatim>\<open>Test\<close> returns after it has polled: \<open>None\<close> while pending.\<close>

definition SendOp_Test :: "SendOpState \<Rightarrow> StatusCode option" where
  "SendOp_Test op =
     (if so_status op = kPending then None
      else if so_status op = kComplete then Some kOk
      else Some kInternal)"

definition LinearizedRecvOp_Test :: "RecvOpState \<Rightarrow> u64 StatusOr option" where
  "LinearizedRecvOp_Test op =
     (if ro_status op = kPending then None
      else if ro_status op = kComplete then Some (Inr (ro_size op))
      else Some (Inl kInternal))"

text \<open>The server's answer to a connection, for send and receive sockets.\<close>

definition SocketReady :: "i8 \<Rightarrow> StatusCode option" where
  "SocketReady status =
     (if status = kPendingConnect then None
      else if status = kConnected then Some kOk
      else Some kInternal)"

definition ListenSocket_SocketReady :: "ListenState \<Rightarrow> StatusCode option" where
  "ListenSocket_SocketReady state =
     (if ls_port state = - 1 then Some kInternal
      else if ls_port state = 0 then None
      else Some kOk)"

section \<open>Sockets\<close>

definition RegisterSendSocket :: "u64 \<Rightarrow> DxsClient \<Rightarrow> DxsClient" where
  "RegisterSendSocket handle c =
     c\<lparr>outstanding_data_sockets := (outstanding_data_sockets c)(handle \<mapsto> kPendingConnect)\<rparr>"

definition RegisterRecvSocket :: "u64 \<Rightarrow> DxsClient \<Rightarrow> DxsClient" where
  "RegisterRecvSocket handle c =
     c\<lparr>outstanding_data_sockets := (outstanding_data_sockets c)
         (handle \<mapsto> (if server_version c \<ge> kAcceptAckVersion then kPendingConnect else kConnected))\<rparr>"

definition RegisterListenSocket :: "u64 \<Rightarrow> DxsClient \<Rightarrow> DxsClient" where
  "RegisterListenSocket handle c =
     c\<lparr>outstanding_listen_sockets := (outstanding_listen_sockets c)(handle \<mapsto> new_ListenState)\<rparr>"

definition erase_data_socket :: "u64 \<Rightarrow> DxsClient \<Rightarrow> DxsClient" where
  "erase_data_socket handle c =
     c\<lparr>outstanding_data_sockets := (outstanding_data_sockets c)(handle := None)\<rparr>"

definition erase_listen_socket :: "u64 \<Rightarrow> DxsClient \<Rightarrow> DxsClient" where
  "erase_listen_socket handle c =
     c\<lparr>outstanding_listen_sockets := (outstanding_listen_sockets c)(handle := None)\<rparr>"

definition destroy_SendSocket ::
    "(u8 list \<Rightarrow> 'h \<Rightarrow> StatusCode \<times> 'h) \<Rightarrow> u64 \<Rightarrow> DxsClient \<times> 'h \<Rightarrow> DxsClient \<times> 'h" where
  "destroy_SendSocket send handle = (\<lambda>(c, h).
     (erase_data_socket handle c,
      if send_close_on_teardown c
      then snd (send (CloseDataSockMessage_bytes \<lparr>close_data_sock = handle\<rparr>) h) else h))"

definition destroy_RecvSocket ::
    "(u8 list \<Rightarrow> 'h \<Rightarrow> StatusCode \<times> 'h) \<Rightarrow> u64 \<Rightarrow> DxsClient \<times> 'h \<Rightarrow> DxsClient \<times> 'h" where
  "destroy_RecvSocket send handle = (\<lambda>(c, h).
     (erase_data_socket handle c,
      snd (send (CloseDataSockMessage_bytes \<lparr>close_data_sock = handle\<rparr>) h)))"

definition destroy_ListenSocket ::
    "(u8 list \<Rightarrow> 'h \<Rightarrow> StatusCode \<times> 'h) \<Rightarrow> u64 \<Rightarrow> DxsClient \<times> 'h \<Rightarrow> DxsClient \<times> 'h" where
  "destroy_ListenSocket send handle = (\<lambda>(c, h).
     (erase_listen_socket handle c,
      snd (send (CloseListenSockMessage_bytes \<lparr>close_listen_sock = handle\<rparr>) h)))"

text \<open>When the message cannot be sent, the object just made is destroyed again.\<close>

definition Listen ::
    "(u8 list \<Rightarrow> 'h \<Rightarrow> StatusCode \<times> 'h) \<Rightarrow> DxsClient \<times> 'h \<Rightarrow> u64 StatusOr \<times> DxsClient \<times> 'h" where
  "Listen send = (\<lambda>(c, h).
     let handle = next_listen_socket_handle c;
         c1 = RegisterListenSocket handle (c\<lparr>next_listen_socket_handle := handle + 1\<rparr>)
     in case send (ListenMessage_bytes \<lparr>listen_sock = handle\<rparr>) h of (status, h1) \<Rightarrow>
        if status \<noteq> kOk then (Inl status, destroy_ListenSocket send handle (c1, h1))
        else (Inr handle, c1, h1))"

text \<open>\<open>wire_addr\<close> is the result of \<^verbatim>\<open>PackIpAddress\<close>.\<close>

definition Connect ::
    "(u8 list \<Rightarrow> 'h \<Rightarrow> StatusCode \<times> 'h) \<Rightarrow> WireSocketAddr StatusOr \<Rightarrow> DxsClient \<times> 'h
      \<Rightarrow> u64 StatusOr \<times> DxsClient \<times> 'h" where
  "Connect send wire_addr = (\<lambda>(c, h).
     case wire_addr of
       Inl e \<Rightarrow> (Inl e, c, h)
     | Inr addr \<Rightarrow>
         let handle = next_data_socket_handle c;
             c1 = RegisterSendSocket handle (c\<lparr>next_data_socket_handle := handle + 1\<rparr>)
         in case send (ConnectMessage_bytes \<lparr>connect_addr = wsa_addr addr, connect_sock = handle,
                         connect_port = wsa_port addr, connect_ipv6 = wsa_is_ipv6 addr\<rparr>) h of
              (status, h1) \<Rightarrow>
            if status \<noteq> kOk then (Inl status, destroy_SendSocket send handle (c1, h1))
            else (Inr handle, c1, h1))"

definition SendSocket_Send ::
    "(u8 list \<Rightarrow> 'h \<Rightarrow> StatusCode \<times> 'h) \<Rightarrow> u64 \<Rightarrow> u64 \<Rightarrow> u64 \<Rightarrow> u64 \<Rightarrow> DxsClient \<times> 'h
      \<Rightarrow> u64 StatusOr \<times> DxsClient \<times> 'h" where
  "SendSocket_Send send handle offset bytes reg_handle = (\<lambda>(c, h).
     let op = next_op_id c;
         c1 = RegisterSendOp op (c\<lparr>next_op_id := op + 1\<rparr>)
     in case send (SendMessage_bytes \<lparr>send_sock = handle, send_reg_handle = reg_handle,
                     send_op_id = op, send_offset = offset, send_size = bytes\<rparr>) h of (status, h1) \<Rightarrow>
        if status \<noteq> kOk then (Inl status, destroy_SendOp op c1, h1)
        else (Inr op, c1, h1))"

definition RecvLinearized ::
    "(u8 list \<Rightarrow> 'h \<Rightarrow> StatusCode \<times> 'h) \<Rightarrow> u64 \<Rightarrow> u64 \<Rightarrow> u64 \<Rightarrow> u64 \<Rightarrow> DxsClient \<times> 'h
      \<Rightarrow> u64 StatusOr \<times> DxsClient \<times> 'h" where
  "RecvLinearized send handle offset bytes reg_handle = (\<lambda>(c, h).
     let op = next_op_id c;
         c1 = RegisterLinearizedRecvOp op (c\<lparr>next_op_id := op + 1\<rparr>)
     in case send (RecvMessage_bytes \<lparr>recv_sock = handle, recv_offset = offset, recv_size = bytes,
                     recv_reg_handle = reg_handle, recv_op_id = op\<rparr>) h of (status, h1) \<Rightarrow>
        if status \<noteq> kOk then (Inl status, destroy_LinearizedRecvOp op c1, h1)
        else (Inr op, c1, h1))"

text \<open>
  A listening socket's \<^verbatim>\<open>Accept\<close>: \<open>Inr None\<close> is the null pointer for no pending connection; otherwise the
  handle of the new socket and its peer.
\<close>

definition Accept ::
    "(u8 list \<Rightarrow> 'h \<Rightarrow> StatusCode \<times> 'h) \<Rightarrow> u64 \<Rightarrow> ListenState \<Rightarrow> DxsClient \<times> 'h
      \<Rightarrow> (u64 \<times> WireSocketAddr) option StatusOr \<times> DxsClient \<times> 'h" where
  "Accept send listen_handle state = (\<lambda>(c, h).
     if ls_port state \<le> 0 then (Inl kFailedPrecondition, c, h)
     else case ls_pending_connections state of
       [] \<Rightarrow> (Inr None, c, h)
     | peer # rest \<Rightarrow>
         let c1 = c\<lparr>outstanding_listen_sockets := (outstanding_listen_sockets c)
                      (listen_handle \<mapsto> state\<lparr>ls_pending_connections := rest\<rparr>)\<rparr>;
             handle = next_data_socket_handle c1;
             c2 = RegisterRecvSocket handle (c1\<lparr>next_data_socket_handle := handle + 1\<rparr>)
         in case send (AcceptMessage_bytes \<lparr>accept_listen_sock = listen_handle,
                         accept_data_sock = handle\<rparr>) h of (status, h1) \<Rightarrow>
            if status \<noteq> kOk then (Inl status, destroy_RecvSocket send handle (c2, h1))
            else (Inr (Some (handle, peer)), c2, h1))"

section \<open>Ping\<close>

definition Ping_begin ::
    "(u8 list \<Rightarrow> 'h \<Rightarrow> StatusCode \<times> 'h) \<Rightarrow> int \<Rightarrow> DxsClient \<times> 'h \<Rightarrow> u32 StatusOr \<times> DxsClient \<times> 'h" where
  "Ping_begin send now = (\<lambda>(c, h).
     let seq = ping_seq_number c + 1;
         c1 = c\<lparr>ping_seq_number := seq, outstanding_pings := (outstanding_pings c)(seq \<mapsto> now)\<rparr>
     in case send (PingMessage_bytes \<lparr>ping_seq = seq\<rparr>) h of (status, h1) \<Rightarrow>
        if status \<noteq> kOk then (Inl status, c1, h1) else (Inr seq, c1, h1))"

text \<open>One round of the polling loop, after \<^verbatim>\<open>RxPoll\<close>: \<open>None\<close> to go on.\<close>

definition Ping_check :: "u32 \<Rightarrow> DxsClient \<Rightarrow> int StatusOr option \<times> DxsClient" where
  "Ping_check seq c =
     (if failed c \<or> outstanding_pings c seq = None
      then case ping_results c seq of
        None \<Rightarrow> (Some (Inl kNotFound), c)
      | Some ret \<Rightarrow> (Some (Inr ret), c\<lparr>ping_results := (ping_results c)(seq := None)\<rparr>)
      else (None, c))"

text \<open>Destroying the client with objects outstanding aborts the process, which is \<open>None\<close>.\<close>

definition destroy_DxsClient :: "DxsClient \<Rightarrow> unit option" where
  "destroy_DxsClient c =
     (if outstanding_listen_sockets c = Map.empty \<and> outstanding_data_sockets c = Map.empty
         \<and> outstanding_linearized_recv_ops c = Map.empty \<and> outstanding_send_ops c = Map.empty
      then Some () else None)"

text \<open>The condition \<^verbatim>\<open>Init\<close> waits for, and its result once it holds.\<close>

definition Init_done :: "bool \<Rightarrow> DxsClient \<Rightarrow> bool" where
  "Init_done enable_llcm c =
     (let awaiting_llcm = (enable_llcm \<and> llcm_info c = None)
      in failed c \<or> (initialized c \<and> \<not> awaiting_llcm))"

definition Init_status :: "DxsClient \<Rightarrow> StatusCode" where
  "Init_status c = (if failed c then kInternal else kOk)"

end
