(* ===== verification/Iovecs.thy ===== *)
theory Iovecs
  imports Control_Command
begin

text \<open>
  Merging of adjacent memory ranges, \<^verbatim>\<open>dxs/client/coalesce-iovecs.cc\<close>. The vector is updated in place
  through the two iterators \<open>merge\<close> and \<open>it\<close>, which are indices here.
\<close>

section \<open>Operations\<close>

definition WouldAddOverflow :: "u32 \<Rightarrow> u32 \<Rightarrow> bool" where
  "WouldAddOverflow len1 len2 = (let result = len1 + len2 in result < len1)"

text \<open>The lengths, of 64 bits, are converted to the 32 bits of the parameters.\<close>

definition can_merge :: "iovec \<Rightarrow> iovec \<Rightarrow> bool" where
  "can_merge v w \<longleftrightarrow> iov_base v + iov_len v = iov_base w \<and>
     \<not> WouldAddOverflow (ucast (iov_len v)) (ucast (iov_len w))"

function CoalesceIovecs_loop :: "nat \<Rightarrow> nat \<Rightarrow> iovec list \<Rightarrow> nat \<times> iovec list" where
  "CoalesceIovecs_loop merge it iovecs =
     (if it < length iovecs
      then if can_merge (iovecs ! merge) (iovecs ! it)
           then CoalesceIovecs_loop merge (it + 1)
                  (iovecs[merge := (iovecs ! merge)
                     \<lparr>iov_len := iov_len (iovecs ! merge) + iov_len (iovecs ! it)\<rparr>])
           else CoalesceIovecs_loop (merge + 1) (it + 1) (iovecs[merge + 1 := iovecs ! it])
      else (merge, iovecs))"
  by pat_completeness auto
termination by (relation "measure (\<lambda>(merge, it, iovecs). length iovecs - it)") auto

text \<open>Advancing the iterator of an empty vector is undefined, which is \<open>None\<close>.\<close>

definition CoalesceIovecs :: "iovec list \<Rightarrow> iovec list option" where
  "CoalesceIovecs iovecs =
     (if iovecs = [] then None
      else case CoalesceIovecs_loop 0 1 iovecs of (merge, v) \<Rightarrow> Some (take (merge + 1) v))"

declare CoalesceIovecs_loop.simps [simp del]

section \<open>The same without indices\<close>

fun coalesce :: "iovec \<Rightarrow> iovec list \<Rightarrow> iovec list" where
  "coalesce v [] = [v]"
| "coalesce v (w # ws) =
     (if can_merge v w then coalesce (v\<lparr>iov_len := iov_len v + iov_len w\<rparr>) ws else v # coalesce w ws)"

lemma CoalesceIovecs_loop_coalesce:
  assumes "m < i" and "i \<le> length vs" and "CoalesceIovecs_loop m i vs = (m', vs')"
  shows "take (m' + 1) vs' = take m vs @ coalesce (vs ! m) (drop i vs)"
  using assms
proof (induction m i vs rule: CoalesceIovecs_loop.induct)
  case (1 m i vs)
  show ?case
  proof (cases "i < length vs")
    case False
    then have "m' = m" "vs' = vs" "drop i vs = []" using 1(5) by (simp_all add: CoalesceIovecs_loop.simps)
    then show ?thesis using 1(3,4) by (simp add: take_Suc_conv_app_nth)
  next
    case True
    then have rest: "drop i vs = vs ! i # drop (Suc i) vs" by (simp add: Cons_nth_drop_Suc)
    show ?thesis
    proof (cases "can_merge (vs ! m) (vs ! i)")
      case merge: True
      define ws where "ws = vs[m := (vs ! m)\<lparr>iov_len := iov_len (vs ! m) + iov_len (vs ! i)\<rparr>]"
      have "take (m' + 1) vs' = take m ws @ coalesce (ws ! m) (drop (i + 1) ws)"
        unfolding ws_def
      proof (rule 1(1) [OF True merge])
        show "CoalesceIovecs_loop m (i + 1)
            (vs[m := (vs ! m)\<lparr>iov_len := iov_len (vs ! m) + iov_len (vs ! i)\<rparr>]) = (m', vs')"
          using 1(5) True merge by (subst (asm) CoalesceIovecs_loop.simps) simp
      qed (use 1(3,4) True in simp_all)
      then show ?thesis using 1(3) True merge rest by (simp add: ws_def)
    next
      case other: False
      define ws where "ws = vs[m + 1 := vs ! i]"
      have "take (m' + 1) vs' = take (m + 1) ws @ coalesce (ws ! (m + 1)) (drop (i + 1) ws)"
        unfolding ws_def
      proof (rule 1(2) [OF True other])
        show "CoalesceIovecs_loop (m + 1) (i + 1) (vs[m + 1 := vs ! i]) = (m', vs')"
          using 1(5) True other by (subst (asm) CoalesceIovecs_loop.simps) simp
      qed (use 1(3,4) True in simp_all)
      then show ?thesis using 1(3) True other rest by (simp add: ws_def take_Suc_conv_app_nth)
    qed
  qed
qed

lemma CoalesceIovecs_Cons: "CoalesceIovecs (v # vs) = Some (coalesce v vs)"
  using CoalesceIovecs_loop_coalesce [of 0 1 "v # vs"]
  by (cases "CoalesceIovecs_loop 0 1 (v # vs)") (simp add: CoalesceIovecs_def)

section \<open>The memory described\<close>

text \<open>The addresses of a range, in order.\<close>

definition span :: "iovec \<Rightarrow> u64 list" where
  "span v = map (\<lambda>k. iov_base v + of_nat k) [0..<unat (iov_len v)]"

lemma span_merge:
  assumes "iov_base v + iov_len v = iov_base w"
    and "unat (iov_len v) + unat (iov_len w) < 18446744073709551616"
  shows "span (v\<lparr>iov_len := iov_len v + iov_len w\<rparr>) = span v @ span w"
proof -
  have n: "unat (iov_len v + iov_len w) = unat (iov_len v) + unat (iov_len w)"
    using assms(2) by (simp add: unat_add_u64)
  have "[a..<a + b] = map (\<lambda>k. a + k) [0..<b]" for a b :: nat
    by (rule nth_equalityI) simp_all
  then have "map (\<lambda>k. iov_base v + of_nat k) [unat (iov_len v)..<unat (iov_len v) + unat (iov_len w)] = span w"
    using assms(1) [symmetric] by (simp add: span_def comp_def add.assoc)
  then show ?thesis
    by (simp add: n span_def upt_add_eq_append [of 0])
qed

text \<open>Ranges whose length fits the 32 bits in which the overflow check is done.\<close>

definition short :: "iovec \<Rightarrow> bool" where
  "short v \<longleftrightarrow> unat (iov_len v) < 4294967296"

lemma no_overflow_sum:
  assumes "\<not> WouldAddOverflow (ucast a) (ucast b)"
    and "unat (a :: u64) < 4294967296" and "unat (b :: u64) < 4294967296"
  shows "unat a + unat b < 4294967296"
proof (rule ccontr)
  assume big: "\<not> unat a + unat b < 4294967296"
  then have "(unat a + unat b) mod 4294967296 = unat a + unat b - 4294967296"
    using assms(2,3) by (simp add: mod_if)
  moreover have "unat (ucast a :: u32) = unat a" "unat (ucast b :: u32) = unat b"
    using assms(2,3) by (simp_all add: unsigned_ucast_eq take_bit_nat_eq_self)
  ultimately have "(ucast a :: u32) + ucast b < ucast a"
    using big assms(2,3) by (simp add: word_less_nat_alt unat_word_ariths)
  then show False using assms(1) by (simp add: WouldAddOverflow_def)
qed

lemma merge_short:
  assumes "can_merge v w" and "short v" and "short w"
  shows "short (v\<lparr>iov_len := iov_len v + iov_len w\<rparr>)"
    and "span (v\<lparr>iov_len := iov_len v + iov_len w\<rparr>) = span v @ span w"
proof -
  have "unat (iov_len v) + unat (iov_len w) < 4294967296"
    using assms by (intro no_overflow_sum) (simp_all add: can_merge_def short_def)
  then show "short (v\<lparr>iov_len := iov_len v + iov_len w\<rparr>)"
    "span (v\<lparr>iov_len := iov_len v + iov_len w\<rparr>) = span v @ span w"
    using assms(1) by (simp_all add: short_def unat_add_u64 span_merge can_merge_def)
qed

lemma coalesce_span:
  assumes "short v" and "list_all short vs"
  shows "concat (map span (coalesce v vs)) = concat (map span (v # vs)) \<and> list_all short (coalesce v vs)"
  using assms by (induction v vs rule: coalesce.induct) (simp_all add: merge_short)

text \<open>No two neighbours of the result could be merged.\<close>

fun merged :: "iovec list \<Rightarrow> bool" where
  "merged (v # w # vs) = (\<not> can_merge v w \<and> merged (w # vs))"
| "merged vs = True"

lemma can_merge_iff:
  assumes "short v" and "short w"
  shows "can_merge v w \<longleftrightarrow> iov_base v + iov_len v = iov_base w \<and>
    unat (iov_len v) + unat (iov_len w) < 4294967296"
proof -
  have "unat (ucast (iov_len v) :: u32) = unat (iov_len v)" "unat (ucast (iov_len w) :: u32) = unat (iov_len w)"
    using assms by (simp_all add: short_def unsigned_ucast_eq take_bit_nat_eq_self)
  then have "unat (iov_len v) + unat (iov_len w) < 4294967296 \<Longrightarrow>
      \<not> WouldAddOverflow (ucast (iov_len v)) (ucast (iov_len w))"
    by (simp add: WouldAddOverflow_def word_less_nat_alt unat_word_ariths)
  then show ?thesis
    using no_overflow_sum assms by (auto simp: can_merge_def short_def)
qed

text \<open>A range only grows at its end, so what could not be merged with it before cannot be merged later.\<close>

lemma coalesce_head:
  assumes "short v" and "list_all short vs"
  shows "\<exists>v' vs'. coalesce v vs = v' # vs' \<and> iov_base v' = iov_base v \<and>
    unat (iov_len v) \<le> unat (iov_len v') \<and> short v'"
  using assms
proof (induction v vs rule: coalesce.induct)
  case (2 v w ws)
  show ?case
  proof (cases "can_merge v w")
    case True
    let ?v = "v\<lparr>iov_len := iov_len v + iov_len w\<rparr>"
    have "short ?v" using True 2(3,4) by (simp add: merge_short)
    moreover have "unat (iov_len v) \<le> unat (iov_len ?v)"
      using True 2(3,4) by (simp add: can_merge_iff unat_add_u64)
    ultimately show ?thesis using 2(1) [OF True] 2(4) True by auto
  qed (use 2(3) in simp)
qed simp

lemma merged_coalesce:
  assumes "short v" and "list_all short vs"
  shows "merged (coalesce v vs)"
  using assms
proof (induction v vs rule: coalesce.induct)
  case (2 v w ws)
  show ?case
  proof (cases "can_merge v w")
    case True
    then show ?thesis using 2(1) [OF True] 2(3,4) by (simp add: merge_short)
  next
    case False
    obtain w' ws' where w': "coalesce w ws = w' # ws'" "iov_base w' = iov_base w"
        "unat (iov_len w) \<le> unat (iov_len w')" "short w'"
      using coalesce_head [of w ws] 2(4) by auto
    then have "\<not> can_merge v w'" using False 2(3,4) by (auto simp: can_merge_iff)
    then show ?thesis using False w'(1) 2(2) [OF False] 2(4) by simp
  qed
qed simp

lemma coalesce_merged: "merged (v # vs) \<Longrightarrow> coalesce v vs = v # vs"
  by (induction v vs rule: coalesce.induct) simp_all

section \<open>Properties\<close>



text \<open>
  The overflow check looks at 32 bits of the lengths only, so two neighbours of which one is
  longer can be merged to a range of length zero.
\<close>

theorem CoalesceIovecs_truncates:
  "CoalesceIovecs [\<lparr>iov_base = 0, iov_len = 9223372036854775808\<rparr>,
      \<lparr>iov_base = 9223372036854775808, iov_len = 9223372036854775808\<rparr>]
    = Some [\<lparr>iov_base = 0, iov_len = 0\<rparr>]"
  by (simp add: CoalesceIovecs_Cons can_merge_def WouldAddOverflow_def)

end
