(* ===== verification/Addr_Translator.thy ===== *)
theory Addr_Translator
  imports Iovecs
begin

text \<open>
  Mapping of shared GPU buffers for a network interface:
  \<^verbatim>\<open>buffer_mgmt_daemon/fastrak_addr_translator.{h,cc}\<close> on top of
  \<^verbatim>\<open>dmabuf_bridge/dmabuf_importer.c\<close>. The three ioctls of the kernel helper device are functions on a
  state \<open>'w\<close>; a negative return value is \<open>None\<close> or \<open>False\<close>.
\<close>

section \<open>The device\<close>

type_synonym pci_bdf = "u16 \<times> u16 \<times> u16 \<times> u16"

record 'w import_helper =
  ioctl_map :: "int \<Rightarrow> pci_bdf \<Rightarrow> i32 \<Rightarrow> 'w \<Rightarrow> (i32 \<times> u32) option \<times> 'w"
  ioctl_get_iovecs :: "i32 \<Rightarrow> u32 \<Rightarrow> 'w \<Rightarrow> iovec list option \<times> 'w"
  ioctl_unmap :: "i32 \<Rightarrow> 'w \<Rightarrow> bool \<times> 'w"

record dmabuf_importer_buf =
  attach_handle :: i32
  num_iovecs :: u32

definition dmabuf_importer_map ::
    "'w import_helper \<Rightarrow> int \<Rightarrow> pci_bdf \<Rightarrow> i32 \<Rightarrow> 'w \<Rightarrow> dmabuf_importer_buf option \<times> 'w" where
  "dmabuf_importer_map dev dmabuf_fd dbdf handle w =
     (case ioctl_map dev dmabuf_fd dbdf handle w of
        (None, w1) \<Rightarrow> (None, w1)
      | (Some (h, count), w1) \<Rightarrow> (Some \<lparr>attach_handle = h, num_iovecs = count\<rparr>, w1))"

definition dmabuf_importer_unmap ::
    "'w import_helper \<Rightarrow> dmabuf_importer_buf \<Rightarrow> 'w \<Rightarrow> bool \<times> 'w" where
  "dmabuf_importer_unmap dev buf w = ioctl_unmap dev (attach_handle buf) w"

text \<open>
  The loop that collects the address ranges. \<open>None\<close> is a call that does not return normally: it spins
  as long as the device delivers nothing, and a delivery past the end of the array is undefined.
\<close>

partial_function (option) dmabuf_importer_get_iovecs_loop ::
    "'w import_helper \<Rightarrow> dmabuf_importer_buf \<Rightarrow> u32 \<Rightarrow> iovec list \<Rightarrow> 'w \<Rightarrow> (bool \<times> iovec list \<times> 'w) option" where
  "dmabuf_importer_get_iovecs_loop dev buf offset iovecs w =
     (if offset < num_iovecs buf
      then case ioctl_get_iovecs dev (attach_handle buf) offset w of
        (r, w1) \<Rightarrow>
          (case r of
             None \<Rightarrow> Some (False, iovecs, w1)
           | Some vs \<Rightarrow>
               if unat offset + length vs > length iovecs then None
               else dmabuf_importer_get_iovecs_loop dev buf (offset + of_nat (length vs))
                      (take (unat offset) iovecs @ vs @ drop (unat offset + length vs) iovecs) w1)
      else Some (True, iovecs, w))"

definition dmabuf_importer_get_iovecs ::
    "'w import_helper \<Rightarrow> dmabuf_importer_buf \<Rightarrow> iovec list \<Rightarrow> 'w \<Rightarrow> (bool \<times> iovec list \<times> 'w) option" where
  "dmabuf_importer_get_iovecs dev buf iovecs w = dmabuf_importer_get_iovecs_loop dev buf 0 iovecs w"

section \<open>The translator\<close>

record AddrCtx =
  ctx_buf :: dmabuf_importer_buf
  ctx_vecs :: "iovec list"

record FasTrakAddrTranslator =
  addr_ctxs :: "u64 \<rightharpoonup> AddrCtx"
  nic_pci :: pci_bdf
  next_id :: u64
  next_attach_handle :: i32

text \<open>The translator after a successful \<^verbatim>\<open>Init\<close>, which reads the address of the interface.\<close>

definition new_FasTrakAddrTranslator :: "pci_bdf \<Rightarrow> FasTrakAddrTranslator" where
  "new_FasTrakAddrTranslator pci =
     \<lparr>addr_ctxs = Map.empty, nic_pci = pci, next_id = 0, next_attach_handle = 0\<rparr>"

definition PrepareIovecs ::
    "'w import_helper \<Rightarrow> bool \<Rightarrow> dmabuf_importer_buf \<Rightarrow> 'w \<Rightarrow> (iovec list StatusOr \<times> 'w) option" where
  "PrepareIovecs dev coalesce_flag buf w =
     (case dmabuf_importer_get_iovecs dev buf
        (replicate (unat (num_iovecs buf)) \<lparr>iov_base = 0, iov_len = 0\<rparr>) w of
        None \<Rightarrow> None
      | Some (ok, iovecs, w1) \<Rightarrow>
          if \<not> ok then Some (Inl kInternal, w1)
          else if \<not> coalesce_flag then Some (Inr iovecs, w1)
          else map_option (\<lambda>vs. (Inr vs, w1)) (CoalesceIovecs iovecs))"

definition GetIovecs ::
    "'w import_helper \<Rightarrow> bool \<Rightarrow> u64 \<Rightarrow> FasTrakAddrTranslator \<Rightarrow> 'w
      \<Rightarrow> (iovec list StatusOr \<times> FasTrakAddrTranslator \<times> 'w) option" where
  "GetIovecs dev coalesce_flag dma_id t w =
     (case addr_ctxs t dma_id of
        None \<Rightarrow> Some (Inl kInternal, t, w)
      | Some ctx \<Rightarrow>
          if ctx_vecs ctx \<noteq> [] then Some (Inr (ctx_vecs ctx), t, w)
          else case PrepareIovecs dev coalesce_flag (ctx_buf ctx) w of
            None \<Rightarrow> None
          | Some (Inl e, w1) \<Rightarrow> Some (Inl e, t, w1)
          | Some (Inr vs, w1) \<Rightarrow>
              Some (Inr vs, t\<lparr>addr_ctxs := (addr_ctxs t)(dma_id \<mapsto> ctx\<lparr>ctx_vecs := vs\<rparr>)\<rparr>, w1))"

definition Translator_Map ::
    "'w import_helper \<Rightarrow> int \<Rightarrow> FasTrakAddrTranslator \<Rightarrow> 'w \<Rightarrow> u64 StatusOr \<times> FasTrakAddrTranslator \<times> 'w" where
  "Translator_Map dev dmabuf_fd t w =
     (case dmabuf_importer_map dev dmabuf_fd (nic_pci t) (next_attach_handle t) w of
        (None, w1) \<Rightarrow> (Inl kInternal, t, w1)
      | (Some buf, w1) \<Rightarrow>
          let ret_id = next_id t
          in (Inr ret_id,
              t\<lparr>next_attach_handle := next_attach_handle t + 1, next_id := ret_id + 1,
                addr_ctxs := (addr_ctxs t)(ret_id \<mapsto> \<lparr>ctx_buf = buf, ctx_vecs = []\<rparr>)\<rparr>, w1))"

definition Translator_Unmap ::
    "'w import_helper \<Rightarrow> u64 \<Rightarrow> FasTrakAddrTranslator \<Rightarrow> 'w \<Rightarrow> FasTrakAddrTranslator \<times> 'w" where
  "Translator_Unmap dev dma_id t w =
     (case addr_ctxs t dma_id of
        None \<Rightarrow> (t, w)
      | Some ctx \<Rightarrow>
          (t\<lparr>addr_ctxs := (addr_ctxs t)(dma_id := None)\<rparr>, snd (dmabuf_importer_unmap dev (ctx_buf ctx) w)))"

section \<open>Collecting the ranges\<close>

text \<open>
  What the loop relies on: asked for the ranges from an offset on, the device delivers at least one
  of those it announced when it mapped the buffer.
\<close>

definition delivers :: "'w import_helper \<Rightarrow> i32 \<Rightarrow> iovec list \<Rightarrow> 'w \<Rightarrow> bool" where
  "delivers dev h vs w \<longleftrightarrow> (\<forall>offset. unat offset < length vs \<longrightarrow>
     (\<exists>new rest. ioctl_get_iovecs dev h offset w = (Some new, w) \<and> new \<noteq> [] \<and>
        drop (unat offset) vs = new @ rest))"

lemma deliversD:
  assumes "delivers dev h vs w" and "unat offset < length vs"
  obtains new rest where "ioctl_get_iovecs dev h offset w = (Some new, w)" and "new \<noteq> []"
    and "drop (unat offset) vs = new @ rest"
  using assms unfolding delivers_def by blast

lemma get_iovecs_loop_delivers:
  assumes "delivers dev (attach_handle buf) vs w" and "unat (num_iovecs buf) = length vs"
    and "unat offset \<le> length vs" and "length iovecs = length vs"
    and "take (unat offset) iovecs = take (unat offset) vs"
  shows "dmabuf_importer_get_iovecs_loop dev buf offset iovecs w = Some (True, vs, w)"
  using assms(3-5)
proof (induction "length vs - unat offset" arbitrary: offset iovecs rule: less_induct)
  case less
  show ?case
  proof (cases "unat offset < length vs")
    case False
    then have "iovecs = vs" using less.prems by simp
    moreover have "\<not> offset < num_iovecs buf" using False assms(2) by (simp add: word_less_nat_alt)
    ultimately show ?thesis by (subst dmabuf_importer_get_iovecs_loop.simps) simp
  next
    case True
    obtain new rest where new: "ioctl_get_iovecs dev (attach_handle buf) offset w = (Some new, w)"
        "new \<noteq> []" "drop (unat offset) vs = new @ rest"
      using deliversD [OF assms(1) True] .
    let ?o = "offset + of_nat (length new)"
    let ?v = "take (unat offset) iovecs @ new @ drop (unat offset + length new) iovecs"
    have fits: "unat offset + length new \<le> length vs"
    proof -
      have "length vs - unat offset = length new + length rest" using new(3) by (metis length_append length_drop)
      with True show ?thesis by simp
    qed
    have bound: "length vs < 4294967296" using assms(2) unat_u32_less [of "num_iovecs buf"] by simp
    have o: "unat ?o = unat offset + length new"
      using fits bound by (simp add: unat_word_ariths unat_of_nat)
    have "take (unat offset + length new) vs = take (unat offset) vs @ new"
      using new(3) by (simp add: take_add)
    then have taken: "take (unat ?o) ?v = take (unat ?o) vs" "length ?v = length vs"
      using less.prems fits by (simp_all add: o)
    have "length vs - unat ?o < length vs - unat offset" using new(2) True o by (cases new) simp_all
    moreover have "unat ?o \<le> length vs" using o fits by simp
    ultimately have "dmabuf_importer_get_iovecs_loop dev buf ?o ?v w = Some (True, vs, w)"
      using less.hyps taken by blast
    moreover have "offset < num_iovecs buf" using True assms(2) by (simp add: word_less_nat_alt)
    ultimately show ?thesis
      using new(1) fits less.prems(2) by (subst dmabuf_importer_get_iovecs_loop.simps) simp
  qed
qed

section \<open>Properties\<close>

text \<open>
  With a device that delivers at least one range per call, the translator returns, and the ranges
  it returns describe the memory the device announced.
\<close>

theorem GetIovecs_returns:
  assumes "addr_ctxs t i = Some ctx" and "ctx_vecs ctx = []"
    and "delivers dev (attach_handle (ctx_buf ctx)) vs w"
    and "unat (num_iovecs (ctx_buf ctx)) = length vs" and "vs \<noteq> []" and "list_all short vs"
  shows "\<exists>ws. GetIovecs dev True i t w =
      Some (Inr ws, t\<lparr>addr_ctxs := (addr_ctxs t)(i \<mapsto> ctx\<lparr>ctx_vecs := ws\<rparr>)\<rparr>, w) \<and>
    concat (map span ws) = concat (map span vs)"
proof -
  obtain v vs' where vs: "vs = v # vs'" using assms(5) by (cases vs) simp_all
  have "dmabuf_importer_get_iovecs dev (ctx_buf ctx)
      (replicate (unat (num_iovecs (ctx_buf ctx))) \<lparr>iov_base = 0, iov_len = 0\<rparr>) w = Some (True, vs, w)"
    unfolding dmabuf_importer_get_iovecs_def
    using assms(3,4) by (intro get_iovecs_loop_delivers) simp_all
  then show ?thesis
    using assms(1,2,6) vs coalesce_span [of v vs']
    by (simp add: GetIovecs_def PrepareIovecs_def CoalesceIovecs_Cons)
qed

definition two_pages :: "iovec list" where
  "two_pages = [\<lparr>iov_base = 4096, iov_len = 4096\<rparr>, \<lparr>iov_base = 8192, iov_len = 4096\<rparr>]"

definition one_by_one :: "unit import_helper" where
  "one_by_one = \<lparr>ioctl_map = (\<lambda>_ _ h w. (Some (h, 2), w)),
     ioctl_get_iovecs = (\<lambda>_ offset w. (Some [two_pages ! unat offset], w)),
     ioctl_unmap = (\<lambda>_ w. (True, w))\<rparr>"

lemma one_by_one_delivers: "delivers one_by_one h two_pages w"
  unfolding delivers_def by (auto simp: one_by_one_def Cons_nth_drop_Suc [symmetric])

theorem GetIovecs_returns_witness:
  "let ctx = \<lparr>ctx_buf = \<lparr>attach_handle = 0, num_iovecs = 2\<rparr>, ctx_vecs = []\<rparr>;
       t = new_FasTrakAddrTranslator (0, 6, 0, 0)\<lparr>addr_ctxs := [0 \<mapsto> ctx]\<rparr>
   in \<exists>ws. GetIovecs one_by_one True 0 t () =
        Some (Inr ws, t\<lparr>addr_ctxs := (addr_ctxs t)(0 \<mapsto> ctx\<lparr>ctx_vecs := ws\<rparr>)\<rparr>, ()) \<and>
      concat (map span ws) = concat (map span two_pages)"
  unfolding Let_def
  by (rule GetIovecs_returns [OF _ _ one_by_one_delivers]) (simp_all add: two_pages_def short_def)

end
