(* ===== verification/Resource_Tracker.thy ===== *)
theory Resource_Tracker
  imports Tcpxo_Prelude "HOL-Library.AList"
begin

text \<open>
  The record of which client of the daemon holds which registered buffer,
  \<^verbatim>\<open>buffer_mgmt_daemon/fastrak_buffer_resource_tracker.{h,cc}\<close>. The two nested hash maps are
  association lists; their order is the order of iteration, on which nothing depends. \<open>close\<close> is the
  system call on a state \<open>'w\<close>, \<open>True\<close> for success.
\<close>

section \<open>State and operations\<close>

record BufferInfo =
  dmabuf_fd :: int
  dmabuf_id :: u64

type_synonym FastrakBufferResourceTracker = "(int \<times> (u64 \<times> BufferInfo) list) list"

definition TrackBuffer ::
    "int \<Rightarrow> int \<Rightarrow> u64 \<Rightarrow> u64 \<Rightarrow> FastrakBufferResourceTracker \<Rightarrow> StatusCode \<times> FastrakBufferResourceTracker" where
  "TrackBuffer client fd dma_id reg_handle t =
     (case map_of t client of
        None \<Rightarrow> (kInternal, t)
      | Some bufs \<Rightarrow>
          if map_of bufs reg_handle \<noteq> None then (kInternal, t)
          else (kOk, AList.update client
                  (AList.update reg_handle \<lparr>dmabuf_fd = fd, dmabuf_id = dma_id\<rparr> bufs) t))"

definition GetDmabufId :: "int \<Rightarrow> u64 \<Rightarrow> FastrakBufferResourceTracker \<Rightarrow> u64 StatusOr" where
  "GetDmabufId client reg_handle t =
     (case map_of t client of
        None \<Rightarrow> Inl kInternal
      | Some bufs \<Rightarrow>
          (case map_of bufs reg_handle of
             None \<Rightarrow> Inl kInvalidArgument
           | Some info \<Rightarrow> Inr (dmabuf_id info)))"

definition GetRegHandles :: "int \<Rightarrow> FastrakBufferResourceTracker \<Rightarrow> u64 list StatusOr" where
  "GetRegHandles client t =
     (case map_of t client of None \<Rightarrow> Inl kNotFound | Some bufs \<Rightarrow> Inr (map fst bufs))"

definition GetClients :: "FastrakBufferResourceTracker \<Rightarrow> int list" where
  "GetClients t = map fst t"

definition RegisterClient :: "int \<Rightarrow> FastrakBufferResourceTracker \<Rightarrow> FastrakBufferResourceTracker" where
  "RegisterClient client t = (if map_of t client = None then AList.update client [] t else t)"

definition UnregisterClient :: "int \<Rightarrow> FastrakBufferResourceTracker \<Rightarrow> FastrakBufferResourceTracker" where
  "UnregisterClient client t = AList.delete client t"

definition UntrackBuffer ::
    "(int \<Rightarrow> 'w \<Rightarrow> bool \<times> 'w) \<Rightarrow> int \<Rightarrow> u64 \<Rightarrow> FastrakBufferResourceTracker \<Rightarrow> 'w
      \<Rightarrow> StatusCode \<times> FastrakBufferResourceTracker \<times> 'w" where
  "UntrackBuffer close client reg_handle t w =
     (case map_of t client of
        None \<Rightarrow> (kInternal, t, w)
      | Some bufs \<Rightarrow>
          (case map_of bufs reg_handle of
             None \<Rightarrow> (kInternal, t, w)
           | Some info \<Rightarrow>
               (case close (dmabuf_fd info) w of
                  (ok, w1) \<Rightarrow>
                    if \<not> ok then (kInternal, t, w1)
                    else (kOk, AList.update client (AList.delete reg_handle bufs) t, w1))))"

text \<open>The destructor closes what is left.\<close>

definition destroy_FastrakBufferResourceTracker ::
    "(int \<Rightarrow> 'w \<Rightarrow> bool \<times> 'w) \<Rightarrow> FastrakBufferResourceTracker \<Rightarrow> 'w \<Rightarrow> 'w" where
  "destroy_FastrakBufferResourceTracker close t w =
     fold (\<lambda>(client, bufs) w. fold (\<lambda>(reg_handle, info) w. snd (close (dmabuf_fd info) w)) bufs w) t w"

section \<open>What is tracked\<close>

text \<open>The abstract view: one map from clients and handles to buffers.\<close>

definition tracked :: "FastrakBufferResourceTracker \<Rightarrow> int \<times> u64 \<rightharpoonup> BufferInfo" where
  "tracked t = (\<lambda>(client, reg_handle).
     case map_of t client of None \<Rightarrow> None | Some bufs \<Rightarrow> map_of bufs reg_handle)"

definition tracker_ok :: "FastrakBufferResourceTracker \<Rightarrow> bool" where
  "tracker_ok t \<longleftrightarrow> distinct (map fst t) \<and>
     (\<forall>client bufs. map_of t client = Some bufs \<longrightarrow> distinct (map fst bufs))"

named_theorems tracker_simps

lemma tracker_ok_update [tracker_simps]:
  "tracker_ok t \<Longrightarrow> distinct (map fst bufs) \<Longrightarrow> tracker_ok (AList.update client bufs t)"
  by (auto simp: tracker_ok_def distinct_update update_conv')

lemma tracker_ok_bufs: "tracker_ok t \<Longrightarrow> map_of t client = Some bufs \<Longrightarrow> distinct (map fst bufs)"
  by (simp add: tracker_ok_def)

lemma tracked_update [tracker_simps]:
  "tracked (AList.update client bufs t) =
    (\<lambda>(c, h). if c = client then map_of bufs h else tracked t (c, h))"
  by (auto simp: tracked_def update_conv')

lemma tracked_lookup: "map_of t client = Some bufs \<Longrightarrow> tracked t (client, h) = map_of bufs h"
  by (simp add: tracked_def)

lemma TrackBuffer_tracked:
  assumes "TrackBuffer client fd dma_id reg_handle t = (kOk, t')" and "tracker_ok t"
  shows "tracked t (client, reg_handle) = None"
    and "tracked t' = (tracked t)((client, reg_handle) \<mapsto> \<lparr>dmabuf_fd = fd, dmabuf_id = dma_id\<rparr>)"
    and "tracker_ok t'"
proof -
  obtain bufs where bufs: "map_of t client = Some bufs" "map_of bufs reg_handle = None"
      "t' = AList.update client (AList.update reg_handle \<lparr>dmabuf_fd = fd, dmabuf_id = dma_id\<rparr> bufs) t"
    using assms(1) by (simp add: TrackBuffer_def split: option.splits if_splits)
  then show "tracked t (client, reg_handle) = None" by (simp add: tracked_lookup)
  show "tracked t' = (tracked t)((client, reg_handle) \<mapsto> \<lparr>dmabuf_fd = fd, dmabuf_id = dma_id\<rparr>)"
    by (auto simp: bufs(3) tracked_update update_conv' tracked_lookup [OF bufs(1)])
  show "tracker_ok t'"
    using assms(2) tracker_ok_bufs [OF assms(2) bufs(1)]
    by (simp add: bufs(3) tracker_ok_update distinct_update)
qed

lemma TrackBuffer_error:
  "TrackBuffer client fd dma_id reg_handle t = (e, t') \<Longrightarrow> e \<noteq> kOk \<Longrightarrow> t' = t"
  by (auto simp: TrackBuffer_def split: option.splits if_splits)

lemma GetDmabufId_tracked:
  "GetDmabufId client reg_handle t = Inr i \<longleftrightarrow>
    (\<exists>info. tracked t (client, reg_handle) = Some info \<and> i = dmabuf_id info)"
  by (auto simp: GetDmabufId_def tracked_def split: option.splits)

lemma RegisterClient_tracked:
  "tracked (RegisterClient client t) = tracked t"
  "tracker_ok t \<Longrightarrow> tracker_ok (RegisterClient client t)"
  "map_of (RegisterClient client t) client \<noteq> None"
  by (auto simp: RegisterClient_def tracker_simps tracked_def update_conv')

lemma UnregisterClient_tracked:
  "tracked (UnregisterClient client t) = (\<lambda>(c, h). if c = client then None else tracked t (c, h))"
  "tracker_ok t \<Longrightarrow> tracker_ok (UnregisterClient client t)"
  by (auto simp: UnregisterClient_def tracked_def tracker_ok_def delete_conv' distinct_delete)

lemma UntrackBuffer_tracked:
  assumes "UntrackBuffer close client reg_handle t w = (kOk, t', w')" and "tracker_ok t"
  shows "tracked t' = (tracked t)((client, reg_handle) := None)" and "tracker_ok t'"
proof -
  obtain bufs where bufs: "map_of t client = Some bufs"
      "t' = AList.update client (AList.delete reg_handle bufs) t"
    using assms(1) by (simp add: UntrackBuffer_def split: option.splits if_splits prod.splits)
  show "tracked t' = (tracked t)((client, reg_handle) := None)"
    by (auto simp: bufs(2) tracked_update delete_conv' tracked_lookup [OF bufs(1)])
  show "tracker_ok t'"
    using assms(2) tracker_ok_bufs [OF assms(2) bufs(1)]
    by (simp add: bufs(2) tracker_ok_update distinct_delete)
qed

lemma UntrackBuffer_ok:
  assumes "tracked t (client, reg_handle) = Some info" and "fst (close (dmabuf_fd info) w)"
  obtains t' w' where "UntrackBuffer close client reg_handle t w = (kOk, t', w')"
  using assms
  by (cases "close (dmabuf_fd info) w") (auto simp: UntrackBuffer_def tracked_def split: option.splits)

lemma GetRegHandles_tracked:
  assumes "GetRegHandles client t = Inr hs" and "tracker_ok t"
  shows "distinct hs" and "set hs = {h. tracked t (client, h) \<noteq> None}"
proof -
  obtain bufs where bufs: "map_of t client = Some bufs" "hs = map fst bufs"
    using assms(1) by (simp add: GetRegHandles_def split: option.splits)
  show "distinct hs" using tracker_ok_bufs [OF assms(2) bufs(1)] bufs(2) by simp
  show "set hs = {h. tracked t (client, h) \<noteq> None}"
    by (simp add: bufs(2) tracked_lookup [OF bufs(1)] map_of_eq_None_iff)
qed

end
