(* ===== verification/Mem_Importer.thy ===== *)
theory Mem_Importer
  imports Addr_Translator Resource_Tracker
begin

text \<open>
  The service of the daemon that registers and deregisters buffers for its clients,
  \<^verbatim>\<open>buffer_mgmt_daemon/fastrak_gpu_mem_importer.{h,cc}\<close>. A request is represented by what the protobuf
  library reads from it, \<open>None\<close> for a text that is missing or cannot be parsed. The buffer manager
  client of the interface, the kernel helper and \<open>close\<close> are functions on a state \<open>'w\<close>.
\<close>

section \<open>Requests\<close>

datatype BufferOpType = OP_UNSPECIFIED | REG_BUFFER | DEREG_BUFFER

record BufferOpReq =
  fts_magic_value :: "u32 option"
  op_type :: BufferOpType
  req_reg_handle :: "u64 option"

record UnixSocketRequest =
  req_text :: "BufferOpReq option"
  req_fd :: "int option"

record BufferOpResp =
  resp_status :: StatusCode
  resp_reg_handle :: "u64 option"

definition kFtsClientMagic :: u32 where "kFtsClientMagic = 0x465453"

section \<open>Handlers\<close>

record 'w importer_env =
  helper :: "'w import_helper"
  coalesce_flag :: bool
  dxs_reg_buffer :: "iovec list \<Rightarrow> 'w \<Rightarrow> u64 StatusOr \<times> 'w"
  dxs_dereg_buffer :: "u64 \<Rightarrow> 'w \<Rightarrow> StatusCode \<times> 'w"
  close_fd :: "int \<Rightarrow> 'w \<Rightarrow> bool \<times> 'w"

record NicBinding =
  addr_translator :: FasTrakAddrTranslator
  resource_tracker :: FastrakBufferResourceTracker

text \<open>The cleanup that runs on every early return of \<^verbatim>\<open>HandleRegBuffer\<close> once the buffer is mapped.\<close>

definition fail_unmapped ::
    "'w importer_env \<Rightarrow> u64 \<Rightarrow> StatusCode \<Rightarrow> FasTrakAddrTranslator \<Rightarrow> NicBinding \<Rightarrow> 'w
      \<Rightarrow> BufferOpResp \<times> NicBinding \<times> 'w" where
  "fail_unmapped env dma_id e t b w =
     (case Translator_Unmap (helper env) dma_id t w of
        (t1, w1) \<Rightarrow> (\<lparr>resp_status = e, resp_reg_handle = None\<rparr>, b\<lparr>addr_translator := t1\<rparr>, w1))"

definition HandleRegBuffer ::
    "'w importer_env \<Rightarrow> int \<Rightarrow> UnixSocketRequest \<Rightarrow> NicBinding \<Rightarrow> 'w
      \<Rightarrow> (BufferOpResp \<times> NicBinding \<times> 'w) option" where
  "HandleRegBuffer env client request b w =
     (case req_fd request of
        None \<Rightarrow> Some (\<lparr>resp_status = kInvalidArgument, resp_reg_handle = None\<rparr>, b, w)
      | Some fd \<Rightarrow>
          (case Translator_Map (helper env) fd (addr_translator b) w of
             (Inl e, t1, w1) \<Rightarrow>
               Some (\<lparr>resp_status = kInternal, resp_reg_handle = None\<rparr>, b\<lparr>addr_translator := t1\<rparr>, w1)
           | (Inr dma_id, t1, w1) \<Rightarrow>
               (case GetIovecs (helper env) (coalesce_flag env) dma_id t1 w1 of
                  None \<Rightarrow> None
                | Some (Inl e, t2, w2) \<Rightarrow> Some (fail_unmapped env dma_id kInternal t2 b w2)
                | Some (Inr iovecs, t2, w2) \<Rightarrow>
                    (case dxs_reg_buffer env iovecs w2 of
                       (Inl e, w3) \<Rightarrow> Some (fail_unmapped env dma_id e t2 b w3)
                     | (Inr reg_handle, w3) \<Rightarrow>
                         (case TrackBuffer client fd dma_id reg_handle (resource_tracker b) of
                            (e, tracker) \<Rightarrow>
                              if e \<noteq> kOk then Some (fail_unmapped env dma_id e t2 b w3)
                              else Some (\<lparr>resp_status = kOk, resp_reg_handle = Some reg_handle\<rparr>,
                                     b\<lparr>addr_translator := t2, resource_tracker := tracker\<rparr>, w3))))))"

definition HandleDeregBuffer ::
    "'w importer_env \<Rightarrow> int \<Rightarrow> BufferOpReq \<Rightarrow> NicBinding \<Rightarrow> 'w \<Rightarrow> BufferOpResp \<times> NicBinding \<times> 'w" where
  "HandleDeregBuffer env client req b w =
     (let resp = (\<lambda>e. \<lparr>resp_status = e, resp_reg_handle = None\<rparr>) in
      case req_reg_handle req of
        None \<Rightarrow> (resp kInvalidArgument, b, w)
      | Some reg_handle \<Rightarrow>
          (case GetDmabufId client reg_handle (resource_tracker b) of
             Inl e \<Rightarrow> (resp e, b, w)
           | Inr dma_id \<Rightarrow>
               (case dxs_dereg_buffer env reg_handle w of
                  (e, w1) \<Rightarrow>
                    if e \<noteq> kOk then (resp e, b, w1)
                    else case Translator_Unmap (helper env) dma_id (addr_translator b) w1 of
                      (t1, w2) \<Rightarrow>
                        (case UntrackBuffer (close_fd env) client reg_handle (resource_tracker b) w2 of
                           (e', tracker, w3) \<Rightarrow>
                             (resp e', b\<lparr>addr_translator := t1, resource_tracker := tracker\<rparr>, w3)))))"

text \<open>The last component is \<^verbatim>\<open>fin\<close>: the connection is to be closed.\<close>

definition HandleRequest ::
    "'w importer_env \<Rightarrow> int \<Rightarrow> UnixSocketRequest \<Rightarrow> NicBinding \<Rightarrow> 'w
      \<Rightarrow> (BufferOpResp \<times> bool \<times> NicBinding \<times> 'w) option" where
  "HandleRequest env client request b w =
     (let invalid = (\<lparr>resp_status = kInvalidArgument, resp_reg_handle = None\<rparr>, b, w);
          result =
            (case req_text request of
               None \<Rightarrow> Some invalid
             | Some req \<Rightarrow>
                 if fts_magic_value req \<noteq> Some kFtsClientMagic then Some invalid
                 else (case op_type req of
                         REG_BUFFER \<Rightarrow> HandleRegBuffer env client request b w
                       | DEREG_BUFFER \<Rightarrow> Some (HandleDeregBuffer env client req b w)
                       | OP_UNSPECIFIED \<Rightarrow> Some invalid))
      in map_option (\<lambda>(resp, b1, w1). (resp, resp_status resp \<noteq> kOk, b1, w1)) result)"

text \<open>
  When a connection ends, the client's buffers are released one by one. An untracked handle would
  make the code use the value of a failed lookup, which is \<open>None\<close>.
\<close>

fun CleanUp_loop ::
    "'w importer_env \<Rightarrow> int \<Rightarrow> u64 list \<Rightarrow> NicBinding \<Rightarrow> 'w \<Rightarrow> (NicBinding \<times> 'w) option" where
  "CleanUp_loop env client [] b w = Some (b, w)"
| "CleanUp_loop env client (reg_handle # reg_handles) b w =
     (let w1 = snd (dxs_dereg_buffer env reg_handle w) in
      case GetDmabufId client reg_handle (resource_tracker b) of
        Inl e \<Rightarrow> None
      | Inr dma_id \<Rightarrow>
          (case Translator_Unmap (helper env) dma_id (addr_translator b) w1 of
             (t1, w2) \<Rightarrow>
               (case UntrackBuffer (close_fd env) client reg_handle (resource_tracker b) w2 of
                  (e, tracker, w3) \<Rightarrow>
                    CleanUp_loop env client reg_handles
                      (b\<lparr>addr_translator := t1, resource_tracker := tracker\<rparr>) w3)))"

definition CleanUp :: "'w importer_env \<Rightarrow> int \<Rightarrow> NicBinding \<Rightarrow> 'w \<Rightarrow> (NicBinding \<times> 'w) option" where
  "CleanUp env client b w =
     (case GetRegHandles client (resource_tracker b) of
        Inl e \<Rightarrow> Some (b, w)
      | Inr reg_handles \<Rightarrow>
          map_option (\<lambda>(b1, w1). (b1\<lparr>resource_tracker := UnregisterClient client (resource_tracker b1)\<rparr>, w1))
            (CleanUp_loop env client reg_handles b w))"

section \<open>Connections\<close>

text \<open>The importer over all interfaces; \<open>exited\<close> counts the calls of the callback for no client left.\<close>

record FasTrakGpuMemImporter =
  nic_bindings :: "NicBinding list"
  connected_clients :: "int list"
  exited :: nat

definition AddConnectedClient :: "int \<Rightarrow> nat \<Rightarrow> FasTrakGpuMemImporter \<Rightarrow> FasTrakGpuMemImporter" where
  "AddConnectedClient client nic m =
     (let b = nic_bindings m ! nic
      in m\<lparr>nic_bindings := (nic_bindings m)[nic := b\<lparr>resource_tracker := RegisterClient client (resource_tracker b)\<rparr>],
           connected_clients := List.insert client (connected_clients m)\<rparr>)"

definition RemoveConnectedClient ::
    "'w importer_env \<Rightarrow> bool \<Rightarrow> int \<Rightarrow> nat \<Rightarrow> FasTrakGpuMemImporter \<Rightarrow> 'w
      \<Rightarrow> (FasTrakGpuMemImporter \<times> 'w) option" where
  "RemoveConnectedClient env has_callback client nic m w =
     (case CleanUp env client (nic_bindings m ! nic) w of
        None \<Rightarrow> None
      | Some (b, w1) \<Rightarrow>
          let clients = removeAll client (connected_clients m)
          in Some (m\<lparr>nic_bindings := (nic_bindings m)[nic := b], connected_clients := clients,
                     exited := exited m + (if clients = [] \<and> has_callback then 1 else 0)\<rparr>, w1))"

text \<open>One request on a connection: the service handler, then the cleanup if the connection is to be closed.\<close>

definition ServeRequest ::
    "'w importer_env \<Rightarrow> bool \<Rightarrow> int \<Rightarrow> nat \<Rightarrow> UnixSocketRequest \<Rightarrow> FasTrakGpuMemImporter \<Rightarrow> 'w
      \<Rightarrow> (BufferOpResp \<times> bool \<times> FasTrakGpuMemImporter \<times> 'w) option" where
  "ServeRequest env has_callback client nic request m w =
     (let m1 = AddConnectedClient client nic m in
      case HandleRequest env client request (nic_bindings m1 ! nic) w of
        None \<Rightarrow> None
      | Some (resp, fin, b, w1) \<Rightarrow>
          let m2 = m1\<lparr>nic_bindings := (nic_bindings m1)[nic := b]\<rparr>
          in if \<not> fin then Some (resp, False, m2, w1)
             else map_option (\<lambda>(m3, w2). (resp, True, m3, w2))
                    (RemoveConnectedClient env has_callback client nic m2 w1))"

section \<open>Mappings and their owners\<close>

text \<open>Which client owns which mapping, through which handle.\<close>

definition owned :: "NicBinding \<Rightarrow> int \<times> u64 \<rightharpoonup> u64" where
  "owned b = map_option dmabuf_id \<circ> tracked (resource_tracker b)"

definition mapped :: "NicBinding \<Rightarrow> u64 set" where
  "mapped b = dom (addr_ctxs (addr_translator b))"

definition binding_ok :: "NicBinding \<Rightarrow> bool" where
  "binding_ok b \<longleftrightarrow> tracker_ok (resource_tracker b) \<and> mapped b = ran (owned b) \<and>
     inj_on (owned b) (dom (owned b)) \<and> (\<forall>i \<in> mapped b. i < next_id (addr_translator b))"

lemma inj_map_upd:
  "inj_on m (dom m) \<Longrightarrow> v \<notin> ran m \<Longrightarrow> inj_on (m(k \<mapsto> v)) (dom (m(k \<mapsto> v)))"
  by (auto simp: inj_on_def ran_def dom_def)

lemma inj_map_del: "inj_on m (dom m) \<Longrightarrow> inj_on (m(k := None)) (dom (m(k := None)))"
  by (auto simp: inj_on_def dom_def)

lemma ran_map_del: "inj_on m (dom m) \<Longrightarrow> m k = Some v \<Longrightarrow> ran (m(k := None)) = ran m - {v}"
proof (intro set_eqI iffI)
  fix x
  assume "inj_on m (dom m)" and k: "m k = Some v"
  then have inj: "\<And>a. m a = Some v \<Longrightarrow> a = k" by (auto simp: inj_on_def dom_def)
  show "x \<in> ran m - {v}" if "x \<in> ran (m(k := None))"
    using that inj by (auto simp: ran_def split: if_splits)
  show "x \<in> ran (m(k := None))" if "x \<in> ran m - {v}"
  proof -
    from that obtain a where "m a = Some x" and "x \<noteq> v" by (auto simp: ran_def)
    with k have "(m(k := None)) a = Some x" by auto
    then show ?thesis by (rule ranI)
  qed
qed

subsection \<open>The translator\<close>

lemma Translator_Map_mapped:
  assumes "Translator_Map dev fd t w = (Inr i, t', w')"
  shows "i = next_id t" and "dom (addr_ctxs t') = insert i (dom (addr_ctxs t))"
    and "next_id t' = next_id t + 1"
  using assms by (auto simp: Translator_Map_def Let_def split: prod.splits option.splits)

lemma Translator_Map_error: "Translator_Map dev fd t w = (Inl e, t', w') \<Longrightarrow> t' = t"
  by (auto simp: Translator_Map_def Let_def split: prod.splits option.splits)

lemma GetIovecs_mapped:
  assumes "GetIovecs dev c i t w = Some (r, t', w')"
  shows "dom (addr_ctxs t') = dom (addr_ctxs t)" and "next_id t' = next_id t"
  using assms by (auto simp: GetIovecs_def split: option.splits if_splits sum.splits)

lemma Translator_Unmap_mapped:
  assumes "Translator_Unmap dev i t w = (t', w')"
  shows "dom (addr_ctxs t') = dom (addr_ctxs t) - {i}" and "next_id t' = next_id t"
  using assms by (auto simp: Translator_Unmap_def split: option.splits if_splits)

lemma below_succ:
  fixes n :: u64
  assumes "n \<noteq> - 1"
  shows "n < n + 1"
proof -
  have "unat n \<noteq> unat (- 1 :: u64)" using assms unfolding word_unat_eq_iff .
  moreover have "unat (- 1 :: u64) = 18446744073709551615"
    by (simp add: unsigned_minus_1_eq_mask mask_eq_exp_minus_1)
  moreover have "unat n < 18446744073709551616" by (rule unat_u64_less)
  ultimately have "unat n + 1 < 18446744073709551616" by linarith
  then show ?thesis using unat_add_u64 [of n 1] by (simp add: word_less_nat_alt)
qed

subsection \<open>Requests keep mappings and owners together\<close>

lemma owned_update: "owned (b\<lparr>addr_translator := t\<rparr>) = owned b"
  by (simp add: owned_def)

lemma fail_unmapped_ok:
  assumes "binding_ok b" and "dom (addr_ctxs t) = insert i (mapped b)" and "i \<notin> mapped b"
    and "next_id t = next_id (addr_translator b) + 1" and "next_id (addr_translator b) \<noteq> - 1"
    and "fail_unmapped env i e t b w = (resp, b', w')"
  shows "binding_ok b'" and "owned b' = owned b" and "resp = \<lparr>resp_status = e, resp_reg_handle = None\<rparr>"
    and "resource_tracker b' = resource_tracker b"
proof -
  obtain t' where t': "Translator_Unmap (helper env) i t w = (t', w')" "b' = b\<lparr>addr_translator := t'\<rparr>"
    and resp: "resp = \<lparr>resp_status = e, resp_reg_handle = None\<rparr>"
    using assms(6) by (auto simp: fail_unmapped_def split: prod.splits)
  have m: "mapped b' = mapped b" "next_id (addr_translator b') = next_id (addr_translator b) + 1"
    using Translator_Unmap_mapped [OF t'(1)] assms(2-4) t'(2) by (auto simp: mapped_def)
  show "owned b' = owned b" "resource_tracker b' = resource_tracker b"
    by (simp_all add: t'(2) owned_update)
  with m assms(1) below_succ [OF assms(5)] show "binding_ok b'"
    by (auto simp: binding_ok_def intro: less_trans)
  show "resp = \<lparr>resp_status = e, resp_reg_handle = None\<rparr>" by (rule resp)
qed

lemma HandleRegBuffer_cases:
  assumes "HandleRegBuffer env client request b w = Some (resp, b', w')"
  obtains (early) "b' = b" and "resp_reg_handle resp = None"
  | (failed) e t w1 where "fail_unmapped env (next_id (addr_translator b)) e t b w1 = (resp, b', w')"
      and "dom (addr_ctxs t) = insert (next_id (addr_translator b)) (mapped b)"
      and "next_id t = next_id (addr_translator b) + 1"
  | (registered) fd h t tracker where "b' = b\<lparr>addr_translator := t, resource_tracker := tracker\<rparr>"
      and "dom (addr_ctxs t) = insert (next_id (addr_translator b)) (mapped b)"
      and "next_id t = next_id (addr_translator b) + 1"
      and "TrackBuffer client fd (next_id (addr_translator b)) h (resource_tracker b) = (kOk, tracker)"
      and "resp = \<lparr>resp_status = kOk, resp_reg_handle = Some h\<rparr>"
proof (cases "req_fd request")
  case None
  then show thesis using assms early by (auto simp: HandleRegBuffer_def)
next
  case fd: (Some fd)
  obtain r t1 w1 where map: "Translator_Map (helper env) fd (addr_translator b) w = (r, t1, w1)"
    by (cases "Translator_Map (helper env) fd (addr_translator b) w")
  show thesis
  proof (cases r)
    case (Inl e)
    have "t1 = addr_translator b" by (rule Translator_Map_error [OF map [unfolded Inl]])
    then show thesis using assms fd map Inl early by (auto simp: HandleRegBuffer_def)
  next
    case (Inr i)
    note i = Translator_Map_mapped [OF map [unfolded Inr]]
    obtain r2 t2 w2 where iovecs: "GetIovecs (helper env) (coalesce_flag env) i t1 w1 = Some (r2, t2, w2)"
      using assms fd map Inr by (cases "GetIovecs (helper env) (coalesce_flag env) i t1 w1")
        (auto simp: HandleRegBuffer_def)
    have t2: "dom (addr_ctxs t2) = insert (next_id (addr_translator b)) (mapped b)"
        "next_id t2 = next_id (addr_translator b) + 1"
      using GetIovecs_mapped [OF iovecs] i by (simp_all add: mapped_def)
    show thesis
    proof (cases r2)
      case (Inl e)
      then show thesis
        using assms fd map \<open>r = Inr i\<close> iovecs i(1) t2 failed by (auto simp: HandleRegBuffer_def)
    next
      case r2: (Inr vs)
      obtain r3 w3 where reg: "dxs_reg_buffer env vs w2 = (r3, w3)" by (cases "dxs_reg_buffer env vs w2")
      show thesis
      proof (cases r3)
        case (Inl e)
        then show thesis
          using assms fd map \<open>r = Inr i\<close> iovecs r2 reg i(1) t2 failed by (auto simp: HandleRegBuffer_def)
      next
        case r3: (Inr h)
        obtain e tracker where track: "TrackBuffer client fd i h (resource_tracker b) = (e, tracker)"
          by (cases "TrackBuffer client fd i h (resource_tracker b)")
        show thesis
        proof (cases "e = kOk")
          case True
          then show thesis
            using assms fd map \<open>r = Inr i\<close> iovecs r2 reg r3 track i(1) t2 registered
            by (auto simp: HandleRegBuffer_def)
        next
          case False
          then show thesis
            using assms fd map \<open>r = Inr i\<close> iovecs r2 reg r3 track i(1) t2 failed
            by (auto simp: HandleRegBuffer_def)
        qed
      qed
    qed
  qed
qed

lemma owned_None: "owned b k = None \<longleftrightarrow> tracked (resource_tracker b) k = None"
  by (simp add: owned_def)

lemma HandleRegBuffer_ok:
  assumes "binding_ok b" and "next_id (addr_translator b) \<noteq> - 1"
    and "HandleRegBuffer env client request b w = Some (resp, b', w')"
  shows "binding_ok b' \<and>
    (case resp_reg_handle resp of
       None \<Rightarrow> owned b' = owned b
     | Some h \<Rightarrow> owned b (client, h) = None \<and>
         owned b' = (owned b)((client, h) \<mapsto> next_id (addr_translator b)))"
proof -
  let ?n = "next_id (addr_translator b)"
  have fresh: "?n \<notin> mapped b" using assms(1) by (auto simp: binding_ok_def)
  show ?thesis
    using assms(3)
  proof (cases rule: HandleRegBuffer_cases)
    case early
    then show ?thesis using assms(1) by simp
  next
    case (failed e t w1)
    then show ?thesis
      using fail_unmapped_ok [OF assms(1) failed(2) fresh failed(3) assms(2) failed(1)] by simp
  next
    case (registered fd h t tracker)
    have tracker: "tracker_ok (resource_tracker b)" using assms(1) by (simp add: binding_ok_def)
    note tr = TrackBuffer_tracked [OF registered(4) tracker]
    have o: "owned b' = (owned b)((client, h) \<mapsto> ?n)" by (auto simp: registered(1) owned_def tr(2))
    have free: "owned b (client, h) = None" using tr(1) by (simp add: owned_None)
    have m: "mapped b' = insert ?n (mapped b)" by (simp add: registered(1,2) mapped_def)
    have ok: "mapped b = ran (owned b)" "inj_on (owned b) (dom (owned b))" "\<forall>i \<in> mapped b. i < ?n"
      using assms(1) by (simp_all add: binding_ok_def)
    have "inj_on (owned b') (dom (owned b'))"
      unfolding o using ok(1,2) fresh by (intro inj_map_upd) simp_all
    moreover have "mapped b' = ran (owned b')" using m o free ok(1) by (simp add: ran_map_upd)
    moreover have "next_id (addr_translator b') = ?n + 1" "tracker_ok (resource_tracker b')"
      using registered(1,3) tr(3) by simp_all
    moreover have "\<forall>i \<in> mapped b'. i < ?n + 1"
      using m ok(3) below_succ [OF assms(2)] by (auto intro: less_trans)
    ultimately have "binding_ok b'" by (simp add: binding_ok_def)
    with o free registered(5) show ?thesis by simp
  qed
qed

text \<open>Giving up one mapping together with its owner, as deregistration and cleanup do.\<close>

lemma release_ok:
  assumes "binding_ok b" and "owned b (client, h) = Some i"
    and "Translator_Unmap (helper env) i (addr_translator b) w = (t, w1)"
    and "UntrackBuffer close client h (resource_tracker b) w1 = (e, tracker, w2)"
    and "\<And>fd w. fst (close fd w)"
  shows "e = kOk" and "binding_ok (b\<lparr>addr_translator := t, resource_tracker := tracker\<rparr>)"
    and "owned (b\<lparr>addr_translator := t, resource_tracker := tracker\<rparr>) = (owned b)((client, h) := None)"
proof -
  obtain info where info: "tracked (resource_tracker b) (client, h) = Some info"
    using assms(2) by (auto simp: owned_def)
  obtain t' w' where "UntrackBuffer close client h (resource_tracker b) w1 = (kOk, t', w')"
    by (rule UntrackBuffer_ok [OF info assms(5)])
  with assms(4) show e: "e = kOk" by simp
  have tracker: "tracker_ok (resource_tracker b)" using assms(1) by (simp add: binding_ok_def)
  note un = UntrackBuffer_tracked [OF assms(4) [unfolded e] tracker]
  let ?b = "b\<lparr>addr_translator := t, resource_tracker := tracker\<rparr>"
  show o: "owned ?b = (owned b)((client, h) := None)" by (auto simp: owned_def un(1))
  have ok: "mapped b = ran (owned b)" "inj_on (owned b) (dom (owned b))"
      "\<forall>i \<in> mapped b. i < next_id (addr_translator b)"
    using assms(1) by (simp_all add: binding_ok_def)
  note unmap = Translator_Unmap_mapped [OF assms(3)]
  have "mapped ?b = ran (owned ?b)"
    using unmap(1) ok(1) by (simp add: mapped_def o ran_map_del [OF ok(2) assms(2)])
  moreover have "inj_on (owned ?b) (dom (owned ?b))" unfolding o by (rule inj_map_del [OF ok(2)])
  moreover have "\<forall>i \<in> mapped ?b. i < next_id (addr_translator ?b)"
    using unmap ok(3) by (simp add: mapped_def)
  ultimately show "binding_ok ?b" using un(2) by (simp add: binding_ok_def)
qed

lemma GetDmabufId_owned: "GetDmabufId client h (resource_tracker b) = Inr i \<longleftrightarrow> owned b (client, h) = Some i"
  by (auto simp: GetDmabufId_tracked owned_def)

lemma GetDmabufId_error: "GetDmabufId client h t = Inl e \<Longrightarrow> e \<noteq> kOk"
  by (auto simp: GetDmabufId_def split: option.splits)

lemma HandleDeregBuffer_ok:
  assumes "binding_ok b" and "\<And>fd w. fst (close_fd env fd w)"
    and "HandleDeregBuffer env client req b w = (resp, b', w')"
  shows "binding_ok b' \<and>
    (if resp_status resp = kOk
     then \<exists>h i. req_reg_handle req = Some h \<and> owned b (client, h) = Some i \<and>
       owned b' = (owned b)((client, h) := None)
     else owned b' = owned b)"
proof (cases "req_reg_handle req")
  case None
  then show ?thesis using assms(1,3) by (auto simp: HandleDeregBuffer_def Let_def)
next
  case h: (Some h)
  show ?thesis
  proof (cases "GetDmabufId client h (resource_tracker b)")
    case (Inl e)
    then show ?thesis
      using assms(1,3) h GetDmabufId_error [OF Inl] by (auto simp: HandleDeregBuffer_def Let_def)
  next
    case (Inr i)
    obtain e w1 where dereg: "dxs_dereg_buffer env h w = (e, w1)" by (cases "dxs_dereg_buffer env h w")
    show ?thesis
    proof (cases "e = kOk")
      case False
      then show ?thesis using assms(1,3) h Inr dereg by (auto simp: HandleDeregBuffer_def Let_def)
    next
      case True
      obtain t w2 where un: "Translator_Unmap (helper env) i (addr_translator b) w1 = (t, w2)"
        by (cases "Translator_Unmap (helper env) i (addr_translator b) w1")
      obtain e' tracker w3 where tr: "UntrackBuffer (close_fd env) client h (resource_tracker b) w2 = (e', tracker, w3)"
        by (cases "UntrackBuffer (close_fd env) client h (resource_tracker b) w2")
      have i: "owned b (client, h) = Some i" using Inr by (simp add: GetDmabufId_owned)
      note r = release_ok [OF assms(1) i un tr assms(2)]
      have "resp_status resp = kOk" "b' = b\<lparr>addr_translator := t, resource_tracker := tracker\<rparr>"
        using assms(3) h Inr dereg True un tr r(1) by (auto simp: HandleDeregBuffer_def Let_def)
      with r(2,3) h i show ?thesis by auto
    qed
  qed
qed

lemma CleanUp_loop_ok:
  assumes "binding_ok b" and "\<And>fd w. fst (close_fd env fd w)" and "distinct hs"
    and "\<forall>h \<in> set hs. owned b (client, h) \<noteq> None"
  shows "\<exists>b' w'. CleanUp_loop env client hs b w = Some (b', w') \<and> binding_ok b' \<and>
    owned b' = (\<lambda>(c, h). if c = client \<and> h \<in> set hs then None else owned b (c, h))"
  using assms(1,3,4)
proof (induction hs arbitrary: b w)
  case Nil
  then show ?case by simp
next
  case (Cons h hs)
  obtain i where i: "owned b (client, h) = Some i" using Cons.prems(3) by auto
  define w1 where "w1 = snd (dxs_dereg_buffer env h w)"
  obtain t w2 where un: "Translator_Unmap (helper env) i (addr_translator b) w1 = (t, w2)"
    by (cases "Translator_Unmap (helper env) i (addr_translator b) w1")
  obtain e tracker w3 where tr: "UntrackBuffer (close_fd env) client h (resource_tracker b) w2 = (e, tracker, w3)"
    by (cases "UntrackBuffer (close_fd env) client h (resource_tracker b) w2")
  note r = release_ok [OF Cons.prems(1) i un tr assms(2)]
  let ?b = "b\<lparr>addr_translator := t, resource_tracker := tracker\<rparr>"
  have "\<forall>h' \<in> set hs. owned ?b (client, h') \<noteq> None" using Cons.prems(2,3) by (auto simp: r(3))
  then obtain b' w' where "CleanUp_loop env client hs ?b w3 = Some (b', w')" "binding_ok b'"
      "owned b' = (\<lambda>(c, h). if c = client \<and> h \<in> set hs then None else owned ?b (c, h))"
    using Cons.IH [OF r(2), of w3] Cons.prems(2) by auto
  moreover have "CleanUp_loop env client (h # hs) b w = CleanUp_loop env client hs ?b w3"
    using i un tr by (simp add: GetDmabufId_owned [THEN iffD2] w1_def Let_def)
  ultimately show ?case by (auto simp: r(3))
qed

lemma CleanUp_ok:
  assumes "binding_ok b" and "\<And>fd w. fst (close_fd env fd w)"
  shows "\<exists>b' w'. CleanUp env client b w = Some (b', w') \<and> binding_ok b' \<and>
    owned b' = (\<lambda>(c, h). if c = client then None else owned b (c, h))"
proof (cases "GetRegHandles client (resource_tracker b)")
  case (Inl e)
  then have "owned b (client, h) = None" for h
    by (auto simp: GetRegHandles_def owned_def tracked_def split: option.splits)
  then show ?thesis using assms(1) Inl by (auto simp: CleanUp_def fun_eq_iff)
next
  case (Inr hs)
  have tracker: "tracker_ok (resource_tracker b)" using assms(1) by (simp add: binding_ok_def)
  note hs = GetRegHandles_tracked [OF Inr tracker]
  obtain b1 w1 where b1: "CleanUp_loop env client hs b w = Some (b1, w1)" "binding_ok b1"
      "owned b1 = (\<lambda>(c, h). if c = client \<and> h \<in> set hs then None else owned b (c, h))"
    using CleanUp_loop_ok [OF assms hs(1), of client w] hs(2) by (auto simp: owned_None)
  let ?b = "b1\<lparr>resource_tracker := UnregisterClient client (resource_tracker b1)\<rparr>"
  have o: "owned ?b = (\<lambda>(c, h). if c = client then None else owned b (c, h))"
    using b1(3) hs(2)
    by (auto simp: owned_def UnregisterClient_tracked fun_eq_iff split: if_splits)
  moreover have "owned ?b = owned b1"
    using b1(3) hs(2) unfolding o by (auto simp: fun_eq_iff) (simp add: owned_def)
  ultimately have "binding_ok ?b"
    using b1(2) UnregisterClient_tracked(2) by (simp add: binding_ok_def mapped_def)
  with o show ?thesis using Inr b1(1) by (simp add: CleanUp_def)
qed

lemma HandleRequest_cases:
  assumes "HandleRequest env client request b w = Some (resp, fin, b', w')"
  obtains (invalid) "b' = b" and "resp = \<lparr>resp_status = kInvalidArgument, resp_reg_handle = None\<rparr>" and "w' = w"
  | (reg) "HandleRegBuffer env client request b w = Some (resp, b', w')"
  | (dereg) req where "req_text request = Some req" and "op_type req = DEREG_BUFFER"
      and "HandleDeregBuffer env client req b w = (resp, b', w')"
proof (cases "\<exists>req. req_text request = Some req \<and> fts_magic_value req = Some kFtsClientMagic \<and>
    op_type req \<noteq> OP_UNSPECIFIED")
  case False
  then have "HandleRequest env client request b w =
      Some (\<lparr>resp_status = kInvalidArgument, resp_reg_handle = None\<rparr>, True, b, w)"
    by (simp add: HandleRequest_def Let_def split: option.split BufferOpType.split)
  then show thesis using assms by (intro invalid) simp_all
next
  case True
  then obtain req where req: "req_text request = Some req" "fts_magic_value req = Some kFtsClientMagic"
      "op_type req \<noteq> OP_UNSPECIFIED" by blast
  show thesis
  proof (cases "op_type req")
    case REG_BUFFER
    then have "HandleRegBuffer env client request b w = Some (resp, b', w')"
      using assms req by (auto simp: HandleRequest_def)
    then show thesis by (rule reg)
  next
    case DEREG_BUFFER
    then have "HandleDeregBuffer env client req b w = (resp, b', w')"
      using assms req by (cases "HandleDeregBuffer env client req b w") (simp add: HandleRequest_def)
    then show thesis by (rule dereg [OF req(1) DEREG_BUFFER])
  qed (use req(3) in simp)
qed

lemma HandleRequest_ok:
  assumes "binding_ok b" and "next_id (addr_translator b) \<noteq> - 1" and "\<And>fd w. fst (close_fd env fd w)"
    and "HandleRequest env client request b w = Some (resp, fin, b', w')"
  shows "binding_ok b'"
  using assms(4)
proof (cases rule: HandleRequest_cases)
  case invalid
  then show ?thesis using assms(1) by simp
next
  case reg
  from HandleRegBuffer_ok [OF assms(1,2) this] show ?thesis by simp
next
  case (dereg req)
  from HandleDeregBuffer_ok [OF assms(1,3) dereg(3)] show ?thesis by simp
qed

lemma RegisterClient_ok:
  assumes "binding_ok b"
  shows "binding_ok (b\<lparr>resource_tracker := RegisterClient client (resource_tracker b)\<rparr>)"
  using assms by (simp add: binding_ok_def owned_def mapped_def RegisterClient_tracked)

section \<open>Steps of the daemon\<close>

text \<open>
  A request, or the end of a connection for any other reason. Identifiers of mappings that are about
  to wrap around after 2^64 registrations are left out.
\<close>

inductive importer_step ::
    "'w importer_env \<Rightarrow> bool \<Rightarrow> FasTrakGpuMemImporter \<times> 'w \<Rightarrow> FasTrakGpuMemImporter \<times> 'w \<Rightarrow> bool"
    for env has_callback where
  request: "nic < length (nic_bindings m) \<Longrightarrow> next_id (addr_translator (nic_bindings m ! nic)) \<noteq> - 1 \<Longrightarrow>
    ServeRequest env has_callback client nic request m w = Some (resp, fin, m', w') \<Longrightarrow>
    importer_step env has_callback (m, w) (m', w')"
| gone: "nic < length (nic_bindings m) \<Longrightarrow>
    RemoveConnectedClient env has_callback client nic m w = Some (m', w') \<Longrightarrow>
    importer_step env has_callback (m, w) (m', w')"

definition new_importer :: "pci_bdf list \<Rightarrow> FasTrakGpuMemImporter" where
  "new_importer nics =
     \<lparr>nic_bindings = map (\<lambda>pci. \<lparr>addr_translator = new_FasTrakAddrTranslator pci, resource_tracker = []\<rparr>) nics,
      connected_clients = [], exited = 0\<rparr>"

definition importer_ok :: "FasTrakGpuMemImporter \<Rightarrow> bool" where
  "importer_ok m \<longleftrightarrow> (\<forall>b \<in> set (nic_bindings m). binding_ok b)"

lemma importer_ok_update:
  assumes "importer_ok m" and "binding_ok b"
  shows "importer_ok (m\<lparr>nic_bindings := (nic_bindings m)[nic := b]\<rparr>)"
  using assms set_update_subset_insert [of "nic_bindings m" nic b] by (auto simp: importer_ok_def)

lemma AddConnectedClient_ok:
  assumes "importer_ok m" and "nic < length (nic_bindings m)"
  shows "importer_ok (AddConnectedClient client nic m)"
    and "binding_ok (nic_bindings (AddConnectedClient client nic m) ! nic)"
    and "length (nic_bindings (AddConnectedClient client nic m)) = length (nic_bindings m)"
    and "addr_translator (nic_bindings (AddConnectedClient client nic m) ! nic)
      = addr_translator (nic_bindings m ! nic)"
proof -
  have b: "binding_ok (nic_bindings m ! nic)" using assms by (simp add: importer_ok_def)
  then have b': "binding_ok ((nic_bindings m ! nic)
      \<lparr>resource_tracker := RegisterClient client (resource_tracker (nic_bindings m ! nic))\<rparr>)"
    by (rule RegisterClient_ok)
  then show "importer_ok (AddConnectedClient client nic m)"
    using importer_ok_update [OF assms(1) b', of nic]
    by (simp add: AddConnectedClient_def Let_def importer_ok_def)
  show "binding_ok (nic_bindings (AddConnectedClient client nic m) ! nic)"
    "length (nic_bindings (AddConnectedClient client nic m)) = length (nic_bindings m)"
    "addr_translator (nic_bindings (AddConnectedClient client nic m) ! nic)
      = addr_translator (nic_bindings m ! nic)"
    using b' assms(2) by (simp_all add: AddConnectedClient_def Let_def)
qed

lemma RemoveConnectedClient_ok:
  assumes "importer_ok m" and "nic < length (nic_bindings m)" and "\<And>fd w. fst (close_fd env fd w)"
    and "RemoveConnectedClient env has_callback client nic m w = Some (m', w')"
  shows "importer_ok m'"
proof -
  have "binding_ok (nic_bindings m ! nic)" using assms(1,2) by (simp add: importer_ok_def)
  from CleanUp_ok [OF this assms(3), of client w] obtain b w1
    where b: "CleanUp env client (nic_bindings m ! nic) w = Some (b, w1)" "binding_ok b" by blast
  then show ?thesis
    using assms(4) importer_ok_update [OF assms(1) b(2), of nic]
    by (auto simp: RemoveConnectedClient_def Let_def importer_ok_def)
qed

lemma ServeRequest_ok:
  assumes "importer_ok m" and "nic < length (nic_bindings m)" and "\<And>fd w. fst (close_fd env fd w)"
    and "next_id (addr_translator (nic_bindings m ! nic)) \<noteq> - 1"
    and "ServeRequest env has_callback client nic request m w = Some (resp, fin, m', w')"
  shows "importer_ok m'"
proof -
  define m1 where "m1 = AddConnectedClient client nic m"
  note m1 = AddConnectedClient_ok [OF assms(1,2), of client, folded m1_def]
  obtain resp1 fin1 b w1 where h: "HandleRequest env client request (nic_bindings m1 ! nic) w
      = Some (resp1, fin1, b, w1)"
    using assms(5)
    by (cases "HandleRequest env client request (nic_bindings m1 ! nic) w") (auto simp: ServeRequest_def m1_def)
  have b: "binding_ok b" using HandleRequest_ok [OF m1(2) _ assms(3) h] m1(4) assms(4) by simp
  define m2 where "m2 = m1\<lparr>nic_bindings := (nic_bindings m1)[nic := b]\<rparr>"
  have m2: "importer_ok m2" using importer_ok_update [OF m1(1) b] by (simp add: m2_def)
  have "nic < length (nic_bindings m2)" using assms(2) m1(3) by (simp add: m2_def)
  note removed = RemoveConnectedClient_ok [OF m2 this assms(3)]
  show ?thesis
    using assms(5) h m2 removed by (auto simp: ServeRequest_def m1_def [symmetric] m2_def [symmetric] Let_def split: if_splits)
qed

lemma importer_reachable_ok:
  assumes "(importer_step env has_callback)\<^sup>*\<^sup>* (new_importer nics, w0) s" and "\<And>fd w. fst (close_fd env fd w)"
  shows "importer_ok (fst s)"
  using assms(1)
proof (induction rule: rtranclp_induct)
  case base
  show ?case
    by (auto simp: importer_ok_def new_importer_def binding_ok_def tracker_ok_def mapped_def owned_def
        tracked_def new_FasTrakAddrTranslator_def ran_def inj_on_def)
next
  case (step s s')
  from step.hyps(2) step.IH show ?case
    by cases (auto intro: ServeRequest_ok [OF _ _ assms(2)] RemoveConnectedClient_ok [OF _ _ assms(2)])
qed

subsection \<open>A small daemon\<close>

definition demo_env :: "unit importer_env" where
  "demo_env =
     \<lparr>helper = \<lparr>ioctl_map = (\<lambda>_ _ h w. (Some (h, 1), w)),
        ioctl_get_iovecs = (\<lambda>_ _ w. (Some [\<lparr>iov_base = 4096, iov_len = 4096\<rparr>], w)),
        ioctl_unmap = (\<lambda>_ w. (True, w))\<rparr>,
      coalesce_flag = True, dxs_reg_buffer = (\<lambda>_ w. (Inr 77, w)), dxs_dereg_buffer = (\<lambda>_ w. (kOk, w)),
      close_fd = (\<lambda>_ w. (True, w))\<rparr>"

definition demo_request :: UnixSocketRequest where
  "demo_request = \<lparr>req_text = Some \<lparr>fts_magic_value = Some kFtsClientMagic, op_type = REG_BUFFER,
     req_reg_handle = None\<rparr>, req_fd = Some 9\<rparr>"

definition demo_binding :: NicBinding where
  "demo_binding = \<lparr>addr_translator = \<lparr>addr_ctxs = [0 \<mapsto> \<lparr>ctx_buf = \<lparr>attach_handle = 0, num_iovecs = 1\<rparr>,
        ctx_vecs = [\<lparr>iov_base = 4096, iov_len = 4096\<rparr>]\<rparr>], nic_pci = (0, 6, 0, 0), next_id = 1, next_attach_handle = 1\<rparr>,
      resource_tracker = [(5, [(77, \<lparr>dmabuf_fd = 9, dmabuf_id = 0\<rparr>)])]\<rparr>"

definition demo_importer :: FasTrakGpuMemImporter where
  "demo_importer = \<lparr>nic_bindings = [demo_binding], connected_clients = [5], exited = 0\<rparr>"

lemma demo_get_iovecs:
  "dmabuf_importer_get_iovecs_loop (helper demo_env) \<lparr>attach_handle = 0, num_iovecs = 1\<rparr> 0
     [\<lparr>iov_base = 0, iov_len = 0\<rparr>] () = Some (True, [\<lparr>iov_base = 4096, iov_len = 4096\<rparr>], ())"
  by (subst dmabuf_importer_get_iovecs_loop.simps, simp add: demo_env_def,
      subst dmabuf_importer_get_iovecs_loop.simps, simp)

lemma demo_serve:
  "ServeRequest demo_env True 5 0 demo_request (new_importer [(0, 6, 0, 0)]) () =
     Some (\<lparr>resp_status = kOk, resp_reg_handle = Some 77\<rparr>, False, demo_importer, ())"
proof -
  have get: "GetIovecs (helper demo_env) True 0 (new_FasTrakAddrTranslator (0, 6, 0, 0)
      \<lparr>addr_ctxs := [0 \<mapsto> \<lparr>ctx_buf = \<lparr>attach_handle = 0, num_iovecs = 1\<rparr>, ctx_vecs = []\<rparr>],
       next_id := 1, next_attach_handle := 1\<rparr>) () =
    Some (Inr [\<lparr>iov_base = 4096, iov_len = 4096\<rparr>], addr_translator demo_binding, ())"
    by (simp add: GetIovecs_def PrepareIovecs_def dmabuf_importer_get_iovecs_def demo_get_iovecs
        CoalesceIovecs_Cons demo_binding_def new_FasTrakAddrTranslator_def)
  have map: "Translator_Map (helper demo_env) 9 (new_FasTrakAddrTranslator (0, 6, 0, 0)) () =
    (Inr 0, new_FasTrakAddrTranslator (0, 6, 0, 0)
      \<lparr>addr_ctxs := [0 \<mapsto> \<lparr>ctx_buf = \<lparr>attach_handle = 0, num_iovecs = 1\<rparr>, ctx_vecs = []\<rparr>],
       next_id := 1, next_attach_handle := 1\<rparr>, ())"
    by (simp add: Translator_Map_def dmabuf_importer_map_def demo_env_def new_FasTrakAddrTranslator_def Let_def)
  have "HandleRegBuffer demo_env 5 demo_request
      \<lparr>addr_translator = new_FasTrakAddrTranslator (0, 6, 0, 0), resource_tracker = [(5, [])]\<rparr> () =
    Some (\<lparr>resp_status = kOk, resp_reg_handle = Some 77\<rparr>, demo_binding, ())"
    using map get
    by (simp add: HandleRegBuffer_def demo_request_def demo_env_def TrackBuffer_def demo_binding_def)
  then show ?thesis
    by (simp add: ServeRequest_def AddConnectedClient_def new_importer_def RegisterClient_def
        HandleRequest_def demo_request_def demo_importer_def Let_def)
qed

lemma demo_step:
  "(importer_step demo_env True)\<^sup>*\<^sup>* (new_importer [(0, 6, 0, 0)], ()) (demo_importer, ())"
  by (rule r_into_rtranclp, rule importer_step.request [where nic = 0 and client = 5 and request = demo_request])
    (rule demo_serve | simp add: new_importer_def new_FasTrakAddrTranslator_def)+

section \<open>Properties\<close>





end
