(* ===== verification/Buffer_Client.thy ===== *)
theory Buffer_Client
  imports Mem_Importer
begin

text \<open>
  The plugin's side of buffer registration, \<^verbatim>\<open>buffer_mgmt_daemon/client/buffer_mgr_client.cc\<close>, joined
  to the daemon: a request is served by the importer, which closes the connection after an error.
  \<open>buffer_registry\<close> is what the plugin relies on; it is shown here for the client and the daemon
  together.
\<close>

section \<open>The contract of a registry\<close>

text \<open>
  \<open>holds s H\<close>: the handles \<open>H\<close> are taken. A call that does not return is \<open>None\<close>.
\<close>

locale buffer_registry =
  fixes regbuf :: "int \<Rightarrow> u64 \<Rightarrow> 's \<Rightarrow> (u64 StatusOr \<times> 's) option"
    and deregbuf :: "u64 \<Rightarrow> 's \<Rightarrow> (StatusCode \<times> 's) option"
    and holds :: "'s \<Rightarrow> u64 set \<Rightarrow> bool"
  assumes reg_fresh: "holds s H \<Longrightarrow> regbuf fd n s = Some (Inr h, s') \<Longrightarrow> h \<notin> H \<and> holds s' (insert h H)"
    and reg_error: "holds s H \<Longrightarrow> regbuf fd n s = Some (Inl e, s') \<Longrightarrow> holds s' H"
    and dereg: "holds s H \<Longrightarrow> deregbuf h s = Some (r, s') \<Longrightarrow> holds s' (H - {h})"

section \<open>Client and daemon\<close>

text \<open>
  A connection of the plugin to the importer of one interface. \<open>dup\<close> gives the number a file
  descriptor has in the daemon, \<open>io_error\<close> the status of a request on a closed connection.
\<close>

record 'w session =
  sess_open :: bool
  sess_client :: int
  sess_nic :: nat
  sess_importer :: FasTrakGpuMemImporter
  sess_world :: 'w

definition MakeRequest ::
    "'w importer_env \<Rightarrow> bool \<Rightarrow> StatusCode \<Rightarrow> UnixSocketRequest \<Rightarrow> 'w session
      \<Rightarrow> (BufferOpResp StatusOr \<times> 'w session) option" where
  "MakeRequest env has_callback io_error request s =
     (if \<not> sess_open s then Some (Inl io_error, s)
      else case ServeRequest env has_callback (sess_client s) (sess_nic s) request
              (sess_importer s) (sess_world s) of
        None \<Rightarrow> None
      | Some (resp, fin, m, w) \<Rightarrow>
          Some (Inr resp, s\<lparr>sess_open := \<not> fin, sess_importer := m, sess_world := w\<rparr>))"

definition ParseBufferOpResp :: "BufferOpResp \<Rightarrow> BufferOpResp StatusOr" where
  "ParseBufferOpResp resp = (if resp_status resp \<noteq> kOk then Inl (resp_status resp) else Inr resp)"

definition RegBuf ::
    "'w importer_env \<Rightarrow> bool \<Rightarrow> StatusCode \<Rightarrow> (int \<Rightarrow> int) \<Rightarrow> int \<Rightarrow> u64 \<Rightarrow> 'w session
      \<Rightarrow> (u64 StatusOr \<times> 'w session) option" where
  "RegBuf env has_callback io_error dup fd n s =
     (case MakeRequest env has_callback io_error
        \<lparr>req_text = Some \<lparr>fts_magic_value = Some kFtsClientMagic, op_type = REG_BUFFER, req_reg_handle = None\<rparr>,
         req_fd = (if fd > 0 then Some (dup fd) else None)\<rparr> s of
        None \<Rightarrow> None
      | Some (Inl e, s1) \<Rightarrow> Some (Inl e, s1)
      | Some (Inr ret, s1) \<Rightarrow>
          (case ParseBufferOpResp ret of
             Inl e \<Rightarrow> Some (Inl e, s1)
           | Inr resp \<Rightarrow>
               (case resp_reg_handle resp of
                  None \<Rightarrow> Some (Inl kNotFound, s1)
                | Some h \<Rightarrow> Some (Inr h, s1))))"

definition DeregBuf ::
    "'w importer_env \<Rightarrow> bool \<Rightarrow> StatusCode \<Rightarrow> u64 \<Rightarrow> 'w session \<Rightarrow> (StatusCode \<times> 'w session) option" where
  "DeregBuf env has_callback io_error h s =
     (case MakeRequest env has_callback io_error
        \<lparr>req_text = Some \<lparr>fts_magic_value = Some kFtsClientMagic, op_type = DEREG_BUFFER, req_reg_handle = Some h\<rparr>,
         req_fd = None\<rparr> s of
        None \<Rightarrow> None
      | Some (Inl e, s1) \<Rightarrow> Some (e, s1)
      | Some (Inr ret, s1) \<Rightarrow>
          (case ParseBufferOpResp ret of Inl e \<Rightarrow> Some (e, s1) | Inr resp \<Rightarrow> Some (kOk, s1)))"

section \<open>The daemon fulfils the contract\<close>

text \<open>As long as the connection is open, the daemon tracks the handles for this client.\<close>

definition session_binding :: "'w session \<Rightarrow> NicBinding" where
  "session_binding s = nic_bindings (sess_importer s) ! sess_nic s"

definition session_holds :: "'w session \<Rightarrow> u64 set \<Rightarrow> bool" where
  "session_holds s H \<longleftrightarrow> sess_open s \<longrightarrow>
     sess_nic s < length (nic_bindings (sess_importer s)) \<and>
     tracker_ok (resource_tracker (session_binding s)) \<and>
     (\<forall>h \<in> H. tracked (resource_tracker (session_binding s)) (sess_client s, h) \<noteq> None)"

lemma HandleRegBuffer_tracker:
  assumes "HandleRegBuffer env client request b w = Some (resp, b', w')"
  shows "case resp_reg_handle resp of
      None \<Rightarrow> resource_tracker b' = resource_tracker b
    | Some h \<Rightarrow> \<exists>fd i. TrackBuffer client fd i h (resource_tracker b) = (kOk, resource_tracker b')"
  using assms
proof (cases rule: HandleRegBuffer_cases)
  case (failed e t w1)
  then have "resource_tracker b' = resource_tracker b" "resp_reg_handle resp = None"
    by (auto simp: fail_unmapped_def split: prod.splits)
  then show ?thesis by simp
qed auto

lemma HandleDeregBuffer_tracker:
  assumes "HandleDeregBuffer env client req b w = (resp, b', w')" and "resp_status resp = kOk"
    and "req_reg_handle req = Some h"
  shows "\<exists>w1 w2. UntrackBuffer (close_fd env) client h (resource_tracker b) w1 = (kOk, resource_tracker b', w2)"
  using assms GetDmabufId_error
  by (auto simp: HandleDeregBuffer_def Let_def split: sum.splits prod.splits if_splits) blast

lemma ServeRequest_open:
  assumes "ServeRequest env has_callback client nic request m w = Some (resp, fin, m', w')"
    and "nic < length (nic_bindings m)" and "\<not> fin"
  shows "HandleRequest env client request ((nic_bindings m ! nic)
      \<lparr>resource_tracker := RegisterClient client (resource_tracker (nic_bindings m ! nic))\<rparr>) w
    = Some (resp, False, nic_bindings m' ! nic, w')"
    and "length (nic_bindings m') = length (nic_bindings m)" and "resp_status resp = kOk"
proof -
  let ?b = "(nic_bindings m ! nic)
    \<lparr>resource_tracker := RegisterClient client (resource_tracker (nic_bindings m ! nic))\<rparr>"
  obtain resp1 fin1 b w1 where h: "HandleRequest env client request ?b w = Some (resp1, fin1, b, w1)"
    using assms(1,2)
    by (cases "HandleRequest env client request ?b w")
      (auto simp: ServeRequest_def AddConnectedClient_def Let_def)
  have fin1: "\<not> fin1" and m': "resp1 = resp" "w1 = w'" "nic_bindings m' = (nic_bindings m)[nic := ?b, nic := b]"
    using assms h by (auto simp: ServeRequest_def AddConnectedClient_def Let_def split: if_splits)
  then show "HandleRequest env client request ?b w = Some (resp, False, nic_bindings m' ! nic, w')"
    using h assms(2) by simp
  show "length (nic_bindings m') = length (nic_bindings m)" by (simp add: m')
  show "resp_status resp = kOk"
    using h fin1 m'(1) by (auto simp: HandleRequest_def Let_def)
qed

lemma MakeRequest_open:
  assumes "MakeRequest env has_callback io_error request s = Some (r, s')" and "session_holds s H"
    and "sess_open s'"
  obtains resp w where "r = Inr resp" and "resp_status resp = kOk"
    and "HandleRequest env (sess_client s) request ((session_binding s)
      \<lparr>resource_tracker := RegisterClient (sess_client s) (resource_tracker (session_binding s))\<rparr>) (sess_world s)
      = Some (resp, False, session_binding s', w)"
    and "sess_client s' = sess_client s" and "sess_nic s' = sess_nic s"
    and "sess_nic s' < length (nic_bindings (sess_importer s'))"
    and "sess_nic s < length (nic_bindings (sess_importer s))"
proof -
  have o: "sess_open s" using assms(1,3) by (auto simp: MakeRequest_def split: if_splits)
  obtain resp fin m w where serve: "ServeRequest env has_callback (sess_client s) (sess_nic s) request
      (sess_importer s) (sess_world s) = Some (resp, fin, m, w)"
    and s': "r = Inr resp" "s' = s\<lparr>sess_open := \<not> fin, sess_importer := m, sess_world := w\<rparr>"
    using assms(1) o by (auto simp: MakeRequest_def split: option.splits)
  have nic: "sess_nic s < length (nic_bindings (sess_importer s))"
    using assms(2) o by (simp add: session_holds_def)
  have "\<not> fin" using assms(3) s'(2) by simp
  note served = ServeRequest_open [OF serve nic this]
  show thesis
    by (rule that [OF s'(1) served(3)]) (use served nic s'(2) in \<open>simp_all add: session_binding_def\<close>)
qed

lemma HandleRequest_reg:
  "HandleRequest env client \<lparr>req_text = Some \<lparr>fts_magic_value = Some kFtsClientMagic, op_type = REG_BUFFER,
      req_reg_handle = None\<rparr>, req_fd = fd\<rparr> b w = Some (resp, fin, b', w') \<Longrightarrow>
    HandleRegBuffer env client \<lparr>req_text = Some \<lparr>fts_magic_value = Some kFtsClientMagic, op_type = REG_BUFFER,
      req_reg_handle = None\<rparr>, req_fd = fd\<rparr> b w = Some (resp, b', w')"
  by (auto simp: HandleRequest_def)

lemma HandleRequest_dereg:
  "HandleRequest env client \<lparr>req_text = Some \<lparr>fts_magic_value = Some kFtsClientMagic, op_type = DEREG_BUFFER,
      req_reg_handle = Some h\<rparr>, req_fd = None\<rparr> b w = Some (resp, fin, b', w') \<Longrightarrow>
    HandleDeregBuffer env client \<lparr>fts_magic_value = Some kFtsClientMagic, op_type = DEREG_BUFFER,
      req_reg_handle = Some h\<rparr> b w = (resp, b', w')"
  by (auto simp: HandleRequest_def split: prod.splits)

lemma session_holds_closed: "\<not> sess_open s \<Longrightarrow> session_holds s H"
  by (simp add: session_holds_def)

lemma RegBuf_fresh:
  assumes "session_holds s H" and "RegBuf env has_callback io_error dup fd n s = Some (Inr h, s')"
  shows "h \<notin> H \<and> session_holds s' (insert h H)"
proof -
  obtain request resp where make: "MakeRequest env has_callback io_error request s = Some (Inr resp, s')"
    and request: "request = \<lparr>req_text = Some \<lparr>fts_magic_value = Some kFtsClientMagic, op_type = REG_BUFFER,
      req_reg_handle = None\<rparr>, req_fd = (if fd > 0 then Some (dup fd) else None)\<rparr>"
    and h: "resp_reg_handle resp = Some h" and ok: "resp_status resp = kOk"
    using assms(2) unfolding RegBuf_def ParseBufferOpResp_def
    by (auto split: option.splits sum.splits if_splits)
  have o: "sess_open s" and o': "sess_open s'"
    using make ok
    by (auto simp: MakeRequest_def ServeRequest_def HandleRequest_def Let_def split: if_splits option.splits)
  let ?t = "RegisterClient (sess_client s) (resource_tracker (session_binding s))"
  have t: "tracker_ok ?t" "\<forall>h \<in> H. tracked ?t (sess_client s, h) \<noteq> None"
    using assms(1) o by (simp_all add: session_holds_def RegisterClient_tracked)
  from make assms(1) o' show ?thesis
  proof (cases rule: MakeRequest_open)
    case (1 resp1 w)
    have "resp1 = resp" using 1(1) by simp
    note reg = HandleRequest_reg [OF 1(3) [unfolded request this]]
    from HandleRegBuffer_tracker [OF reg] obtain fd i
      where "TrackBuffer (sess_client s) fd i h ?t = (kOk, resource_tracker (session_binding s'))"
      using h by auto
    note tr = TrackBuffer_tracked [OF this t(1)]
    have "h \<notin> H" using tr(1) t(2) by auto
    moreover have "\<forall>h' \<in> insert h H. tracked (resource_tracker (session_binding s')) (sess_client s', h') \<noteq> None"
      using tr(2) t(2) 1(4) by auto
    ultimately show ?thesis using tr(3) 1(6) by (simp add: session_holds_def)
  qed
qed

lemma RegBuf_error:
  assumes "session_holds s H" and "RegBuf env has_callback io_error dup fd n s = Some (Inl e, s')"
  shows "session_holds s' H"
proof (cases "sess_open s'")
  case o': True
  obtain request r where make: "MakeRequest env has_callback io_error request s = Some (r, s')"
    and request: "request = \<lparr>req_text = Some \<lparr>fts_magic_value = Some kFtsClientMagic, op_type = REG_BUFFER,
      req_reg_handle = None\<rparr>, req_fd = (if fd > 0 then Some (dup fd) else None)\<rparr>"
    and r: "\<And>resp. r = Inr resp \<Longrightarrow> resp_status resp = kOk \<Longrightarrow> resp_reg_handle resp = None"
    using assms(2) unfolding RegBuf_def ParseBufferOpResp_def
    by (auto split: option.splits sum.splits if_splits)
  have o: "sess_open s" using make o' by (auto simp: MakeRequest_def split: if_splits)
  from make assms(1) o' show ?thesis
  proof (cases rule: MakeRequest_open)
    case (1 resp w)
    note reg = HandleRequest_reg [OF 1(3) [unfolded request]]
    have "resource_tracker (session_binding s') =
        RegisterClient (sess_client s) (resource_tracker (session_binding s))"
      using HandleRegBuffer_tracker [OF reg] r [OF 1(1,2)] by simp
    then show ?thesis
      using assms(1) 1(4,6) o by (simp add: session_holds_def RegisterClient_tracked)
  qed
qed (rule session_holds_closed)

lemma DeregBuf_holds:
  assumes "session_holds s H" and "DeregBuf env has_callback io_error h s = Some (e, s')"
  shows "session_holds s' (H - {h})"
proof (cases "sess_open s'")
  case o': True
  obtain request r where make: "MakeRequest env has_callback io_error request s = Some (r, s')"
    and request: "request = \<lparr>req_text = Some \<lparr>fts_magic_value = Some kFtsClientMagic, op_type = DEREG_BUFFER,
      req_reg_handle = Some h\<rparr>, req_fd = None\<rparr>"
    using assms(2) unfolding DeregBuf_def ParseBufferOpResp_def
    by (auto split: option.splits sum.splits if_splits)
  have o: "sess_open s" using make o' by (auto simp: MakeRequest_def split: if_splits)
  let ?t = "RegisterClient (sess_client s) (resource_tracker (session_binding s))"
  have t: "tracker_ok ?t" "\<forall>h \<in> H. tracked ?t (sess_client s, h) \<noteq> None"
    using assms(1) o by (simp_all add: session_holds_def RegisterClient_tracked)
  from make assms(1) o' show ?thesis
  proof (cases rule: MakeRequest_open)
    case (1 resp w)
    note dereg = HandleRequest_dereg [OF 1(3) [unfolded request]]
    obtain w1 w2 where un: "UntrackBuffer (close_fd env) (sess_client s) h ?t w1 =
        (kOk, resource_tracker (session_binding s'), w2)"
      using HandleDeregBuffer_tracker [OF dereg 1(2), of h] by auto
    note tr = UntrackBuffer_tracked [OF un t(1)]
    have "\<forall>h' \<in> H - {h}. tracked (resource_tracker (session_binding s')) (sess_client s', h') \<noteq> None"
      using tr(1) t(2) 1(4) by auto
    then show ?thesis using tr(2) 1(6) by (simp add: session_holds_def)
  qed
qed (rule session_holds_closed)

interpretation rxdm: buffer_registry "RegBuf env has_callback io_error dup"
    "DeregBuf env has_callback io_error" session_holds
  for env :: "'w importer_env" and has_callback io_error dup
  by unfold_locales (erule (1) RegBuf_fresh RegBuf_error DeregBuf_holds)+

end
