(* ===== verification/Mr_Cache.thy ===== *)
theory Mr_Cache
  imports Buffer_Client "HOL-Library.Multiset"
begin

unbundle bit_operations_syntax

text \<open>
  Registration of NCCL's memory regions, \<^verbatim>\<open>RegMrDmaBuf\<close> and \<^verbatim>\<open>DeregMr\<close> of \<^verbatim>\<open>nccl_shim.cc\<close> with the cache
  of \<^verbatim>\<open>common.h\<close>. The cache holds one entry per region registered with the buffer manager, sorted by
  address and counted by reference. The buffer manager is used through \<open>buffer_registry\<close>, so
  the results hold of the client and the daemon together.
\<close>

section \<open>Data\<close>

definition kInvalidRegistration :: u64 where "kInvalidRegistration = 0"

definition kIpAddrMaxLen :: nat where "kIpAddrMaxLen = 40"

record MemoryHandle =
  reg_handle :: u64
  mem_type :: u32
  start_addr :: u64
  mh_size :: u32
  mh_dmabuf_fd :: int

record ncclMr =
  mr_handle :: MemoryHandle
  mr_pages :: u32
  mr_refs :: int

text \<open>
  \<open>slots\<close> is the allocated storage, \<open>[]\<close> the null pointer; the first \<open>population\<close> of them are in
  use.
\<close>

record ncclMrCache =
  slots :: "ncclMr list"
  capacity :: nat
  population :: nat

definition new_ncclMrCache :: ncclMrCache where
  "new_ncclMrCache = \<lparr>slots = [], capacity = 0, population = 0\<rparr>"

text \<open>
  What the code takes from outside: the page size, \<^verbatim>\<open>NCCL_PTR_CUDA\<close>, the flag \<^verbatim>\<open>kFastrakCacheMr\<close>,
  \<^verbatim>\<open>getDmabufFd\<close> and \<^verbatim>\<open>close\<close> on a process state \<open>'f\<close>, whether \<^verbatim>\<open>realloc\<close> succeeds, and the contents of
  storage that is not yet written.
\<close>

record 'f mr_env =
  page_size :: u64
  ptr_cuda :: u32
  cache_mr :: bool
  get_dmabuf_fd :: "u64 \<Rightarrow> u64 \<Rightarrow> 'f \<Rightarrow> int StatusOr \<times> 'f"
  close_dmabuf :: "int \<Rightarrow> 'f \<Rightarrow> 'f"
  alloc_ok :: "nat \<Rightarrow> 'f \<Rightarrow> bool"
  junk :: "nat \<Rightarrow> ncclMr"

type_synonym 's regbuf = "int \<Rightarrow> u64 \<Rightarrow> 's \<Rightarrow> (u64 StatusOr \<times> 's) option"
type_synonym 's deregbuf = "u64 \<Rightarrow> 's \<Rightarrow> (StatusCode \<times> 's) option"

section \<open>Registration\<close>

definition RegMrDmaBufInternal ::
    "'s regbuf \<Rightarrow> 'f mr_env \<Rightarrow> u64 \<Rightarrow> u64 \<Rightarrow> int option \<Rightarrow> 's \<Rightarrow> 'f
      \<Rightarrow> (MemoryHandle StatusOr \<times> 's \<times> 'f) option" where
  "RegMrDmaBufInternal regbuf env base len fd s f =
     (case (case fd of Some fd \<Rightarrow> (Inr fd, f) | None \<Rightarrow> get_dmabuf_fd env base len f) of
        (Inl e, f) \<Rightarrow> Some (Inl e, s, f)
      | (Inr new_fd, f) \<Rightarrow>
          (case regbuf new_fd len s of
             None \<Rightarrow> None
           | Some (Inl e, s) \<Rightarrow> Some (Inl e, s, if fd = None then close_dmabuf env new_fd f else f)
           | Some (Inr h, s) \<Rightarrow>
               Some (Inr \<lparr>reg_handle = h, mem_type = 0, start_addr = base, mh_size = ucast len,
                          mh_dmabuf_fd = new_fd\<rparr>, s, f)))"

text \<open>
  The search of the loop in \<^verbatim>\<open>RegMrDmaBuf\<close>: the slot at which it stops and whether the region is
  cached there. \<open>None\<close> is a loop that does not end or a read through the null pointer.
\<close>

partial_function (option) search_slot ::
    "ncclMrCache \<Rightarrow> u64 \<Rightarrow> u64 \<Rightarrow> u64 \<Rightarrow> nat \<Rightarrow> (nat \<times> bool) option" where
  "search_slot cache pageSize addr pages slot =
     (let slot_addr = (if slots cache \<noteq> [] \<and> population cache \<noteq> 0
                       then start_addr (mr_handle (slots cache ! slot)) else 0)
      in if slot = population cache \<or> addr < slot_addr then Some (slot, False)
         else if slots cache = [] then None
         else if (addr - slot_addr) div pageSize + pages \<le> scast (mr_pages (slots cache ! slot))
         then Some (slot, True)
         else search_slot cache pageSize addr pages (slot + 1))"

definition grow_slots :: "'f mr_env \<Rightarrow> 'f \<Rightarrow> ncclMrCache \<Rightarrow> bool \<times> ncclMrCache" where
  "grow_slots env f cache =
     (if population cache = capacity cache
      then let n = (if capacity cache < 32 then 32 else 2 * capacity cache)
           in if alloc_ok env n f
              then (True, cache\<lparr>capacity := n, slots := slots cache @ map (junk env) [length (slots cache)..<n]\<rparr>)
              else (False, cache\<lparr>capacity := n, slots := []\<rparr>)
      else (True, cache))"

definition insert_slot :: "nat \<Rightarrow> ncclMr \<Rightarrow> ncclMrCache \<Rightarrow> ncclMrCache" where
  "insert_slot slot mr cache =
     cache\<lparr>slots := take slot (slots cache) @ mr # take (population cache - slot) (drop slot (slots cache))
                    @ drop (population cache + 1) (slots cache),
           population := population cache + 1\<rparr>"

definition page_addr :: "u64 \<Rightarrow> u64 \<Rightarrow> u64" where
  "page_addr pageSize base = base AND - pageSize"

definition page_count :: "u64 \<Rightarrow> u64 \<Rightarrow> u64 \<Rightarrow> u64" where
  "page_count pageSize base len = (base + len - page_addr pageSize base + pageSize - 1) div pageSize"

definition RegMrDmaBuf ::
    "'s regbuf \<Rightarrow> 'f mr_env \<Rightarrow> u64 \<Rightarrow> u64 \<Rightarrow> u32 \<Rightarrow> int option \<Rightarrow> ncclMrCache \<Rightarrow> 's \<Rightarrow> 'f
      \<Rightarrow> (MemoryHandle StatusOr \<times> ncclMrCache \<times> 's \<times> 'f) option" where
  "RegMrDmaBuf regbuf env base len type fd cache s f =
     (if type AND ptr_cuda env = 0
      then Some (Inr \<lparr>reg_handle = kInvalidRegistration, mem_type = type, start_addr = base,
                      mh_size = ucast len, mh_dmabuf_fd = - 1\<rparr>, cache, s, f)
      else
        let pageSize = page_size env;
            addr = page_addr pageSize base;
            pages = page_count pageSize base len
        in if \<not> cache_mr env
           then case RegMrDmaBufInternal regbuf env addr (pageSize * pages) fd s f of
                  None \<Rightarrow> None
                | Some (Inl e, s, f) \<Rightarrow> Some (Inl e, cache, s, f)
                | Some (Inr mhandle, s, f) \<Rightarrow> Some (Inr (mhandle\<lparr>mem_type := type\<rparr>), cache, s, f)
           else case search_slot cache pageSize addr pages 0 of
                  None \<Rightarrow> None
                | Some (slot, True) \<Rightarrow>
                    let mr = slots cache ! slot
                    in Some (Inr (mr_handle mr),
                             cache\<lparr>slots := (slots cache)[slot := mr\<lparr>mr_refs := mr_refs mr + 1\<rparr>]\<rparr>, s, f)
                | Some (slot, False) \<Rightarrow>
                    (case grow_slots env f cache of
                       (False, cache) \<Rightarrow> Some (Inl kUnavailable, cache, s, f)
                     | (True, cache) \<Rightarrow>
                         (case RegMrDmaBufInternal regbuf env addr (pageSize * pages) fd s f of
                            None \<Rightarrow> None
                          | Some (Inl e, s, f) \<Rightarrow> Some (Inl e, cache, s, f)
                          | Some (Inr mhandle, s, f) \<Rightarrow>
                              if slots cache = [] then None
                              else let mhandle = mhandle\<lparr>mem_type := type\<rparr>
                                   in Some (Inr mhandle,
                                            insert_slot slot \<lparr>mr_handle = mhandle, mr_pages = ucast pages,
                                                              mr_refs = 1\<rparr> cache, s, f))))"

section \<open>Deregistration\<close>

definition DeregMrInternal ::
    "'s deregbuf \<Rightarrow> 'f mr_env \<Rightarrow> MemoryHandle \<Rightarrow> 's \<Rightarrow> 'f \<Rightarrow> (StatusCode \<times> 's \<times> 'f) option" where
  "DeregMrInternal deregbuf env mhandle s f =
     (let f = (if mh_dmabuf_fd mhandle > 0 then close_dmabuf env (mh_dmabuf_fd mhandle) f else f)
      in case deregbuf (reg_handle mhandle) s of None \<Rightarrow> None | Some (e, s) \<Rightarrow> Some (e, s, f))"

definition remove_slot :: "nat \<Rightarrow> ncclMrCache \<Rightarrow> ncclMrCache" where
  "remove_slot i cache =
     (let cache = cache\<lparr>slots := take i (slots cache)
                          @ take (population cache - i - 1) (drop (i + 1) (slots cache))
                          @ drop (population cache - 1) (slots cache),
                        population := population cache - 1\<rparr>
      in if population cache = 0 then cache\<lparr>slots := [], capacity := 0\<rparr> else cache)"

text \<open>The loop of \<^verbatim>\<open>DeregMr\<close> from slot \<open>i\<close>; \<open>Inl\<close> is the read through the null pointer.\<close>

function find_handle :: "u64 \<Rightarrow> ncclMrCache \<Rightarrow> nat \<Rightarrow> unit + nat option" where
  "find_handle h cache i =
     (if i < population cache then
        if slots cache = [] then Inl ()
        else if h = reg_handle (mr_handle (slots cache ! i)) then Inr (Some i)
        else find_handle h cache (i + 1)
      else Inr None)"
  by pat_completeness auto
termination by (relation "measure (\<lambda>(h, cache, i). population cache - i)") auto

declare find_handle.simps [simp del]

definition DeregMr ::
    "'s deregbuf \<Rightarrow> 'f mr_env \<Rightarrow> MemoryHandle \<Rightarrow> ncclMrCache \<Rightarrow> 's \<Rightarrow> 'f
      \<Rightarrow> (StatusCode \<times> ncclMrCache \<times> 's \<times> 'f) option" where
  "DeregMr deregbuf env mhandle cache s f =
     (if mem_type mhandle AND ptr_cuda env = 0 then Some (kOk, cache, s, f)
      else if reg_handle mhandle \<noteq> kInvalidRegistration then
        if \<not> cache_mr env
        then case DeregMrInternal deregbuf env mhandle s f of
               None \<Rightarrow> None
             | Some (e, s, f) \<Rightarrow> Some (e, cache, s, f)
        else case find_handle (reg_handle mhandle) cache 0 of
               Inl _ \<Rightarrow> None
             | Inr None \<Rightarrow> Some (kInternal, cache, s, f)
             | Inr (Some i) \<Rightarrow>
                 let mr = (slots cache ! i)\<lparr>mr_refs := mr_refs (slots cache ! i) - 1\<rparr>;
                     cache = cache\<lparr>slots := (slots cache)[i := mr]\<rparr>
                 in if mr_refs mr = 0
                    then case DeregMrInternal deregbuf env mhandle s f of
                           None \<Rightarrow> None
                         | Some (e, s, f) \<Rightarrow> Some (e, remove_slot i cache, s, f)
                    else Some (kOk, cache, s, f)
      else Some (kOk, cache, s, f))"

section \<open>NCCL as the user of the cache\<close>

text \<open>
  The states reached by registering and deregistering; \<open>out\<close> are the handles NCCL has and has not
  given back.
\<close>

inductive mr_reachable ::
    "'s regbuf \<Rightarrow> 's deregbuf \<Rightarrow> 'f mr_env \<Rightarrow> 's \<Rightarrow> 'f
      \<Rightarrow> ncclMrCache \<Rightarrow> MemoryHandle multiset \<Rightarrow> 's \<Rightarrow> 'f \<Rightarrow> bool"
  for regbuf deregbuf env s0 f0 where
    start: "mr_reachable regbuf deregbuf env s0 f0 new_ncclMrCache {#} s0 f0"
  | reg: "mr_reachable regbuf deregbuf env s0 f0 c out s f \<Longrightarrow>
      RegMrDmaBuf regbuf env base len type fd c s f = Some (Inr mh, c', s', f') \<Longrightarrow>
      mr_reachable regbuf deregbuf env s0 f0 c' (add_mset mh out) s' f'"
  | reg_failed: "mr_reachable regbuf deregbuf env s0 f0 c out s f \<Longrightarrow>
      RegMrDmaBuf regbuf env base len type fd c s f = Some (Inl e, c', s', f') \<Longrightarrow>
      mr_reachable regbuf deregbuf env s0 f0 c' out s' f'"
  | dereg: "mr_reachable regbuf deregbuf env s0 f0 c (add_mset mh out) s f \<Longrightarrow>
      DeregMr deregbuf env mh c s f = Some (e, c', s', f') \<Longrightarrow>
      mr_reachable regbuf deregbuf env s0 f0 c' out s' f'"


section \<open>The entries\<close>

definition entries :: "ncclMrCache \<Rightarrow> ncclMr list" where
  "entries c = take (population c) (slots c)"

definition storage_ok :: "ncclMrCache \<Rightarrow> bool" where
  "storage_ok c \<longleftrightarrow> length (slots c) = capacity c \<and> population c \<le> capacity c"

abbreviation entry_handle :: "ncclMr \<Rightarrow> u64" where
  "entry_handle e \<equiv> reg_handle (mr_handle e)"

abbreviation entry_addr :: "ncclMr \<Rightarrow> u64" where
  "entry_addr e \<equiv> start_addr (mr_handle e)"

lemma entries_nth: "i < population c \<Longrightarrow> entries c ! i = slots c ! i"
  by (simp add: entries_def)

lemma length_entries: "storage_ok c \<Longrightarrow> length (entries c) = population c"
  by (simp add: entries_def storage_ok_def)

lemma entries_new [simp]: "entries new_ncclMrCache = []" "storage_ok new_ncclMrCache"
  by (simp_all add: entries_def new_ncclMrCache_def storage_ok_def)

lemma entries_grow:
  assumes "storage_ok c" and "grow_slots env f c = (True, c')"
  shows "entries c' = entries c" and "storage_ok c'" and "population c' = population c"
    and "population c' < capacity c'" and "slots c' \<noteq> []"
  using assms by (auto simp: grow_slots_def entries_def storage_ok_def Let_def split: if_splits)

lemma entries_insert_slot:
  assumes "storage_ok c" and "population c < capacity c" and "slot \<le> population c"
  shows "entries (insert_slot slot mr c) = take slot (entries c) @ mr # drop slot (entries c)"
    and "storage_ok (insert_slot slot mr c)"
  using assms by (auto simp: insert_slot_def entries_def storage_ok_def min_def take_drop Suc_diff_le)

lemma entries_update:
  assumes "storage_ok c" and "i < population c"
  shows "entries (c\<lparr>slots := (slots c)[i := mr]\<rparr>) = (entries c)[i := mr]"
    and "storage_ok (c\<lparr>slots := (slots c)[i := mr]\<rparr>)"
  using assms by (auto simp: entries_def storage_ok_def take_update_swap)

lemma entries_remove_slot:
  assumes "storage_ok c" and "i < population c"
  shows "entries (remove_slot i c) = take i (entries c) @ drop (Suc i) (entries c)"
    and "storage_ok (remove_slot i c)"
  using assms by (auto simp: remove_slot_def entries_def storage_ok_def Let_def min_def drop_take
      intro: arg_cong [where f = "\<lambda>n. take n (slots c)"])

section \<open>The search\<close>

text \<open>Where the search stops.\<close>

definition stops_at :: "ncclMrCache \<Rightarrow> u64 \<Rightarrow> u64 \<Rightarrow> u64 \<Rightarrow> nat \<Rightarrow> bool \<Rightarrow> bool" where
  "stops_at c pageSize addr pages slot hit \<longleftrightarrow>
     slot \<le> population c \<and> (\<forall>k < slot. entry_addr (slots c ! k) \<le> addr) \<and>
     (if hit then slot < population c \<and> entry_addr (slots c ! slot) \<le> addr \<and>
        (addr - entry_addr (slots c ! slot)) div pageSize + pages \<le> scast (mr_pages (slots c ! slot))
      else slot < population c \<longrightarrow> addr < entry_addr (slots c ! slot))"

lemma search_slot_step:
  assumes "storage_ok c"
  shows "search_slot c pageSize addr pages slot =
    (if slot = population c then Some (slot, False)
     else if addr < entry_addr (slots c ! slot) \<and> population c \<noteq> 0 then Some (slot, False)
     else if slots c = [] then None
     else if (addr - entry_addr (slots c ! slot)) div pageSize + pages \<le> scast (mr_pages (slots c ! slot))
       \<and> population c \<noteq> 0 then Some (slot, True)
     else if population c = 0 \<and> addr div pageSize + pages \<le> scast (mr_pages (slots c ! slot)) then Some (slot, True)
     else search_slot c pageSize addr pages (slot + 1))"
  using assms by (subst search_slot.simps) (auto simp: storage_ok_def Let_def)

lemma search_slot_stops:
  assumes "storage_ok c" and "slot \<le> population c" and "\<forall>k < slot. entry_addr (slots c ! k) \<le> addr"
  shows "\<exists>slot' hit. search_slot c pageSize addr pages slot = Some (slot', hit) \<and>
    stops_at c pageSize addr pages slot' hit"
  using assms(2,3)
proof (induction "population c - slot" arbitrary: slot)
  case 0
  then have "slot = population c" by simp
  with 0 show ?case
    by (intro exI [of _ slot] exI [of _ False]) (simp add: search_slot_step [OF assms(1)] stops_at_def)
next
  case (Suc n)
  then have slot: "slot < population c" by simp
  then have ne: "slots c \<noteq> []" using assms(1) by (auto simp: storage_ok_def)
  let ?e = "slots c ! slot"
  consider "addr < entry_addr ?e"
    | "entry_addr ?e \<le> addr" "(addr - entry_addr ?e) div pageSize + pages \<le> scast (mr_pages ?e)"
    | "entry_addr ?e \<le> addr" "\<not> (addr - entry_addr ?e) div pageSize + pages \<le> scast (mr_pages ?e)"
    by force
  then show ?case
  proof cases
    case 3
    have "n = population c - (slot + 1)" "slot + 1 \<le> population c"
      "\<forall>k < slot + 1. entry_addr (slots c ! k) \<le> addr"
      using Suc.hyps(2) slot Suc.prems(2) 3(1) by (auto simp: less_Suc_eq)
    from Suc.hyps(1) [OF this] show ?thesis
      using slot ne 3 by (simp add: search_slot_step [OF assms(1), of _ _ _ slot] leD)
  qed (use slot ne Suc.prems(2) in \<open>auto simp: search_slot_step [OF assms(1), of _ _ _ slot] stops_at_def\<close>)
qed

lemma find_handle_Some:
  assumes "find_handle h c i = Inr (Some j)"
  shows "j < population c \<and> i \<le> j \<and> entry_handle (slots c ! j) = h"
  using assms
proof (induction h c i rule: find_handle.induct)
  case (1 h c i)
  from "1.prems" show ?case
    by (subst (asm) find_handle.simps) (use "1.IH" in \<open>auto split: if_splits\<close>)
qed

lemma find_handle_None:
  assumes "find_handle h c i = Inr None" and "i \<le> j" and "j < population c"
  shows "entry_handle (slots c ! j) \<noteq> h"
  using assms
proof (induction h c i rule: find_handle.induct)
  case (1 h c i)
  from "1.prems" show ?case
    by (subst (asm) find_handle.simps) (use "1.IH" in \<open>cases "i = j"; auto split: if_splits\<close>)
qed

lemma find_handle_null: "find_handle h c i = Inl u \<Longrightarrow> slots c = [] \<and> population c \<noteq> 0"
  by (induction h c i rule: find_handle.induct) (subst (asm) find_handle.simps, auto split: if_splits)


section \<open>Reference counts\<close>

definition refs_of :: "ncclMr list \<Rightarrow> u64 \<Rightarrow> int" where
  "refs_of es h = (\<Sum>e \<leftarrow> es. if entry_handle e = h then mr_refs e else 0)"

definition held :: "'f mr_env \<Rightarrow> MemoryHandle multiset \<Rightarrow> u64 \<Rightarrow> int" where
  "held env out h = int (size {#mh \<in># out. mem_type mh AND ptr_cuda env \<noteq> 0 \<and> reg_handle mh = h#})"

lemma refs_of_simps [simp]:
  "refs_of [] h = 0" "refs_of (e # es) h = (if entry_handle e = h then mr_refs e else 0) + refs_of es h"
  "refs_of (es @ es') h = refs_of es h + refs_of es' h"
  by (simp_all add: refs_of_def)

lemma held_simps [simp]:
  "held env {#} h = 0"
  "held env (add_mset mh out) h =
     held env out h + (if mem_type mh AND ptr_cuda env \<noteq> 0 \<and> reg_handle mh = h then 1 else 0)"
  by (simp_all add: held_def)

lemma held_nonneg: "0 \<le> held env out h"
  by (simp add: held_def)

lemma refs_of_take_drop: "refs_of (take i es) h + refs_of (drop i es) h = refs_of es h"
  by (metis append_take_drop_id refs_of_simps(3))

lemma refs_of_nth:
  "i < length es \<Longrightarrow> refs_of es h = refs_of (take i es) h
    + (if entry_handle (es ! i) = h then mr_refs (es ! i) else 0) + refs_of (drop (Suc i) es) h"
  by (subst id_take_nth_drop, assumption) simp

lemma refs_of_update:
  "i < length es \<Longrightarrow> refs_of (es[i := e]) h = refs_of es h
    - (if entry_handle (es ! i) = h then mr_refs (es ! i) else 0) + (if entry_handle e = h then mr_refs e else 0)"
  by (simp add: upd_conv_take_nth_drop refs_of_nth [of i es])

lemma refs_of_member:
  assumes "0 < refs_of es h"
  shows "\<exists>i < length es. entry_handle (es ! i) = h"
proof (rule ccontr)
  assume "\<not> ?thesis"
  then have "\<forall>e \<in> set es. entry_handle e \<noteq> h" by (auto simp: in_set_conv_nth)
  then have "refs_of es h = 0" by (induction es) auto
  with assms show False by simp
qed

lemma refs_of_distinct:
  assumes "distinct (map entry_handle es)" and "e \<in> set es"
  shows "refs_of es (entry_handle e) = mr_refs e"
  using assms
proof (induction es)
  case (Cons a es)
  have zero: "refs_of es h = 0" if "h \<notin> set (map entry_handle es)" for h
    using that by (induction es) auto
  show ?case using Cons zero [of "entry_handle a"] by (cases "e = a") auto
qed simp

section \<open>Invariant\<close>

text \<open>
  After a failed \<^verbatim>\<open>realloc\<close> the slots are a null pointer while the counts stay; no call on GPU memory
  returns from there. Otherwise the entries are sorted by address.
\<close>

definition lost :: "ncclMrCache \<Rightarrow> bool" where
  "lost c \<longleftrightarrow> slots c = [] \<and> population c < capacity c"

definition entries_ok :: "'f mr_env \<Rightarrow> ncclMr list \<Rightarrow> bool" where
  "entries_ok env es \<longleftrightarrow> distinct (map entry_handle es) \<and> sorted (map entry_addr es) \<and>
     (\<forall>e \<in> set es. 0 < mr_refs e \<and> mem_type (mr_handle e) AND ptr_cuda env \<noteq> 0 \<and>
        (\<exists>base. entry_addr e = page_addr (page_size env) base))"

definition counts_ok :: "'f mr_env \<Rightarrow> ncclMr list \<Rightarrow> MemoryHandle multiset \<Rightarrow> bool" where
  "counts_ok env es out \<longleftrightarrow>
     (\<forall>h. held env out h \<le> refs_of es h \<and> (h \<noteq> kInvalidRegistration \<longrightarrow> held env out h = refs_of es h))"

definition mr_inv :: "'f mr_env \<Rightarrow> ('s \<Rightarrow> u64 set \<Rightarrow> bool) \<Rightarrow> ncclMrCache \<Rightarrow> MemoryHandle multiset \<Rightarrow> 's \<Rightarrow> bool" where
  "mr_inv env holds c out s \<longleftrightarrow>
     (\<exists>es. (lost c \<or> storage_ok c \<and> es = entries c) \<and> length es = population c \<and> entries_ok env es \<and>
        counts_ok env es out \<and> holds s (entry_handle ` set es))"

lemma mr_invI:
  "storage_ok c \<Longrightarrow> entries_ok env (entries c) \<Longrightarrow> counts_ok env (entries c) out \<Longrightarrow>
    holds s (entry_handle ` set (entries c)) \<Longrightarrow> mr_inv env holds c out s"
  by (auto simp: mr_inv_def length_entries)

lemma mr_inv_cases:
  assumes "mr_inv env holds c out s"
  obtains (lost) es where "lost c" and "length es = population c" and "entries_ok env es"
      and "counts_ok env es out" and "holds s (entry_handle ` set es)"
  | (ok) "storage_ok c" and "entries_ok env (entries c)" and "counts_ok env (entries c) out"
      and "holds s (entry_handle ` set (entries c))"
  using assms by (auto simp: mr_inv_def)

lemma storage_ok_not_lost: "storage_ok c \<Longrightarrow> \<not> lost c"
  by (auto simp: storage_ok_def lost_def)

lemma RegMrDmaBufInternal_cases:
  assumes "RegMrDmaBufInternal regbuf env base len fd s f = Some (r, s', f')"
  obtains (failed) e where "r = Inl e" and "s' = s \<or> (\<exists>fd. regbuf fd len s = Some (Inl e, s'))"
  | (registered) mh fd where "r = Inr mh" and "regbuf fd len s = Some (Inr (reg_handle mh), s')" and "start_addr mh = base"
  using assms by (auto simp: RegMrDmaBufInternal_def split: option.splits prod.splits sum.splits if_splits)

lemma RegMrDmaBuf_lost:
  assumes "lost c" and "cache_mr env"
    and "RegMrDmaBuf regbuf env base len type fd c s f = Some (r, c', s', f')"
  shows "c' = c \<and> (case r of Inr mh \<Rightarrow> mem_type mh AND ptr_cuda env = 0 \<and> type AND ptr_cuda env = 0 \<and> s' = s
    | Inl e \<Rightarrow> s' = s \<or> (\<exists>fd n. regbuf fd n s = Some (Inl e, s')))"
proof (cases "type AND ptr_cuda env = 0")
  case True
  then show ?thesis using assms(3) by (auto simp: RegMrDmaBuf_def)
next
  case False
  have g: "grow_slots env f c = (True, c)" and sl: "slots c = []"
    using assms(1) by (simp_all add: lost_def grow_slots_def)
  have search: "search_slot c n a m 0 = (if population c = 0 then Some (0, False) else None)" for n a m
    by (subst search_slot.simps) (simp add: sl Let_def)
  show ?thesis using assms(2,3) False
    by (auto simp: RegMrDmaBuf_def Let_def g sl search split: option.splits sum.splits if_splits
        elim!: RegMrDmaBufInternal_cases)
qed

lemma RegMrDmaBuf_cases:
  assumes "cache_mr env" and "storage_ok c"
    and "RegMrDmaBuf regbuf env base len type fd c s f = Some (r, c', s', f')"
  obtains
    (host) mh where "r = Inr mh" and "mem_type mh AND ptr_cuda env = 0" and "c' = c" and "s' = s"
      and "type AND ptr_cuda env = 0"
  | (hit) slot where "stops_at c (page_size env) (page_addr (page_size env) base)
        (page_count (page_size env) base len) slot True"
      and "r = Inr (mr_handle (entries c ! slot))" and "s' = s" and "storage_ok c'"
      and "entries c' = (entries c)[slot := (entries c ! slot)\<lparr>mr_refs := mr_refs (entries c ! slot) + 1\<rparr>]"
  | (no_memory) e where "r = Inl e" and "lost c'" and "population c' = population c" and "s' = s"
  | (failed) e where "r = Inl e" and "storage_ok c'" and "entries c' = entries c"
      and "s' = s \<or> (\<exists>fd n. regbuf fd n s = Some (Inl e, s'))"
  | (added) slot mh fd n where "stops_at c (page_size env) (page_addr (page_size env) base)
        (page_count (page_size env) base len) slot False"
      and "r = Inr mh" and "mem_type mh AND ptr_cuda env \<noteq> 0" and "start_addr mh = page_addr (page_size env) base"
      and "regbuf fd n s = Some (Inr (reg_handle mh), s')" and "storage_ok c'"
      and "entries c' = take slot (entries c)
        @ \<lparr>mr_handle = mh, mr_pages = ucast (page_count (page_size env) base len), mr_refs = 1\<rparr>
        # drop slot (entries c)"
proof (cases "type AND ptr_cuda env = 0")
  case True
  then show ?thesis using assms(3) host by (auto simp: RegMrDmaBuf_def)
next
  case cuda: False
  let ?ps = "page_size env"
  let ?a = "page_addr ?ps base" and ?n = "page_count ?ps base len"
  from search_slot_stops [OF assms(2), of 0 ?a ?ps ?n] obtain slot is_hit
    where search: "search_slot c ?ps ?a ?n 0 = Some (slot, is_hit)" and stops: "stops_at c ?ps ?a ?n slot is_hit"
    by auto
  have le: "slot \<le> population c" using stops by (simp add: stops_at_def)
  show ?thesis
  proof (cases is_hit)
    case True
    have lt: "slot < population c" using stops True by (simp add: stops_at_def)
    show ?thesis
      by (rule hit [of slot])
        (use assms search stops lt cuda entries_update [OF assms(2) lt] in
          \<open>auto simp: RegMrDmaBuf_def Let_def True entries_nth\<close>)
  next
    case miss: False
    obtain ok c1 where grow: "grow_slots env f c = (ok, c1)" by fastforce
    show ?thesis
    proof (cases ok)
      case False
      then have "r = Inl kUnavailable" "c' = c1" "s' = s" "lost c1" "population c1 = population c"
        using assms search miss grow cuda
        by (auto simp: RegMrDmaBuf_def Let_def grow_slots_def lost_def split: if_splits)
      then show ?thesis using no_memory by blast
    next
      case True
      have "grow_slots env f c = (True, c1)" using grow True by simp
      note grown = entries_grow [OF assms(2) this]
      obtain r1 s1 f1 where int: "RegMrDmaBufInternal regbuf env ?a (?ps * ?n) fd s f = Some (r1, s1, f1)"
        using assms search miss grow True cuda
        by (cases "RegMrDmaBufInternal regbuf env ?a (?ps * ?n) fd s f") (auto simp: RegMrDmaBuf_def Let_def)
      note reg = assms(3) [unfolded RegMrDmaBuf_def Let_def search]
      from int show ?thesis
      proof (cases rule: RegMrDmaBufInternal_cases)
        case (failed e)
        then have "r = Inl e" "c' = c1" "s' = s1"
          using reg int grow True miss assms(1) cuda by auto
        then show ?thesis using that(4) failed(2) grown by blast
      next
        case (registered mh fd1)
        let ?mh = "mh\<lparr>mem_type := type\<rparr>"
        have c': "r = Inr ?mh" "s' = s1"
          "c' = insert_slot slot \<lparr>mr_handle = ?mh, mr_pages = ucast ?n, mr_refs = 1\<rparr> c1"
          using reg int grow True miss assms(1) cuda registered(1) grown(5) by auto
        show ?thesis
          by (rule added [of slot ?mh fd1 "?ps * ?n"])
            (use stops miss c' cuda registered grown entries_insert_slot [OF grown(2,4)] le in auto)
      qed
    qed
  qed
qed

lemma DeregMr_lost:
  assumes "lost c" and "cache_mr env" and "DeregMr deregbuf env mh c s f = Some (e, c', s', f')"
  shows "c' = c \<and> s' = s \<and>
    (mem_type mh AND ptr_cuda env = 0 \<or> reg_handle mh = kInvalidRegistration \<or> population c = 0)"
proof -
  have "find_handle h c 0 = (if population c = 0 then Inr None else Inl ())" for h
    by (subst find_handle.simps) (use assms(1) in \<open>simp add: lost_def\<close>)
  then show ?thesis using assms(2,3) by (auto simp: DeregMr_def split: if_splits)
qed

lemma DeregMr_cases:
  assumes "cache_mr env" and "storage_ok c" and "DeregMr deregbuf env mh c s f = Some (e, c', s', f')"
  obtains
    (ignored) "mem_type mh AND ptr_cuda env = 0 \<or> reg_handle mh = kInvalidRegistration" and "c' = c" and "s' = s"
  | (unknown) "\<forall>i < length (entries c). entry_handle (entries c ! i) \<noteq> reg_handle mh" and "c' = c" and "s' = s"
      and "reg_handle mh \<noteq> kInvalidRegistration" and "mem_type mh AND ptr_cuda env \<noteq> 0"
  | (dropped) i where "i < length (entries c)" and "entry_handle (entries c ! i) = reg_handle mh" and "s' = s"
      and "reg_handle mh \<noteq> kInvalidRegistration" and "mem_type mh AND ptr_cuda env \<noteq> 0"
      and "mr_refs (entries c ! i) \<noteq> 1" and "storage_ok c'"
      and "entries c' = (entries c)[i := (entries c ! i)\<lparr>mr_refs := mr_refs (entries c ! i) - 1\<rparr>]"
  | (last) i where "i < length (entries c)" and "entry_handle (entries c ! i) = reg_handle mh"
      and "reg_handle mh \<noteq> kInvalidRegistration" and "mem_type mh AND ptr_cuda env \<noteq> 0"
      and "mr_refs (entries c ! i) = 1" and "deregbuf (reg_handle mh) s = Some (e, s')" and "storage_ok c'"
      and "entries c' = take i (entries c) @ drop (Suc i) (entries c)"
proof (cases "mem_type mh AND ptr_cuda env = 0 \<or> reg_handle mh = kInvalidRegistration")
  case True
  then have "c' = c" "s' = s" using assms(3) by (auto simp: DeregMr_def split: if_splits)
  with True show ?thesis by (rule ignored)
next
  case valid: False
  note len = length_entries [OF assms(2)]
  obtain j where find: "find_handle (reg_handle mh) c 0 = Inr j"
    using find_handle_null [of "reg_handle mh" c 0] assms(2)
    by (cases "find_handle (reg_handle mh) c 0") (auto simp: storage_ok_def)
  show ?thesis
  proof (cases j)
    case None
    have "\<forall>i < length (entries c). entry_handle (entries c ! i) \<noteq> reg_handle mh"
      using find_handle_None [OF find [unfolded None]] by (simp add: len entries_nth)
    moreover have "c' = c" "s' = s" using assms(1,3) valid find None by (auto simp: DeregMr_def)
    ultimately show ?thesis using unknown valid by blast
  next
    case (Some i)
    have i: "i < population c" "entry_handle (slots c ! i) = reg_handle mh"
      using find_handle_Some [OF find [unfolded Some]] by simp_all
    let ?mr = "(slots c ! i)\<lparr>mr_refs := mr_refs (slots c ! i) - 1\<rparr>"
    let ?c = "c\<lparr>slots := (slots c)[i := ?mr]\<rparr>"
    note upd = entries_update [OF assms(2) i(1), of ?mr]
    have pop: "i < population ?c" using i by simp
    note rem = entries_remove_slot [OF upd(2) pop]
    note res = assms(3) [unfolded DeregMr_def find Some]
    show ?thesis
    proof (cases "mr_refs (slots c ! i) = 1")
      case True
      then have "c' = remove_slot i ?c" "deregbuf (reg_handle mh) s = Some (e, s')"
        using res valid assms(1) by (auto simp: Let_def DeregMrInternal_def split: option.splits)
      then show ?thesis
        by (intro last [of i]) (use rem upd i valid True in \<open>simp_all add: len entries_nth\<close>)
    next
      case False
      then have "c' = ?c" "s' = s" using res valid assms(1) by (auto simp: Let_def)
      then show ?thesis
        by (intro dropped [of i]) (use upd i valid False in \<open>simp_all add: len entries_nth\<close>)
    qed
  qed
qed

section \<open>What every operation does to the entries\<close>

lemma sorted_insert_at:
  assumes "sorted xs" and "slot \<le> length xs" and "\<forall>k < slot. xs ! k \<le> a" and "slot < length xs \<Longrightarrow> a \<le> xs ! slot"
  shows "sorted (take slot xs @ a # drop slot xs)"
proof -
  have "\<forall>x \<in> set (take slot xs). x \<le> a"
    using assms(2,3) by (auto simp: in_set_conv_nth)
  moreover have "\<forall>x \<in> set (drop slot xs). a \<le> x"
    using assms(1,4) by (auto simp: in_set_conv_nth sorted_iff_nth_mono) (metis add_leD1 le_add1 order.trans not_le less_diff_conv add.commute)
  moreover have "x \<le> y" if "x \<in> set (take slot xs)" "y \<in> set (drop slot xs)" for x y
    using assms(1) that by (metis append_take_drop_id sorted_append)
  ultimately show ?thesis
    using assms(1) by (auto simp: sorted_append sorted_wrt_take sorted_wrt_drop)
qed

lemma entries_ok_insert:
  assumes "entries_ok env es" and "slot \<le> length es" and "entry_handle e \<notin> entry_handle ` set es"
    and "\<forall>k < slot. entry_addr (es ! k) \<le> entry_addr e" and "slot < length es \<Longrightarrow> entry_addr e \<le> entry_addr (es ! slot)"
    and "0 < mr_refs e" and "mem_type (mr_handle e) AND ptr_cuda env \<noteq> 0"
    and "entry_addr e = page_addr (page_size env) base"
  shows "entries_ok env (take slot es @ e # drop slot es)"
proof -
  have set: "set (take slot es @ e # drop slot es) = insert e (set es)"
    by (subst (3) append_take_drop_id [of slot es, symmetric]) (simp only: set_append, auto)
  have "sorted (map entry_addr (take slot es @ e # drop slot es))"
    using sorted_insert_at [of "map entry_addr es" slot "entry_addr e"] assms(1,2,4,5)
    by (simp add: entries_ok_def take_map drop_map)
  moreover have "distinct (map entry_handle (take slot es @ e # drop slot es))"
  proof -
    have "distinct (map entry_handle (take slot es @ drop slot es))" using assms(1) by (simp add: entries_ok_def)
    moreover have "entry_handle e \<notin> entry_handle ` set (take slot es @ drop slot es)" using assms(3) by simp
    ultimately show ?thesis by (simp only: map_append set_append distinct_append list.map distinct.simps) auto
  qed
  ultimately show ?thesis
    using assms(1,6-8) unfolding entries_ok_def set by auto
qed

lemma map_update_same: "i < length xs \<Longrightarrow> g x = g (xs ! i) \<Longrightarrow> map g (xs[i := x]) = map g xs"
  by (metis list_update_id map_update nth_map)

lemma entries_ok_update:
  assumes "entries_ok env es" and "i < length es" and "0 < n"
  shows "entries_ok env (es[i := (es ! i)\<lparr>mr_refs := n\<rparr>])"
proof -
  have "map entry_handle (es[i := (es ! i)\<lparr>mr_refs := n\<rparr>]) = map entry_handle es"
    "map entry_addr (es[i := (es ! i)\<lparr>mr_refs := n\<rparr>]) = map entry_addr es"
    using assms(2) by (simp_all add: map_update_same)
  moreover have "0 < mr_refs e \<and> mem_type (mr_handle e) AND ptr_cuda env \<noteq> 0 \<and>
      (\<exists>base. entry_addr e = page_addr (page_size env) base)"
    if "e \<in> set (es[i := (es ! i)\<lparr>mr_refs := n\<rparr>])" for e
  proof -
    have "e = (es ! i)\<lparr>mr_refs := n\<rparr> \<or> e \<in> set es"
      using that set_update_subset_insert [of es i] by fast
    moreover have "es ! i \<in> set es" using assms(2) by simp
    ultimately show ?thesis using assms(1,3) by (auto simp: entries_ok_def)
  qed
  ultimately show ?thesis
    using assms(1) by (simp add: entries_ok_def)
qed

lemma entries_ok_remove:
  assumes "entries_ok env es" and "i < length es"
  shows "entries_ok env (take i es @ drop (Suc i) es)"
    and "entry_handle ` set (take i es @ drop (Suc i) es) = entry_handle ` set es - {entry_handle (es ! i)}"
proof -
  have es: "es = take i es @ es ! i # drop (Suc i) es" by (rule id_take_nth_drop [OF assms(2)])
  have ok: "entries_ok env (take i es @ es ! i # drop (Suc i) es)" using assms(1) es by simp
  then show "entries_ok env (take i es @ drop (Suc i) es)"
    by (auto simp: entries_ok_def sorted_append)
  have fresh: "entry_handle (es ! i) \<notin> entry_handle ` set (take i es @ drop (Suc i) es)"
    using ok unfolding entries_ok_def by (simp add: image_Un)
  have "set es = insert (es ! i) (set (take i es @ drop (Suc i) es))" by (subst es) auto
  then have handles: "entry_handle ` set es = insert (entry_handle (es ! i)) (entry_handle ` set (take i es @ drop (Suc i) es))"
    by (simp only: image_insert)
  show "entry_handle ` set (take i es @ drop (Suc i) es) = entry_handle ` set es - {entry_handle (es ! i)}"
    by (subst handles) (rule Diff_insert_absorb [OF fresh, symmetric])
qed

lemma handles_update:
  "i < length es \<Longrightarrow> entry_handle ` set (es[i := (es ! i)\<lparr>mr_refs := n\<rparr>]) = entry_handle ` set es"
proof -
  assume "i < length es"
  then have "map entry_handle (es[i := (es ! i)\<lparr>mr_refs := n\<rparr>]) = map entry_handle es"
    by (simp add: map_update_same)
  then show ?thesis by (metis list.set_map)
qed

lemma handles_insert: "entry_handle ` set (take i es @ e # drop i es) = insert (entry_handle e) (entry_handle ` set es)"
  by (metis (no_types) append_take_drop_id image_insert list.set(2) set_append Un_insert_right)

lemma counts_ok_add:
  assumes "counts_ok env es out"
    and "\<And>h. refs_of es' h = refs_of es h + (if mem_type mh AND ptr_cuda env \<noteq> 0 \<and> reg_handle mh = h then 1 else 0)"
  shows "counts_ok env es' (add_mset mh out)"
  using assms by (simp add: counts_ok_def)

lemma counts_ok_drop:
  assumes "counts_ok env es (add_mset mh out)"
    and "\<And>h. refs_of es' h = refs_of es h - (if mem_type mh AND ptr_cuda env \<noteq> 0 \<and> reg_handle mh = h then 1 else 0)"
  shows "counts_ok env es' out"
  unfolding counts_ok_def
proof
  fix h
  show "held env out h \<le> refs_of es' h \<and> (h \<noteq> kInvalidRegistration \<longrightarrow> held env out h = refs_of es' h)"
    using spec [OF assms(1) [unfolded counts_ok_def], of h] assms(2) [of h] by (auto split: if_splits)
qed

lemma counts_ok_ignored:
  assumes "counts_ok env es (add_mset mh out)"
    and "mem_type mh AND ptr_cuda env = 0 \<or> reg_handle mh = kInvalidRegistration"
  shows "counts_ok env es out"
  unfolding counts_ok_def
proof
  fix h
  show "held env out h \<le> refs_of es h \<and> (h \<noteq> kInvalidRegistration \<longrightarrow> held env out h = refs_of es h)"
    using spec [OF assms(1) [unfolded counts_ok_def], of h] assms(2) by (auto split: if_splits)
qed

lemma counts_ok_entry:
  assumes "counts_ok env es out" and "mh \<in># out" and "mem_type mh AND ptr_cuda env \<noteq> 0"
  shows "\<exists>i < length es. entry_handle (es ! i) = reg_handle mh"
proof (rule refs_of_member)
  obtain out' where "out = add_mset mh out'" using assms(2) by (metis mset_add)
  then have "0 < held env out (reg_handle mh)" using assms(3) held_nonneg [of env out' "reg_handle mh"] by simp
  then show "0 < refs_of es (reg_handle mh)" using assms(1) by (simp add: counts_ok_def) (metis order.strict_trans2)
qed

section \<open>The cache on a registry\<close>

context buffer_registry
begin

lemma RegMrDmaBuf_inv:
  assumes "mr_inv env holds c out s" and "cache_mr env"
    and "RegMrDmaBuf regbuf env base len type fd c s f = Some (r, c', s', f')"
  shows "mr_inv env holds c' (case r of Inr mh \<Rightarrow> add_mset mh out | Inl e \<Rightarrow> out) s'"
  using assms(1)
proof (cases rule: mr_inv_cases)
  case (lost es)
  note l = RegMrDmaBuf_lost [OF lost(1) assms(2,3)]
  then have "holds s' (entry_handle ` set es)"
    using lost(5) reg_error by (auto split: sum.splits)
  moreover have "counts_ok env es (case r of Inr mh \<Rightarrow> add_mset mh out | Inl e \<Rightarrow> out)"
    using lost(4) l by (auto simp: counts_ok_def split: sum.splits)
  ultimately show ?thesis using lost l by (auto simp: mr_inv_def)
next
  case ok
  note len = length_entries [OF ok(1)]
  from assms(2) ok(1) assms(3) show ?thesis
  proof (cases rule: RegMrDmaBuf_cases)
    case (host mh)
    then show ?thesis using ok by (auto intro!: mr_invI simp: counts_ok_def)
  next
    case (hit slot)
    have i: "slot < length (entries c)" using hit(1) len by (simp add: stops_at_def)
    then have cuda: "mem_type (mr_handle (entries c ! slot)) AND ptr_cuda env \<noteq> 0"
      and refs: "0 < mr_refs (entries c ! slot) + 1"
      using ok(2) nth_mem by (fastforce simp: entries_ok_def)+
    show ?thesis
      unfolding hit(2) sum.case hit(3)
    proof (rule mr_invI [OF hit(4)], unfold hit(5))
      show "counts_ok env ((entries c)[slot := (entries c ! slot)\<lparr>mr_refs := mr_refs (entries c ! slot) + 1\<rparr>])
        (add_mset (mr_handle (entries c ! slot)) out)"
        by (rule counts_ok_add [OF ok(3)]) (simp add: refs_of_update [OF i] cuda)
    qed (use ok entries_ok_update [OF ok(2) i refs] handles_update [OF i] in simp_all)
  next
    case (no_memory e)
    then show ?thesis using ok len unfolding mr_inv_def by (auto intro!: exI [of _ "entries c"])
  next
    case (failed e)
    then show ?thesis using ok reg_error by (auto intro!: mr_invI)
  next
    case (added slot mh fd n)
    let ?e = "\<lparr>mr_handle = mh, mr_pages = ucast (page_count (page_size env) base len), mr_refs = 1\<rparr>"
    note fresh = reg_fresh [OF ok(4) added(5)]
    show ?thesis
      unfolding added(2) sum.case
    proof (rule mr_invI [OF added(6)], unfold added(7))
      show "entries_ok env (take slot (entries c) @ ?e # drop slot (entries c))"
        by (rule entries_ok_insert [OF ok(2)])
          (use added(1,3,4) fresh len in \<open>auto simp: stops_at_def entries_nth\<close>)
      show "counts_ok env (take slot (entries c) @ ?e # drop slot (entries c)) (add_mset mh out)"
        by (rule counts_ok_add [OF ok(3)]) (use refs_of_take_drop [of slot "entries c"] added(3) in simp)
      show "holds s' (entry_handle ` set (take slot (entries c) @ ?e # drop slot (entries c)))"
        unfolding handles_insert using fresh by simp
    qed
  qed
qed

lemma DeregMr_inv:
  assumes "mr_inv env holds c (add_mset mh out) s" and "cache_mr env"
    and "DeregMr deregbuf env mh c s f = Some (e, c', s', f')"
  shows "mr_inv env holds c' out s'"
  using assms(1)
proof (cases rule: mr_inv_cases)
  case (lost es)
  note l = DeregMr_lost [OF lost(1) assms(2,3)]
  have "mem_type mh AND ptr_cuda env = 0 \<or> reg_handle mh = kInvalidRegistration"
    using l counts_ok_entry [OF lost(4), of mh] lost(2) by (cases "mem_type mh AND ptr_cuda env = 0") auto
  then show ?thesis using lost l counts_ok_ignored [OF lost(4)] by (auto simp: mr_inv_def)
next
  case ok
  from assms(2) ok(1) assms(3) show ?thesis
  proof (cases rule: DeregMr_cases)
    case ignored
    then show ?thesis using ok counts_ok_ignored [OF ok(3)] by (auto intro!: mr_invI)
  next
    case unknown
    then show ?thesis using counts_ok_entry [OF ok(3), of mh] by auto
  next
    case (dropped i)
    have refs: "0 < mr_refs (entries c ! i) - 1"
      using entries_ok_def [of env "entries c"] ok(2) dropped(6) nth_mem [OF dropped(1)] by auto
    show ?thesis unfolding dropped(3)
    proof (rule mr_invI [OF dropped(7)], unfold dropped(8))
      show "counts_ok env ((entries c)[i := (entries c ! i)\<lparr>mr_refs := mr_refs (entries c ! i) - 1\<rparr>]) out"
        by (rule counts_ok_drop [OF ok(3)]) (use dropped(2,5) in \<open>simp add: refs_of_update [OF dropped(1)]\<close>)
    qed (use ok entries_ok_update [OF ok(2) dropped(1) refs] handles_update [OF dropped(1)] in simp_all)
  next
    case (last i)
    note removed = entries_ok_remove [OF ok(2) last(1)]
    show ?thesis
    proof (rule mr_invI [OF last(7)], unfold last(8))
      show "counts_ok env (take i (entries c) @ drop (Suc i) (entries c)) out"
        by (rule counts_ok_drop [OF ok(3)]) (use last(2,4,5) in \<open>simp add: refs_of_nth [OF last(1)]\<close>)
      show "holds s' (entry_handle ` set (take i (entries c) @ drop (Suc i) (entries c)))"
        using dereg [OF ok(4) last(6)] unfolding removed(2) last(2) .
    qed (rule removed(1))
  qed
qed

lemma reachable_inv:
  assumes "mr_reachable regbuf deregbuf env s0 f0 c out s f" and "cache_mr env" and "holds s0 {}"
  shows "mr_inv env holds c out s"
  using assms(1)
proof (induction rule: mr_reachable.induct)
  case start
  show ?case using assms(3)
    by (intro mr_invI) (auto simp: entries_ok_def counts_ok_def)
next
  case reg
  then show ?case using RegMrDmaBuf_inv [OF _ assms(2)] by fastforce
next
  case reg_failed
  then show ?case using RegMrDmaBuf_inv [OF _ assms(2)] by fastforce
next
  case dereg
  then show ?case using DeregMr_inv [OF _ assms(2)] by blast
qed

end

section \<open>Pages\<close>

lemma ceil_div_bounds:
  assumes "0 < (d :: nat)"
  shows "m \<le> d * ((m + (d - 1)) div d)" and "d * ((m + (d - 1)) div d) \<le> m + (d - 1)"
proof -
  have "d * ((m + (d - 1)) div d) + (m + (d - 1)) mod d = m + (d - 1)" by (simp add: mult_div_mod_eq)
  moreover have "(m + (d - 1)) mod d < d" using assms by simp
  ultimately show "m \<le> d * ((m + (d - 1)) div d)" by linarith
qed (rule times_div_less_eq_dividend)

lemma unat_page_size: "k < 64 \<Longrightarrow> unat (2 ^ k :: u64) = 2 ^ k"
proof -
  assume "k < 64"
  then have "(2 :: nat) ^ k < 2 ^ 64" by (rule power_strict_increasing) simp
  moreover have "(2 :: u64) ^ k = of_nat (2 ^ k)" by simp
  ultimately show ?thesis by (simp only: unat_of_nat) simp
qed

lemma unat_page_addr:
  assumes "k < 64"
  shows "unat (page_addr (2 ^ k) b) = 2 ^ k * (unat b div 2 ^ k)"
proof -
  have "page_addr (2 ^ k) b = push_bit k (drop_bit k b)"
    using assms unfolding page_addr_def minus_exp_eq_not_mask
    by (intro bit_eqI) (auto simp: bit_simps)
  then have "unat (page_addr (2 ^ k) b) = take_bit 64 (push_bit k (drop_bit k (unat b)))"
    using unat_u64_less [of b]
    by (simp add: unsigned_push_bit_eq unsigned_drop_bit_eq take_bit_nat_eq_self del: unat_u64_less)
  also have "\<dots> = (2 ^ k * (unat b div 2 ^ k)) mod 2 ^ 64"
    by (simp add: take_bit_eq_mod push_bit_eq_mult drop_bit_eq_div mult.commute)
  also have "2 ^ k * (unat b div 2 ^ k) < 2 ^ 64"
    by (rule le_less_trans [OF times_div_less_eq_dividend]) simp
  ultimately show ?thesis by simp
qed

lemma unat_page_count:
  assumes "k < 64" and "unat b + unat n + 2 ^ k \<le> 2 ^ 64"
  shows "unat (page_count (2 ^ k) b n) = (unat b + unat n - unat (page_addr (2 ^ k) b) + (2 ^ k - 1)) div 2 ^ k"
proof -
  let ?a = "page_addr (2 ^ k) b"
  have a: "unat ?a \<le> unat b" by (simp add: unat_page_addr [OF assms(1)] times_div_less_eq_dividend)
  have "of_nat (unat b + unat n - unat ?a) = b + n - ?a"
    by (subst of_nat_diff) (use a in simp_all)
  moreover have "of_nat (2 ^ k - 1) = (2 ^ k - 1 :: u64)" by (simp add: of_nat_diff)
  ultimately have "b + n - ?a + 2 ^ k - 1 = of_nat (unat b + unat n - unat ?a + (2 ^ k - 1))"
    by (simp only: of_nat_add add_diff_eq)
  moreover have "unat b + unat n - unat ?a + (2 ^ k - 1) < 2 ^ 64"
    using assms(2) by (simp add: less_diff_conv)
  ultimately have "unat (b + n - ?a + 2 ^ k - 1) = unat b + unat n - unat ?a + (2 ^ k - 1)"
    by (simp only: unat_of_nat) simp
  then show ?thesis by (simp add: page_count_def unat_div unat_page_size [OF assms(1)])
qed


lemma page_addr_le: "k < 64 \<Longrightarrow> unat (page_addr (2 ^ k) b) \<le> unat b"
  by (simp add: unat_page_addr times_div_less_eq_dividend)

lemma page_count_bounds:
  assumes "k < 64" and "unat b + unat n + 2 ^ k \<le> 2 ^ 64"
  shows "unat b + unat n \<le> unat (page_addr (2 ^ k) b) + 2 ^ k * unat (page_count (2 ^ k) b n)"
    and "2 ^ k * unat (page_count (2 ^ k) b n) \<le> unat b + unat n - unat (page_addr (2 ^ k) b) + (2 ^ k - 1)"
  using page_addr_le [OF assms(1), of b] ceil_div_bounds [of "2 ^ k" "unat b + unat n - unat (page_addr (2 ^ k) b)"]
  by (simp_all add: unat_page_count [OF assms])

lemma sint_of_nat_small: "m < 2 ^ 31 \<Longrightarrow> sint (of_nat m :: u32) = int m"
  by (simp add: signed_of_nat signed_take_bit_int_eq_self)

lemma scast_ucast_small:
  assumes "unat (p :: u64) < 2 ^ 31"
  shows "(scast (ucast p :: u32) :: u64) = p"
proof -
  have "sint (ucast p :: u32) = int (unat p)"
    using sint_of_nat_small [OF assms] by simp
  then show ?thesis unfolding scast_eq by simp
qed

text \<open>A region found in an entry lies in the pages of that entry.\<close>

lemma stops_at_covers:
  assumes "stops_at c (2 ^ k) (page_addr (2 ^ k) b) (page_count (2 ^ k) b n) slot True"
    and "k < 64" and "unat b + unat n + 2 ^ k \<le> 2 ^ 64"
    and "entry_addr (slots c ! slot) = page_addr (2 ^ k) base"
  shows "unat (entry_addr (slots c ! slot)) \<le> unat b"
    and "unat b + unat n \<le> unat (entry_addr (slots c ! slot)) + 2 ^ k * unat (scast (mr_pages (slots c ! slot)) :: u64)"
proof -
  let ?st = "entry_addr (slots c ! slot)" and ?a = "page_addr (2 ^ k) b" and ?p = "page_count (2 ^ k) b n"
  note ps = unat_page_size [OF assms(2)]
  have st: "unat ?st = 2 ^ k * (unat base div 2 ^ k)" and a: "unat ?a = 2 ^ k * (unat b div 2 ^ k)"
    by (simp_all add: assms(4) unat_page_addr [OF assms(2)])
  have le: "?st \<le> ?a" and fit: "(?a - ?st) div 2 ^ k + ?p \<le> scast (mr_pages (slots c ! slot))"
    using assms(1) by (simp_all add: stops_at_def)
  note ab = page_addr_le [OF assms(2), of b]
  show "unat ?st \<le> unat b" using le ab by (simp add: word_le_nat_alt)
  have d: "unat ((?a - ?st) div 2 ^ k) = unat b div 2 ^ k - unat base div 2 ^ k"
    using le by (simp add: unat_div ps unat_sub a st word_le_nat_alt flip: diff_mult_distrib2)
  note bounds = page_count_bounds [OF assms(2,3)]
  let ?d = "unat b div 2 ^ k - unat base div 2 ^ k"
  have shift: "unat ?a = unat ?st + 2 ^ k * ?d"
    using le by (simp add: word_le_nat_alt a st diff_mult_distrib2)
  have "2 ^ k * (?d + unat ?p) < 2 ^ 64"
    using bounds(2) shift ab assms(3) one_le_power [of "2 :: nat" k, OF one_le_numeral] unfolding distrib_left by linarith
  with mult_le_mono1 [OF one_le_power [of "2 :: nat" k, OF one_le_numeral], of "?d + unat ?p"]
  have "?d + unat ?p < 2 ^ 64" unfolding mult_1 by (rule le_less_trans)
  then have "unat ((?a - ?st) div 2 ^ k + ?p) = ?d + unat ?p"
    by (simp add: unat_add_lem [THEN iffD1] d)
  then have "?d + unat ?p \<le> unat (scast (mr_pages (slots c ! slot)) :: u64)"
    using fit by (simp add: word_le_nat_alt)
  then have "2 ^ k * (?d + unat ?p) \<le> 2 ^ k * unat (scast (mr_pages (slots c ! slot)) :: u64)"
    by (rule mult_le_mono2)
  then show "unat b + unat n \<le> unat ?st + 2 ^ k * unat (scast (mr_pages (slots c ! slot)) :: u64)"
    using bounds(1) shift unfolding distrib_left by linarith
qed

section \<open>Properties\<close>

text \<open>
  A session with the daemon in which NCCL has registered 100 bytes of GPU memory.
\<close>

definition demo_session :: "unit session" where
  "demo_session = \<lparr>sess_open = True, sess_client = 5, sess_nic = 0,
     sess_importer = new_importer [(0, 6, 0, 0)], sess_world = ()\<rparr>"

definition demo_mr_env :: "unit mr_env" where
  "demo_mr_env = \<lparr>page_size = 4096, ptr_cuda = 2, cache_mr = True, get_dmabuf_fd = (\<lambda>_ _ f. (Inr 9, f)),
     close_dmabuf = (\<lambda>_ f. f), alloc_ok = (\<lambda>_ _. True),
     junk = (\<lambda>_. \<lparr>mr_handle = \<lparr>reg_handle = 0, mem_type = 0, start_addr = 0, mh_size = 0, mh_dmabuf_fd = 0\<rparr>,
       mr_pages = 0, mr_refs = 0\<rparr>)\<rparr>"

definition demo_mhandle :: MemoryHandle where
  "demo_mhandle = \<lparr>reg_handle = 77, mem_type = 2, start_addr = 8192, mh_size = 4096, mh_dmabuf_fd = 9\<rparr>"

definition demo_mr :: ncclMr where
  "demo_mr = \<lparr>mr_handle = demo_mhandle, mr_pages = 1, mr_refs = 1\<rparr>"

definition demo_cache :: ncclMrCache where
  "demo_cache = \<lparr>slots = demo_mr # replicate 31 (junk demo_mr_env 0), capacity = 32, population = 1\<rparr>"

lemma demo_RegBuf:
  "RegBuf demo_env True kInternal (\<lambda>fd. fd) 9 n demo_session =
     Some (Inr 77, demo_session\<lparr>sess_importer := demo_importer\<rparr>)"
proof -
  have "\<lparr>req_text = Some \<lparr>fts_magic_value = Some kFtsClientMagic, op_type = REG_BUFFER, req_reg_handle = None\<rparr>,
      req_fd = (if (9 :: int) > 0 then Some 9 else None)\<rparr> = demo_request"
    by (simp add: demo_request_def)
  then show ?thesis
    by (simp add: RegBuf_def MakeRequest_def demo_session_def demo_serve ParseBufferOpResp_def)
qed

lemma demo_page: "page_addr 4096 8292 = 8192" "page_count 4096 8292 100 = 1"
  by (simp_all add: page_addr_def page_count_def)

lemma demo_register:
  "RegMrDmaBuf (RegBuf demo_env True kInternal (\<lambda>fd. fd)) demo_mr_env 8292 100 2 None new_ncclMrCache demo_session () =
     Some (Inr demo_mhandle, demo_cache, demo_session\<lparr>sess_importer := demo_importer\<rparr>, ())"
proof -
  have "search_slot new_ncclMrCache 4096 8192 1 0 = Some (0, False)"
    by (subst search_slot.simps) (simp add: new_ncclMrCache_def)
  then show ?thesis
    by (simp add: RegMrDmaBuf_def demo_mr_env_def Let_def demo_page RegMrDmaBufInternal_def demo_RegBuf
        grow_slots_def new_ncclMrCache_def insert_slot_def demo_mhandle_def demo_cache_def demo_mr_def
        map_replicate_const)
qed

lemma demo_reachable:
  "mr_reachable (RegBuf demo_env True kInternal (\<lambda>fd. fd)) (DeregBuf demo_env True kInternal) demo_mr_env demo_session ()
     demo_cache {#demo_mhandle#} (demo_session\<lparr>sess_importer := demo_importer\<rparr>) ()"
  by (rule mr_reachable.reg [OF mr_reachable.start demo_register])

lemma demo_session_holds: "session_holds demo_session {}"
  by (simp add: session_holds_def demo_session_def session_binding_def new_importer_def tracker_ok_def)

text \<open>
  C3: whatever regions NCCL registers and deregisters, and whatever fails in between, the daemon
  tracks the buffer of every GPU memory handle that NCCL holds, as long as the connection to it is
  open: no region is deregistered while one of its users has it.
\<close>

theorem held_memory_tracked:
  assumes "mr_reachable (RegBuf env has_callback io_error dup) (DeregBuf env has_callback io_error) mr s0 f0 c out s f"
    and "cache_mr mr" and "session_holds s0 {}" and "sess_open s"
    and "mh \<in># out" and "mem_type mh AND ptr_cuda mr \<noteq> 0"
  shows "tracked (resource_tracker (session_binding s)) (sess_client s, reg_handle mh) \<noteq> None"
proof -
  from rxdm.reachable_inv [OF assms(1-3)] obtain es where "counts_ok mr es out"
    and "session_holds s (entry_handle ` set es)" by (auto simp: mr_inv_def)
  with counts_ok_entry [OF _ assms(5,6), of es] assms(4) show ?thesis
    by (auto simp: session_holds_def in_set_conv_nth image_iff) (metis nth_mem)
qed

theorem held_memory_tracked_witness:
  "tracked (resource_tracker demo_binding) (5, 77) \<noteq> None"
  using held_memory_tracked [OF demo_reachable _ demo_session_holds, of demo_mhandle]
  by (simp add: demo_mr_env_def demo_session_def demo_mhandle_def session_binding_def demo_importer_def)

text \<open>
  C32: the reference count of every cached region is the number of handles to it that NCCL holds, so
  the region is deregistered by the last of them.
\<close>

theorem refs_count_holders:
  assumes "mr_reachable (RegBuf env has_callback io_error dup) (DeregBuf env has_callback io_error) mr s0 f0 c out s f"
    and "cache_mr mr" and "session_holds s0 {}" and "e \<in> set (entries c)"
    and "reg_handle (mr_handle e) \<noteq> kInvalidRegistration"
  shows "mr_refs e = held mr out (reg_handle (mr_handle e))"
proof -
  from rxdm.reachable_inv [OF assms(1-3)] show ?thesis
  proof (cases rule: mr_inv_cases)
    case lost
    then show ?thesis using assms(4) by (simp add: lost_def entries_def)
  next
    case ok
    then show ?thesis
      using refs_of_distinct [OF _ assms(4)] assms(5) by (simp add: entries_ok_def counts_ok_def)
  qed
qed

theorem refs_count_holders_witness: "mr_refs demo_mr = held demo_mr_env {#demo_mhandle#} 77"
  using refs_count_holders [OF demo_reachable _ demo_session_holds, of demo_mr]
  by (simp add: demo_mr_env_def entries_def demo_cache_def demo_mr_def demo_mhandle_def kInvalidRegistration_def)



end
