(* ===== verification/Nccl_Shim.thy ===== *)
theory Nccl_Shim
  imports Dxs_Client Mr_Cache
begin

unbundle bit_operations_syntax

text \<open>
  The plugin's connections and requests, \<^verbatim>\<open>tcpdirect_plugin/fastrak_offload/nccl_shim.cc\<close>: opening a
  connection of several DXS flows on both sides, scheduling sends and receives on the flows in turn
  and testing them. Profilers, statistics distributions and log output are left out.
\<close>

section \<open>What the shim uses\<close>

text \<open>
  Sockets and operations of the DXS client of an interface, as the pair of interface and handle.
  Readings are taken of the state of the outside \<open>'w\<close>, and time passes, with all that happens in it,
  when the clock is read. The flag of the last fields tells send from receive.
\<close>

type_synonym dxs_handle = "int \<times> u64"

record 'w dxs_ops =
  clock :: "'w \<Rightarrow> int \<times> 'w"
  dxs_connect :: "int \<Rightarrow> string \<Rightarrow> u16 \<Rightarrow> 'w \<Rightarrow> dxs_handle StatusOr \<times> 'w"
  dxs_listen :: "int \<Rightarrow> 'w \<Rightarrow> dxs_handle StatusOr \<times> 'w"
  listen_ready :: "dxs_handle \<Rightarrow> 'w \<Rightarrow> StatusCode option"
  listen_port :: "dxs_handle \<Rightarrow> 'w \<Rightarrow> int"
  listen_address :: "dxs_handle \<Rightarrow> string"
  dxs_accept :: "dxs_handle \<Rightarrow> 'w \<Rightarrow> dxs_handle option StatusOr \<times> 'w"
  sock_ready :: "dxs_handle \<Rightarrow> 'w \<Rightarrow> StatusCode option"
  dxs_send :: "dxs_handle \<Rightarrow> u64 \<Rightarrow> u64 \<Rightarrow> u64 \<Rightarrow> 'w \<Rightarrow> dxs_handle StatusOr \<times> 'w"
  dxs_recv :: "dxs_handle \<Rightarrow> u64 \<Rightarrow> u64 \<Rightarrow> u64 \<Rightarrow> 'w \<Rightarrow> dxs_handle StatusOr \<times> 'w"
  test_send :: "dxs_handle \<Rightarrow> 'w \<Rightarrow> StatusCode option"
  test_recv :: "dxs_handle \<Rightarrow> 'w \<Rightarrow> u64 StatusOr option"
  completion_time :: "bool \<Rightarrow> dxs_handle \<Rightarrow> 'w \<Rightarrow> int option"
  close_op :: "bool \<Rightarrow> dxs_handle \<Rightarrow> 'w \<Rightarrow> 'w"
  close_sock :: "bool \<Rightarrow> dxs_handle \<Rightarrow> 'w \<Rightarrow> 'w"
  close_listen :: "dxs_handle \<Rightarrow> 'w \<Rightarrow> 'w"

text \<open>
  The parameters of the plugin, the tables of interfaces and GPUs, and the system: \<^verbatim>\<open>GetDxsClient\<close> and
  \<^verbatim>\<open>GetBufferManagerClient\<close> of an interface, the TCP listening socket, and the address of a new
  \<^verbatim>\<open>Communication\<close>. \<open>stack_ports\<close> is what the array of ports of a handle holds where it is not written.
\<close>

record 'w shim_env =
  kNcclNetIfs :: int
  kFastrakNumFlows :: nat
  kNicRailAligned :: bool
  slowness_ns :: int
  ptr_host :: u32
  ptr_gpu :: u32
  GetPciFromFastrakIdx :: "u8 \<Rightarrow> string StatusOr"
  getClosestNetdev :: "string \<Rightarrow> int StatusOr"
  GetDxsClient :: "int \<Rightarrow> 'w \<Rightarrow> StatusCode \<times> 'w"
  GetBufferManagerClient :: "int \<Rightarrow> 'w \<Rightarrow> StatusCode \<times> 'w"
  createListenSocket :: "'w \<Rightarrow> int StatusOr \<times> 'w"
  close_socket :: "int \<Rightarrow> 'w \<Rightarrow> StatusCode \<times> 'w"
  comm_address :: "'w \<Rightarrow> u64"
  stack_ports :: "u16 list"

section \<open>Timers\<close>

text \<open>Times in nanoseconds.\<close>

definition CheckTimeout :: "'w dxs_ops \<Rightarrow> int \<Rightarrow> int \<Rightarrow> 'w \<Rightarrow> StatusCode \<times> 'w" where
  "CheckTimeout ops init_time timeout w =
     (if timeout = 0 then (kOk, w)
      else let (now, w) = clock ops w
           in (if now - init_time > timeout then kDeadlineExceeded else kOk, w))"

section \<open>Connections\<close>

datatype ncclSocketCommState = kStart | kConnecting | kAccepting | kDone

record request_stats =
  offload_scheduled :: u64
  offload_completed :: u64
  offload_backlog_peak :: u64

definition GetOffloadBacklog :: "request_stats \<Rightarrow> u64" where
  "GetOffloadBacklog st = offload_scheduled st - offload_completed st"

record Communication =
  comm_idx :: u32
  comm_send :: bool
  comm_stats :: request_stats
  dxs_socks :: "dxs_handle option list"
  connection_timeout :: int
  last_xfer :: int
  ready_for_ts_capture :: bool
  curr_flow_group_base :: nat
  selected_dev :: int
  trace_id :: u32
  comm_dxs_addr :: string
  comm_dxs_ports :: "u16 list"

definition kFastrakMaxNumFlows :: nat where "kFastrakMaxNumFlows = 8"
definition kNcclSocketHandleVersion :: u8 where "kNcclSocketHandleVersion = 1"
definition kFastrakInvalidIdx :: u8 where "kFastrakInvalidIdx = 255"

definition new_Communication :: "'w dxs_ops \<Rightarrow> u32 \<Rightarrow> bool \<Rightarrow> 'w \<Rightarrow> Communication \<times> 'w" where
  "new_Communication ops idx send w =
     (let (t1, w) = clock ops w; (t2, w) = clock ops w
      in (\<lparr>comm_idx = idx, comm_send = send,
           comm_stats = \<lparr>offload_scheduled = 0, offload_completed = 0, offload_backlog_peak = 0\<rparr>,
           dxs_socks = replicate kFastrakMaxNumFlows None, connection_timeout = t1, last_xfer = t2,
           ready_for_ts_capture = True, curr_flow_group_base = 0, selected_dev = - 1, trace_id = 0,
           comm_dxs_addr = [], comm_dxs_ports = []\<rparr>, w))"

record ncclSocketCommStage =
  stage_state :: ncclSocketCommState
  stage_comm :: "Communication option"

record ListenCommunication =
  nccl_listen :: int
  lc_dxs_listen :: "dxs_handle list"
  lc_stage :: ncclSocketCommStage

record ncclSocketHandle =
  sh_version :: u8
  sh_fastrak_idx :: u8
  sh_dxs_addr :: string
  sh_dxs_ports :: "u16 list"
  sh_stage :: ncclSocketCommStage

record NcclShim =
  netdev :: int
  fastrak_idx :: u8
  connect_timeout :: int
  accept_timeout :: int
  data_transfer_timeout :: int
  comm_counter :: u32

definition kListenTimeout :: int where "kListenTimeout = 10000 * 1000000"

subsection \<open>Listen\<close>

text \<open>The listening sockets of all flows; what was opened before an error is closed again.\<close>

fun listen_flows :: "'w dxs_ops \<Rightarrow> int \<Rightarrow> nat \<Rightarrow> dxs_handle list \<Rightarrow> 'w \<Rightarrow> dxs_handle list StatusOr \<times> 'w" where
  "listen_flows ops dev 0 ls w = (Inr ls, w)"
| "listen_flows ops dev (Suc n) ls w =
     (case dxs_listen ops dev w of
        (Inl e, w) \<Rightarrow> (Inl e, fold (close_listen ops) ls w)
      | (Inr l, w) \<Rightarrow> listen_flows ops dev n (ls @ [l]) w)"

text \<open>The inner loop that waits for the port of one flow; \<open>None\<close> is a loop that does not end.\<close>

partial_function (option) wait_port :: "'w dxs_ops \<Rightarrow> int \<Rightarrow> dxs_handle \<Rightarrow> 'w \<Rightarrow> (int StatusOr \<times> 'w) option" where
  "wait_port ops timer l w =
     (case CheckTimeout ops timer kListenTimeout w of
        (e, w) \<Rightarrow>
          if e \<noteq> kOk then Some (Inl e, w)
          else case listen_ready ops l w of
                 None \<Rightarrow> wait_port ops timer l w
               | Some status \<Rightarrow>
                   if status \<noteq> kOk then Some (Inl status, w)
                   else if listen_port ops l w = 0 then wait_port ops timer l w
                   else Some (Inr (listen_port ops l w), w))"

fun wait_ports :: "'w dxs_ops \<Rightarrow> dxs_handle list \<Rightarrow> u16 list \<Rightarrow> 'w \<Rightarrow> (u16 list StatusOr \<times> 'w) option" where
  "wait_ports ops [] ports w = Some (Inr ports, w)"
| "wait_ports ops (l # ls) ports w =
     (case clock ops w of
        (timer, w) \<Rightarrow>
          (case wait_port ops timer l w of
             None \<Rightarrow> None
           | Some (Inl e, w) \<Rightarrow> Some (Inl e, w)
           | Some (Inr port, w) \<Rightarrow> wait_ports ops ls (ports @ [word_of_int port]) w))"

definition NcclShim_Listen ::
    "'w shim_env \<Rightarrow> 'w dxs_ops \<Rightarrow> NcclShim \<Rightarrow> int \<Rightarrow> 'w
      \<Rightarrow> ((ListenCommunication \<times> ncclSocketHandle) StatusOr \<times> 'w) option" where
  "NcclShim_Listen env ops shim dev w =
     (if dev < 0 \<or> dev \<ge> kNcclNetIfs env then Some (Inl kInvalidArgument, w)
      else case createListenSocket env w of
        (Inl e, w) \<Rightarrow> Some (Inl e, w)
      | (Inr fd, w) \<Rightarrow>
          (case GetDxsClient env (netdev shim) w of
             (e, w) \<Rightarrow>
               if e \<noteq> kOk then Some (Inl e, w)
               else case listen_flows ops (netdev shim) (kFastrakNumFlows env) [] w of
                 (Inl e, w) \<Rightarrow> Some (Inl e, w)
               | (Inr ls, w) \<Rightarrow>
                   (case wait_ports ops ls [] w of
                      None \<Rightarrow> None
                    | Some (Inl e, w) \<Rightarrow> Some (Inl e, fold (close_listen ops) ls w)
                    | Some (Inr ports, w) \<Rightarrow>
                        Some (Inr (\<lparr>nccl_listen = fd, lc_dxs_listen = ls,
                                    lc_stage = \<lparr>stage_state = kStart, stage_comm = None\<rparr>\<rparr>,
                                   \<lparr>sh_version = kNcclSocketHandleVersion, sh_fastrak_idx = fastrak_idx shim,
                                    sh_dxs_addr = take (kIpAddrMaxLen - 1) (listen_address ops (ls ! 0)),
                                    sh_dxs_ports = ports @ drop (length ports) (stack_ports env),
                                    sh_stage = \<lparr>stage_state = kStart, stage_comm = None\<rparr>\<rparr>), w))))"

subsection \<open>Connect\<close>

definition GenerateCommTraceId :: "u64 \<Rightarrow> u32 \<Rightarrow> u32" where
  "GenerateCommTraceId comm idx =
     (0xffff AND idx) OR ucast (push_bit 16 (0xffff AND comm))"

text \<open>Flow \<open>i\<close> and those after it; the ports are those of the handle.\<close>

fun connect_flows ::
    "'w dxs_ops \<Rightarrow> int \<Rightarrow> string \<Rightarrow> u16 list \<Rightarrow> nat \<Rightarrow> dxs_handle option list \<Rightarrow> 'w
      \<Rightarrow> StatusCode \<times> dxs_handle option list \<times> 'w" where
  "connect_flows ops dev addr [] i socks w = (kOk, socks, w)"
| "connect_flows ops dev addr (port # ports) i socks w =
     (case dxs_connect ops dev addr port w of
        (Inl e, w) \<Rightarrow> (e, socks, w)
      | (Inr s, w) \<Rightarrow> connect_flows ops dev addr ports (Suc i) (socks[i := Some s]) w)"

definition BeginDxsConnect ::
    "'w shim_env \<Rightarrow> 'w dxs_ops \<Rightarrow> int \<Rightarrow> ncclSocketHandle \<Rightarrow> Communication \<Rightarrow> 'w
      \<Rightarrow> StatusCode \<times> Communication \<times> 'w" where
  "BeginDxsConnect env ops dev handle comm w =
     (case connect_flows ops dev (sh_dxs_addr handle) (take (kFastrakNumFlows env) (sh_dxs_ports handle)) 0
        (dxs_socks comm) w of
        (e, socks, w) \<Rightarrow>
          if e \<noteq> kOk then (e, comm\<lparr>dxs_socks := socks\<rparr>, w)
          else (kOk, comm\<lparr>dxs_socks := socks, comm_dxs_addr := take kIpAddrMaxLen (sh_dxs_addr handle),
                          comm_dxs_ports := take (kFastrakNumFlows env) (sh_dxs_ports handle)\<rparr>, w))"

text \<open>The interface of the connection: that of the rail of the peer's GPU, if so configured.\<close>

definition connect_dev :: "'w shim_env \<Rightarrow> int \<Rightarrow> u8 \<Rightarrow> int StatusOr" where
  "connect_dev env dev idx =
     (case GetPciFromFastrakIdx env idx of
        Inl e \<Rightarrow> Inl e
      | Inr pci \<Rightarrow> if kNicRailAligned env then getClosestNetdev env pci else Inr dev)"

text \<open>The state \<^verbatim>\<open>kStart\<close>: a new connection, which stays in the handle also when a step fails.\<close>

definition Connect_start ::
    "'w shim_env \<Rightarrow> 'w dxs_ops \<Rightarrow> NcclShim \<Rightarrow> int \<Rightarrow> ncclSocketHandle \<Rightarrow> 'w
      \<Rightarrow> StatusCode \<times> NcclShim \<times> ncclSocketHandle \<times> 'w" where
  "Connect_start env ops shim dev handle w =
     (case connect_dev env dev (sh_fastrak_idx handle) of
        Inl e \<Rightarrow> (e, shim, handle, w)
      | Inr dev \<Rightarrow>
          let shim = shim\<lparr>comm_counter := comm_counter shim + 1\<rparr>;
              addr = comm_address env w;
              (comm, w) = new_Communication ops (comm_counter shim) True w;
              put = (\<lambda>comm. handle\<lparr>sh_stage := (sh_stage handle)\<lparr>stage_comm := Some comm\<rparr>\<rparr>);
              (e, w) = GetDxsClient env dev w
          in if e \<noteq> kOk then (e, shim, put comm, w)
             else
               let comm = comm\<lparr>selected_dev := dev\<rparr>; (e, w) = GetBufferManagerClient env dev w
               in if e \<noteq> kOk then (e, shim, put comm, w)
                  else
                    let (e, comm, w) = BeginDxsConnect env ops dev handle
                                         (comm\<lparr>trace_id := GenerateCommTraceId addr (comm_idx comm)\<rparr>) w
                    in if e \<noteq> kOk then (e, shim, put comm, w)
                       else (kOk, shim, handle\<lparr>sh_stage := \<lparr>stage_state = kConnecting, stage_comm = Some comm\<rparr>\<rparr>, w))"

text \<open>
  The loop over the flows in state \<^verbatim>\<open>kConnecting\<close>: \<open>Inr True\<close> when all are ready, \<open>Inr False\<close> when one
  is not ready yet.
\<close>

fun flows_ready ::
    "'w dxs_ops \<Rightarrow> int \<Rightarrow> int \<Rightarrow> dxs_handle option list \<Rightarrow> 'w \<Rightarrow> bool StatusOr \<times> 'w" where
  "flows_ready ops timer timeout [] w = (Inr True, w)"
| "flows_ready ops timer timeout (s # socks) w =
     (case sock_ready ops (the s) w of
        None \<Rightarrow> (case CheckTimeout ops timer timeout w of
                   (e, w) \<Rightarrow> (if e \<noteq> kOk then Inl e else Inr False, w))
      | Some e \<Rightarrow> if e \<noteq> kOk then (Inl e, w) else flows_ready ops timer timeout socks w)"

definition Connect_connecting ::
    "'w shim_env \<Rightarrow> 'w dxs_ops \<Rightarrow> NcclShim \<Rightarrow> ncclSocketHandle \<Rightarrow> 'w
      \<Rightarrow> Communication option StatusOr \<times> ncclSocketHandle \<times> 'w" where
  "Connect_connecting env ops shim handle w =
     (let comm = the (stage_comm (sh_stage handle))
      in case flows_ready ops (connection_timeout comm) (connect_timeout shim)
                (take (kFastrakNumFlows env) (dxs_socks comm)) w of
           (Inl e, w) \<Rightarrow> (Inl e, handle, w)
         | (Inr False, w) \<Rightarrow> (Inr None, handle, w)
         | (Inr True, w) \<Rightarrow>
             (Inr (Some comm), handle\<lparr>sh_stage := \<lparr>stage_state = kDone, stage_comm = None\<rparr>\<rparr>, w))"

definition NcclShim_Connect ::
    "'w shim_env \<Rightarrow> 'w dxs_ops \<Rightarrow> NcclShim \<Rightarrow> int \<Rightarrow> ncclSocketHandle \<Rightarrow> 'w
      \<Rightarrow> Communication option StatusOr \<times> NcclShim \<times> ncclSocketHandle \<times> 'w" where
  "NcclShim_Connect env ops shim dev handle w =
     (if dev < 0 \<or> dev \<ge> kNcclNetIfs env then (Inl kInvalidArgument, shim, handle, w)
      else case stage_state (sh_stage handle) of
        kStart \<Rightarrow>
          (case Connect_start env ops shim dev handle w of
             (e, shim, handle, w) \<Rightarrow>
               if e \<noteq> kOk then (Inl e, shim, handle, w)
               else case Connect_connecting env ops shim handle w of (r, handle, w) \<Rightarrow> (r, shim, handle, w))
      | kConnecting \<Rightarrow>
          (case Connect_connecting env ops shim handle w of (r, handle, w) \<Rightarrow> (r, shim, handle, w))
      | _ \<Rightarrow> (Inl kInternal, shim, handle, w))"

subsection \<open>Accept\<close>

definition Accept_start ::
    "'w shim_env \<Rightarrow> 'w dxs_ops \<Rightarrow> NcclShim \<Rightarrow> ListenCommunication \<Rightarrow> 'w
      \<Rightarrow> StatusCode \<times> NcclShim \<times> ListenCommunication \<times> 'w" where
  "Accept_start env ops shim lc w =
     (let shim = shim\<lparr>comm_counter := comm_counter shim + 1\<rparr>;
          (comm, w) = new_Communication ops (comm_counter shim) False w;
          comm = comm\<lparr>selected_dev := netdev shim\<rparr>;
          (e, w) = GetBufferManagerClient env (netdev shim) w
      in if e \<noteq> kOk then (e, shim, lc\<lparr>lc_stage := (lc_stage lc)\<lparr>stage_comm := Some comm\<rparr>\<rparr>, w)
         else (kOk, shim, lc\<lparr>lc_stage := \<lparr>stage_state = kAccepting, stage_comm = Some comm\<rparr>\<rparr>, w))"

text \<open>
  The loop over the flows in state \<^verbatim>\<open>kAccepting\<close>, from flow \<open>i\<close> with the listening sockets of the
  remaining flows; the sockets accepted so far are kept on every path.
\<close>

fun accept_flows ::
    "'w dxs_ops \<Rightarrow> int \<Rightarrow> int \<Rightarrow> dxs_handle list \<Rightarrow> nat \<Rightarrow> dxs_handle option list \<Rightarrow> 'w
      \<Rightarrow> bool StatusOr \<times> dxs_handle option list \<times> 'w" where
  "accept_flows ops timer timeout [] i socks w = (Inr True, socks, w)"
| "accept_flows ops timer timeout (l # ls) i socks w =
     (case (if socks ! i = None then dxs_accept ops l w else (Inr (socks ! i), w)) of
        (Inl e, w) \<Rightarrow> (Inl e, socks, w)
      | (Inr sock, w) \<Rightarrow>
          let socks = socks[i := sock]
          in case (case sock of None \<Rightarrow> None | Some s \<Rightarrow> sock_ready ops s w) of
               None \<Rightarrow> (case CheckTimeout ops timer timeout w of
                          (e, w) \<Rightarrow> (if e \<noteq> kOk then Inl e else Inr False, socks, w))
             | Some e \<Rightarrow> if e \<noteq> kOk then (Inl e, socks, w) else accept_flows ops timer timeout ls (Suc i) socks w)"

definition Accept_accepting ::
    "'w shim_env \<Rightarrow> 'w dxs_ops \<Rightarrow> NcclShim \<Rightarrow> ListenCommunication \<Rightarrow> 'w
      \<Rightarrow> Communication option StatusOr \<times> ListenCommunication \<times> 'w" where
  "Accept_accepting env ops shim lc w =
     (let ls = take (kFastrakNumFlows env) (lc_dxs_listen lc);
          comm = the (stage_comm (lc_stage lc));
          comm = comm\<lparr>comm_dxs_addr := take (kIpAddrMaxLen - 1) (listen_address ops (ls ! 0)),
                      comm_dxs_ports := map (\<lambda>l. word_of_int (listen_port ops l w)) ls\<rparr>
      in case accept_flows ops (connection_timeout comm) (accept_timeout shim) ls 0 (dxs_socks comm) w of
           (r, socks, w) \<Rightarrow>
             let comm = comm\<lparr>dxs_socks := socks\<rparr>;
                 kept = lc\<lparr>lc_stage := (lc_stage lc)\<lparr>stage_comm := Some comm\<rparr>\<rparr>
             in case r of
                  Inl e \<Rightarrow> (Inl e, kept, w)
                | Inr False \<Rightarrow> (Inr None, kept, w)
                | Inr True \<Rightarrow> (Inr (Some comm), lc\<lparr>lc_stage := \<lparr>stage_state = kDone, stage_comm = None\<rparr>\<rparr>, w))"

definition NcclShim_Accept ::
    "'w shim_env \<Rightarrow> 'w dxs_ops \<Rightarrow> NcclShim \<Rightarrow> ListenCommunication \<Rightarrow> 'w
      \<Rightarrow> Communication option StatusOr \<times> NcclShim \<times> ListenCommunication \<times> 'w" where
  "NcclShim_Accept env ops shim lc w =
     (case stage_state (lc_stage lc) of
        kStart \<Rightarrow>
          (case Accept_start env ops shim lc w of
             (e, shim, lc, w) \<Rightarrow>
               if e \<noteq> kOk then (Inl e, shim, lc, w)
               else case Accept_accepting env ops shim lc w of (r, lc, w) \<Rightarrow> (r, shim, lc, w))
      | kAccepting \<Rightarrow> (case Accept_accepting env ops shim lc w of (r, lc, w) \<Rightarrow> (r, shim, lc, w))
      | _ \<Rightarrow> (Inl kInternal, shim, lc, w))"

subsection \<open>Closing\<close>

definition NcclShim_Close :: "'w shim_env \<Rightarrow> 'w dxs_ops \<Rightarrow> Communication \<Rightarrow> 'w \<Rightarrow> 'w" where
  "NcclShim_Close env ops comm w =
     fold (\<lambda>s w. case s of None \<Rightarrow> w | Some s \<Rightarrow> close_sock ops (comm_send comm) s w) (rev (dxs_socks comm)) w"

definition NcclShim_CloseListen ::
    "'w shim_env \<Rightarrow> 'w dxs_ops \<Rightarrow> ListenCommunication \<Rightarrow> 'w \<Rightarrow> StatusCode \<times> 'w" where
  "NcclShim_CloseListen env ops lc w =
     (let (e, w) = (if nccl_listen lc \<noteq> - 1 then close_socket env (nccl_listen lc) w else (kOk, w))
      in (e, fold (close_listen ops) (rev (lc_dxs_listen lc)) w))"

section \<open>Requests\<close>

record ncclSocketRequest =
  req_error :: bool
  req_size :: u64
  req_offset :: u64
  req_op :: dxs_handle
  received_size :: u64
  start_time :: int
  req_timer :: int
  slowness_timeout :: int
  req_completion_time :: "int option"

text \<open>The capture of the interval between requests, whose samples are left out.\<close>

definition capture_interval :: "'w dxs_ops \<Rightarrow> Communication \<Rightarrow> 'w \<Rightarrow> Communication \<times> 'w" where
  "capture_interval ops comm w =
     (if ready_for_ts_capture comm
      then let (_, w) = clock ops w; (t, w) = clock ops w
           in (comm\<lparr>last_xfer := t, ready_for_ts_capture := True\<rparr>, w)
      else (comm\<lparr>ready_for_ts_capture := True\<rparr>, w))"

definition count_scheduled :: "request_stats \<Rightarrow> request_stats" where
  "count_scheduled st =
     (let st = (if GetOffloadBacklog st > offload_backlog_peak st
                then st\<lparr>offload_backlog_peak := GetOffloadBacklog st\<rparr> else st)
      in st\<lparr>offload_scheduled := offload_scheduled st + 1\<rparr>)"

definition next_flow :: "nat \<Rightarrow> nat \<Rightarrow> nat" where
  "next_flow num_flows flow = (if flow + 1 = num_flows then 0 else flow + 1)"

definition GetRequest ::
    "'w shim_env \<Rightarrow> 'w dxs_ops \<Rightarrow> Communication \<Rightarrow> u64 \<Rightarrow> u64 \<Rightarrow> MemoryHandle \<Rightarrow> 'w
      \<Rightarrow> ncclSocketRequest StatusOr \<times> Communication \<times> 'w" where
  "GetRequest env ops comm base len mhandle w =
     (if len \<noteq> 0 \<and> mem_type mhandle AND ptr_host env \<noteq> 0 then (Inl kInvalidArgument, comm, w)
      else if mem_type mhandle AND (ptr_host env OR ptr_gpu env) = 0 then (Inl kInvalidArgument, comm, w)
      else
        let (comm, w) = capture_interval ops comm w;
            (timer, w) = clock ops w;
            offset = base - start_addr mhandle;
            flow = curr_flow_group_base comm;
            issue = (if comm_send comm then dxs_send ops else dxs_recv ops);
            (res, w) = issue (the (dxs_socks comm ! flow)) offset len (reg_handle mhandle) w
        in case res of
             Inl e \<Rightarrow> (Inl e, comm, w)
           | Inr opr \<Rightarrow>
               (Inr \<lparr>req_error = False, req_size = len, req_offset = offset, req_op = opr, received_size = 0,
                     start_time = timer, req_timer = timer, slowness_timeout = slowness_ns env,
                     req_completion_time = None\<rparr>,
                comm\<lparr>curr_flow_group_base := next_flow (kFastrakNumFlows env) flow,
                     comm_stats := count_scheduled (comm_stats comm)\<rparr>, w))"

definition NcclShim_Isend ::
    "'w shim_env \<Rightarrow> 'w dxs_ops \<Rightarrow> Communication \<Rightarrow> u64 \<Rightarrow> u64 \<Rightarrow> MemoryHandle \<Rightarrow> 'w
      \<Rightarrow> ncclSocketRequest StatusOr \<times> Communication \<times> 'w" where
  "NcclShim_Isend env ops comm base len mhandle w =
     (if \<not> comm_send comm then (Inl kInvalidArgument, comm, w) else GetRequest env ops comm base len mhandle w)"

definition NcclShim_Irecv ::
    "'w shim_env \<Rightarrow> 'w dxs_ops \<Rightarrow> Communication \<Rightarrow> u64 \<Rightarrow> u64 \<Rightarrow> MemoryHandle \<Rightarrow> 'w
      \<Rightarrow> ncclSocketRequest StatusOr \<times> Communication \<times> 'w" where
  "NcclShim_Irecv env ops comm base len mhandle w =
     (if comm_send comm then (Inl kInvalidArgument, comm, w) else GetRequest env ops comm base len mhandle w)"

definition PrintTest :: "'w dxs_ops \<Rightarrow> ncclSocketRequest \<Rightarrow> 'w \<Rightarrow> ncclSocketRequest \<times> 'w" where
  "PrintTest ops r w =
     (let (e, w) = CheckTimeout ops (req_timer r) (slowness_timeout r) w
      in if e \<noteq> kOk then (r\<lparr>slowness_timeout := slowness_timeout r * 2\<rparr>, w) else (r, w))"

text \<open>The later of two times, \<open>None\<close> being the infinite past.\<close>

definition later_time :: "int option \<Rightarrow> int option \<Rightarrow> int option" where
  "later_time t t' = (case (t, t') of (Some x, Some y) \<Rightarrow> Some (max x y) | (Some x, None) \<Rightarrow> Some x | (None, _) \<Rightarrow> t')"

definition pollFromDxs :: "'w dxs_ops \<Rightarrow> bool \<Rightarrow> ncclSocketRequest \<Rightarrow> 'w \<Rightarrow> bool StatusOr \<times> ncclSocketRequest" where
  "pollFromDxs ops send r w =
     (if send
      then case test_send ops (req_op r) w of
             None \<Rightarrow> (Inr False, r)
           | Some e \<Rightarrow>
               if e \<noteq> kOk then (Inl e, r)
               else (Inr True, r\<lparr>req_completion_time :=
                                   later_time (completion_time ops send (req_op r) w) (req_completion_time r)\<rparr>)
      else case test_recv ops (req_op r) w of
             None \<Rightarrow> (Inr False, r)
           | Some (Inl e) \<Rightarrow> (Inl e, r)
           | Some (Inr n) \<Rightarrow>
               (Inr True, r\<lparr>req_completion_time :=
                              later_time (completion_time ops send (req_op r) w) (req_completion_time r),
                            received_size := n\<rparr>))"

definition NcclShim_Test ::
    "'w dxs_ops \<Rightarrow> NcclShim \<Rightarrow> ncclSocketRequest \<Rightarrow> Communication \<Rightarrow> 'w
      \<Rightarrow> i32 option StatusOr \<times> ncclSocketRequest \<times> Communication \<times> 'w" where
  "NcclShim_Test ops shim request comm w =
     (case pollFromDxs ops (comm_send comm) request w of
        (Inl e, request) \<Rightarrow> (Inl e, request, comm, w)
      | (Inr False, request) \<Rightarrow>
          let (request, w) = PrintTest ops request w;
              (e, w) = CheckTimeout ops (req_timer request) (data_transfer_timeout shim) w
          in (if e \<noteq> kOk then Inl e else Inr None, request, comm, w)
      | (Inr True, request) \<Rightarrow>
          let request = (if comm_send comm then request else request\<lparr>req_size := received_size request\<rparr>);
              st = comm_stats comm;
              (_, w) = clock ops w;
              w = close_op ops (comm_send comm) (req_op request) w
          in (Inr (Some (ucast (req_size request))), request,
              comm\<lparr>comm_stats := st\<lparr>offload_completed := offload_completed st + 1\<rparr>\<rparr>, w))"


section \<open>A connection in use\<close>

text \<open>
  Calls on one connection and events outside, in any order. \<open>used\<close> are the flows on which requests
  were scheduled, \<open>reqs\<close> the requests that have not completed.
\<close>

inductive comm_run ::
    "'w shim_env \<Rightarrow> 'w dxs_ops \<Rightarrow> NcclShim \<Rightarrow> Communication \<Rightarrow> 'w
      \<Rightarrow> Communication \<Rightarrow> nat list \<Rightarrow> ncclSocketRequest multiset \<Rightarrow> 'w \<Rightarrow> bool"
  for env ops shim comm0 w0 where
    start: "comm_run env ops shim comm0 w0 comm0 [] {#} w0"
  | send: "comm_run env ops shim comm0 w0 comm used reqs w \<Longrightarrow>
      NcclShim_Isend env ops comm base len mhandle w = (r, comm', w') \<Longrightarrow>
      comm_run env ops shim comm0 w0 comm'
        (case r of Inl _ \<Rightarrow> used | Inr _ \<Rightarrow> used @ [curr_flow_group_base comm])
        (case r of Inl _ \<Rightarrow> reqs | Inr q \<Rightarrow> add_mset q reqs) w'"
  | recv: "comm_run env ops shim comm0 w0 comm used reqs w \<Longrightarrow>
      NcclShim_Irecv env ops comm base len mhandle w = (r, comm', w') \<Longrightarrow>
      comm_run env ops shim comm0 w0 comm'
        (case r of Inl _ \<Rightarrow> used | Inr _ \<Rightarrow> used @ [curr_flow_group_base comm])
        (case r of Inl _ \<Rightarrow> reqs | Inr q \<Rightarrow> add_mset q reqs) w'"
  | test: "comm_run env ops shim comm0 w0 comm used (add_mset q reqs) w \<Longrightarrow>
      NcclShim_Test ops shim q comm w = (r, q', comm', w') \<Longrightarrow>
      comm_run env ops shim comm0 w0 comm' used
        (case r of Inr (Some _) \<Rightarrow> reqs | _ \<Rightarrow> add_mset q' reqs) w'"
  | outside: "comm_run env ops shim comm0 w0 comm used reqs w \<Longrightarrow> comm_run env ops shim comm0 w0 comm used reqs w'"

lemma capture_interval_keeps:
  assumes "capture_interval ops comm w = (comm', w')"
  shows "curr_flow_group_base comm' = curr_flow_group_base comm" and "comm_stats comm' = comm_stats comm"
    and "dxs_socks comm' = dxs_socks comm" and "comm_send comm' = comm_send comm"
  using assms by (auto simp: capture_interval_def split: if_splits prod.splits)

lemma count_scheduled_simps:
  "offload_scheduled (count_scheduled st) = offload_scheduled st + 1"
  "offload_completed (count_scheduled st) = offload_completed st"
  by (simp_all add: count_scheduled_def Let_def)

lemma GetRequest_cases:
  assumes "GetRequest env ops comm base len mhandle w = (r, comm', w')"
  obtains (refused) e where "r = Inl e" and "curr_flow_group_base comm' = curr_flow_group_base comm"
      and "comm_stats comm' = comm_stats comm"
  | (scheduled) q w1 where "r = Inr q" and "comm_send comm' = comm_send comm"
      and "curr_flow_group_base comm' = next_flow (kFastrakNumFlows env) (curr_flow_group_base comm)"
      and "comm_stats comm' = count_scheduled (comm_stats comm)"
      and "(if comm_send comm then dxs_send ops else dxs_recv ops)
          (the (dxs_socks comm ! curr_flow_group_base comm)) (base - start_addr mhandle) len (reg_handle mhandle) w1 =
        (Inr (req_op q), w')"
      and "req_size q = len"
proof -
  obtain comm1 w1 where capture: "capture_interval ops comm w = (comm1, w1)" by fastforce
  obtain timer w2 where timer: "clock ops w1 = (timer, w2)" by fastforce
  note kept = capture_interval_keeps [OF capture]
  obtain res w3 where issue: "(if comm_send comm then dxs_send ops else dxs_recv ops)
      (the (dxs_socks comm ! curr_flow_group_base comm)) (base - start_addr mhandle) len (reg_handle mhandle) w2 = (res, w3)"
    by (metis surj_pair)
  note request = assms [unfolded GetRequest_def Let_def capture prod.case timer kept issue]
  show thesis
  proof (cases "(len \<noteq> 0 \<and> mem_type mhandle AND ptr_host env \<noteq> 0) \<or>
      mem_type mhandle AND (ptr_host env OR ptr_gpu env) = 0")
    case True
    then have "r = Inl kInvalidArgument" "comm' = comm" using request by (auto split: if_splits)
    then show thesis using refused by blast
  next
    case False
    show thesis
    proof (cases res)
      case (Inl e)
      then have "r = Inl e" "comm' = comm1" using request False by auto
      then show thesis using refused kept by blast
    next
      case (Inr opr)
      let ?q = "\<lparr>req_error = False, req_size = len, req_offset = base - start_addr mhandle, req_op = opr,
        received_size = 0, start_time = timer, req_timer = timer, slowness_timeout = slowness_ns env,
        req_completion_time = None\<rparr>"
      have "r = Inr ?q" "w3 = w'"
        "comm' = comm1\<lparr>curr_flow_group_base := next_flow (kFastrakNumFlows env) (curr_flow_group_base comm),
          comm_stats := count_scheduled (comm_stats comm)\<rparr>"
        using request False Inr by auto
      then show thesis
        by (intro scheduled [of ?q w2]) (use Inr kept issue in simp_all)
    qed
  qed
qed

lemma Test_cases:
  assumes "NcclShim_Test ops shim q comm w = (r, q', comm', w')"
  obtains (unfinished) "\<And>n. r \<noteq> Inr (Some n)" and "comm' = comm"
  | (completed) n where "r = Inr (Some n)" and "curr_flow_group_base comm' = curr_flow_group_base comm"
      and "dxs_socks comm' = dxs_socks comm"
      and "offload_scheduled (comm_stats comm') = offload_scheduled (comm_stats comm)"
      and "offload_completed (comm_stats comm') = offload_completed (comm_stats comm) + 1"
  using assms unfolding NcclShim_Test_def
  by (auto simp: Let_def split: if_splits prod.splits sum.splits bool.splits)

definition run_ok :: "nat \<Rightarrow> Communication \<Rightarrow> nat list \<Rightarrow> ncclSocketRequest multiset \<Rightarrow> bool" where
  "run_ok n comm used reqs \<longleftrightarrow>
     used = map (\<lambda>k. k mod n) [0..<length used] \<and> curr_flow_group_base comm = length used mod n \<and>
     GetOffloadBacklog (comm_stats comm) = of_nat (size reqs)"

lemma run_ok_nth: "run_ok n comm used reqs \<Longrightarrow> k < length used \<Longrightarrow> used ! k = k mod n"
  unfolding run_ok_def by (elim conjE) (erule ssubst, simp)

lemma mod_next: "0 < n \<Longrightarrow> Suc m mod n = (if Suc (m mod n) = n then 0 else Suc (m mod n))"
  by (simp add: mod_Suc)

lemma run_ok_request:
  assumes "run_ok (kFastrakNumFlows env) comm used reqs" and "0 < kFastrakNumFlows env"
    and "GetRequest env ops comm base len mhandle w = (r, comm', w')"
  shows "run_ok (kFastrakNumFlows env) comm'
      (case r of Inl _ \<Rightarrow> used | Inr _ \<Rightarrow> used @ [curr_flow_group_base comm])
      (case r of Inl _ \<Rightarrow> reqs | Inr q \<Rightarrow> add_mset q reqs)"
  using assms(3)
proof (cases rule: GetRequest_cases)
  case refused
  then show ?thesis using assms(1) by (simp add: run_ok_def)
next
  case (scheduled q w1)
  have "curr_flow_group_base comm' = Suc (length used) mod kFastrakNumFlows env"
    using scheduled(3) assms(1,2) by (simp add: run_ok_def mod_next next_flow_def)
  moreover have "used @ [curr_flow_group_base comm] = map (\<lambda>k. k mod kFastrakNumFlows env) [0..<Suc (length used)]"
    using assms(1) by (simp add: run_ok_def)
  ultimately show ?thesis
    using scheduled(1,4) assms(1) by (simp add: run_ok_def GetOffloadBacklog_def count_scheduled_simps algebra_simps)
qed

lemma run_ok_test:
  assumes "run_ok n comm used (add_mset q reqs)" and "NcclShim_Test ops shim q comm w = (r, q', comm', w')"
  shows "run_ok n comm' used (case r of Inr (Some _) \<Rightarrow> reqs | _ \<Rightarrow> add_mset q' reqs)"
  using assms(2)
proof (cases rule: Test_cases)
  case unfinished
  then show ?thesis using assms(1) by (cases r) (auto simp: run_ok_def split: option.split)
next
  case (completed n)
  then show ?thesis using assms(1) by (simp add: run_ok_def GetOffloadBacklog_def algebra_simps)
qed

lemma comm_run_ok:
  assumes "comm_run env ops shim comm0 w0 comm used reqs w" and "0 < kFastrakNumFlows env"
    and "curr_flow_group_base comm0 = 0" and "GetOffloadBacklog (comm_stats comm0) = 0"
  shows "run_ok (kFastrakNumFlows env) comm used reqs"
  using assms(1)
proof (induction rule: comm_run.induct)
  case start
  then show ?case using assms(3,4) by (simp add: run_ok_def)
next
  case (send comm used reqs w base len mhandle r comm' w')
  then show ?case
    by (cases "comm_send comm") (auto simp: NcclShim_Isend_def intro: run_ok_request [OF _ assms(2)])
next
  case (recv comm used reqs w base len mhandle r comm' w')
  then show ?case
    by (cases "comm_send comm") (auto simp: NcclShim_Irecv_def intro: run_ok_request [OF _ assms(2)])
next
  case test
  then show ?case by (intro run_ok_test)
qed


section \<open>Waiting for ports\<close>

lemma CheckTimeout_time:
  assumes "\<And>w. fst (clock ops w) = time w" and "\<And>w. time w < time (snd (clock ops w))"
    and "CheckTimeout ops init timeout w = (e, w')" and "timeout \<noteq> 0"
  shows "e = (if time w - init > timeout then kDeadlineExceeded else kOk)" and "time w < time w'"
  using assms(1) [of w] assms(2) [of w] assms(3,4) by (auto simp: CheckTimeout_def split: prod.splits if_splits)

lemma wait_port_returns:
  assumes "\<And>w. fst (clock ops w) = time w" and "\<And>w. time w < time (snd (clock ops w))"
  shows "\<exists>r w'. wait_port ops timer l w = Some (r, w')"
proof (induction "nat (timer + kListenTimeout + 1 - time w)" arbitrary: w rule: less_induct)
  case less
  obtain e w1 where check: "CheckTimeout ops timer kListenTimeout w = (e, w1)" by fastforce
  note t = CheckTimeout_time [OF assms check]
  show ?case
  proof (cases "e = kOk")
    case True
    then have "nat (timer + kListenTimeout + 1 - time w1) < nat (timer + kListenTimeout + 1 - time w)"
      using t by (auto simp: kListenTimeout_def split: if_splits)
    from less [OF this] show ?thesis
      by (subst wait_port.simps) (simp add: check True split: option.split)
  next
    case False
    then show ?thesis by (subst wait_port.simps) (simp add: check)
  qed
qed

lemma wait_ports_returns:
  assumes "\<And>w. fst (clock ops w) = time w" and "\<And>w. time w < time (snd (clock ops w))"
  shows "\<exists>r w'. wait_ports ops ls ports w = Some (r, w')"
proof (induction ls arbitrary: ports w)
  case (Cons l ls)
  obtain timer w1 where c: "clock ops w = (timer, w1)" by fastforce
  obtain r w2 where p: "wait_port ops timer l w1 = Some (r, w2)"
    using wait_port_returns [OF assms] by blast
  show ?case using Cons [of _ w2] by (simp add: c p split: sum.split)
qed simp

lemma flows_ready_True:
  "flows_ready ops timer timeout socks w = (Inr True, w') \<Longrightarrow>
    w' = w \<and> (\<forall>s \<in> set socks. sock_ready ops (the s) w = Some kOk)"
  by (induction socks) (auto split: option.splits prod.splits if_splits)

section \<open>Properties\<close>

definition demo_ops :: "nat dxs_ops" where
  "demo_ops = \<lparr>clock = (\<lambda>w. (int w, Suc w)),
     dxs_connect = (\<lambda>dev addr port w. (Inr (dev, ucast port), w)),
     dxs_listen = (\<lambda>dev w. (Inr (dev, of_nat w), Suc w)), listen_ready = (\<lambda>l w. Some kOk),
     listen_port = (\<lambda>l w. 7000), listen_address = (\<lambda>l. ''10.0.0.1''),
     dxs_accept = (\<lambda>l w. (Inr (Some l), w)), sock_ready = (\<lambda>s w. Some kOk),
     dxs_send = (\<lambda>s off n reg w. (Inr (fst s, of_nat w), Suc w)),
     dxs_recv = (\<lambda>s off n reg w. (Inr (fst s, of_nat w), Suc w)),
     test_send = (\<lambda>op w. None), test_recv = (\<lambda>op w. None), completion_time = (\<lambda>send op w. None),
     close_op = (\<lambda>send op w. w), close_sock = (\<lambda>send s w. w), close_listen = (\<lambda>l w. w)\<rparr>"

definition demo_shim_env :: "'w shim_env" where
  "demo_shim_env = \<lparr>kNcclNetIfs = 8, kFastrakNumFlows = 2, kNicRailAligned = False, slowness_ns = 300,
     ptr_host = 1, ptr_gpu = 2, GetPciFromFastrakIdx = (\<lambda>i. Inr ''0000:06:00.0''), getClosestNetdev = (\<lambda>pci. Inr 0),
     GetDxsClient = (\<lambda>dev w. (kOk, w)), GetBufferManagerClient = (\<lambda>dev w. (kOk, w)),
     createListenSocket = (\<lambda>w. (Inr 3, w)), close_socket = (\<lambda>fd w. (kOk, w)), comm_address = (\<lambda>w. 4096),
     stack_ports = replicate 8 0\<rparr>"

definition demo_shim :: NcclShim where
  "demo_shim = \<lparr>netdev = 0, fastrak_idx = 0, connect_timeout = 0, accept_timeout = 0, data_transfer_timeout = 0,
     comm_counter = 0\<rparr>"

definition demo_comm :: "bool \<Rightarrow> Communication" where
  "demo_comm send = (fst (new_Communication demo_ops 1 send 0))
     \<lparr>dxs_socks := [Some (0, 1), Some (0, 2), None, None, None, None, None, None]\<rparr>"

lemma demo_request:
  "\<exists>q comm w. NcclShim_Isend demo_shim_env demo_ops (demo_comm True) 8292 100 demo_mhandle 0 = (Inr q, comm, w)"
  "\<exists>q comm w. NcclShim_Irecv demo_shim_env demo_ops (demo_comm False) 8292 100 demo_mhandle 0 = (Inr q, comm, w)"
  by (simp_all add: NcclShim_Isend_def NcclShim_Irecv_def GetRequest_def capture_interval_def demo_shim_env_def demo_ops_def
      demo_comm_def demo_mhandle_def new_Communication_def Let_def)

lemma demo_comm_flow: "curr_flow_group_base (demo_comm b) = 0" "GetOffloadBacklog (comm_stats (demo_comm b)) = 0"
  by (simp_all add: demo_comm_def new_Communication_def demo_ops_def GetOffloadBacklog_def)

lemma demo_clock: "fst (clock demo_ops w) = int w" "int w < int (snd (clock demo_ops w))"
  by (simp_all add: demo_ops_def)



text \<open>
  C36: the backlog in the statistics of a connection is the number of requests that were scheduled
  and have not completed.
\<close>

theorem backlog_counts_requests:
  assumes "comm_run env ops shim comm0 w0 comm used reqs w" and "0 < kFastrakNumFlows env"
    and "curr_flow_group_base comm0 = 0" and "GetOffloadBacklog (comm_stats comm0) = 0"
  shows "GetOffloadBacklog (comm_stats comm) = of_nat (size reqs)"
  using comm_run_ok [OF assms] by (simp add: run_ok_def)

theorem backlog_counts_requests_witness:
  "\<exists>q comm w. NcclShim_Isend demo_shim_env demo_ops (demo_comm True) 8292 100 demo_mhandle 0 = (Inr q, comm, w) \<and>
    GetOffloadBacklog (comm_stats comm) = of_nat (size {#q#})"
proof -
  from demo_request(1) obtain q comm w where
    isend: "NcclShim_Isend demo_shim_env demo_ops (demo_comm True) 8292 100 demo_mhandle 0 = (Inr q, comm, w)" by blast
  from backlog_counts_requests [OF comm_run.send [OF comm_run.start isend, of demo_shim]] isend demo_comm_flow
  show ?thesis by (simp add: demo_shim_env_def)
qed

text \<open>
  Listen returns, with a status or with the sockets of all flows and their ports, if the clock
  advances: it does not wait longer than its timeout for a port.
\<close>

theorem Listen_returns:
  assumes "\<And>w. fst (clock ops w) = time w" and "\<And>w. time w < time (snd (clock ops w))"
  shows "\<exists>r w'. NcclShim_Listen env ops shim dev w = Some (r, w')"
proof -
  have "\<exists>r w'. wait_ports ops ls [] w = Some (r, w')" for ls w
    using wait_ports_returns [OF assms] .
  then show ?thesis
    by (auto simp: NcclShim_Listen_def split: prod.split sum.split option.split) (metis not_Some_eq surj_pair)+
qed

theorem Listen_returns_witness: "\<exists>r w'. NcclShim_Listen demo_shim_env demo_ops demo_shim 0 0 = Some (r, w')"
  by (rule Listen_returns [where time = int]) (rule demo_clock)+



end
