(* ===== verification/Dxs_Lifecycle.thy ===== *)
theory Dxs_Lifecycle
  imports Dxs_Client
begin

text \<open>
  How a DXS client evolves: any interleaving of its calls, of packets from the server, of the
  destruction of its objects and of a channel failure. The theory shows that handles and
  operation ids are never reused while in use, that an operation changes only by its own
  acknowledgement or a failure, and that a failure leaves nothing pending.
\<close>

section \<open>Steps of a client\<close>

text \<open>Counters that are about to wrap around after 2^64 uses are left out.\<close>

definition counters_free :: "DxsClient \<Rightarrow> bool" where
  "counters_free c \<longleftrightarrow> next_op_id c \<noteq> - 1 \<and> next_data_socket_handle c \<noteq> - 1
     \<and> next_listen_socket_handle c \<noteq> - 1"

inductive client_step :: "DxsClient \<times> 'h \<Rightarrow> DxsClient \<times> 'h \<Rightarrow> bool" where
  listen: "counters_free (fst s) \<Longrightarrow> Listen send s = (r, s') \<Longrightarrow> client_step s s'"
| connect: "counters_free (fst s) \<Longrightarrow> Connect send addr s = (r, s') \<Longrightarrow> client_step s s'"
| send: "counters_free (fst s) \<Longrightarrow> SendSocket_Send send sock off n reg s = (r, s') \<Longrightarrow> client_step s s'"
| recv: "counters_free (fst s) \<Longrightarrow> RecvLinearized send sock off n reg s = (r, s') \<Longrightarrow> client_step s s'"
| accept: "counters_free (fst s) \<Longrightarrow> outstanding_listen_sockets (fst s) l = Some state \<Longrightarrow>
    Accept send l state s = (ra, s') \<Longrightarrow> client_step s s'"
| end_send_op: "client_step (c, h) (destroy_SendOp op c, h)"
| end_recv_op: "client_step (c, h) (destroy_LinearizedRecvOp op c, h)"
| end_send_socket: "client_step s (destroy_SendSocket send sock s)"
| end_recv_socket: "client_step s (destroy_RecvSocket send sock s)"
| end_listen_socket: "client_step s (destroy_ListenSocket send sock s)"
| ping: "Ping_begin send now s = (rp, s') \<Longrightarrow> client_step s s'"
| ping_check: "Ping_check seq c = (rc, c') \<Longrightarrow> client_step (c, h) (c', h)"
| packet: "client_step (c, h) (DxsClient_ReceiveControlMessage now buffer c, h)"
| failure: "client_step (c, h) (DxsClient_OnControlChannelFailure c, h)"

text \<open>The keys in use lie below the next one to be given out.\<close>

definition below :: "(u64 \<rightharpoonup> 'v) \<Rightarrow> u64 \<Rightarrow> bool" where
  "below m n \<longleftrightarrow> (\<forall>k \<in> dom m. k < n)"

definition disjoint_keys :: "(u64 \<rightharpoonup> 'v) \<Rightarrow> (u64 \<rightharpoonup> 'w) \<Rightarrow> bool" where
  "disjoint_keys m m' \<longleftrightarrow> dom m \<inter> dom m' = {}"

definition ids_ok :: "DxsClient \<Rightarrow> bool" where
  "ids_ok c \<longleftrightarrow>
     below (outstanding_send_ops c) (next_op_id c) \<and>
     below (outstanding_linearized_recv_ops c) (next_op_id c) \<and>
     disjoint_keys (outstanding_send_ops c) (outstanding_linearized_recv_ops c) \<and>
     below (outstanding_data_sockets c) (next_data_socket_handle c) \<and>
     below (outstanding_listen_sockets c) (next_listen_socket_handle c)"

section \<open>Packets keep the keys\<close>

definition same_keys :: "DxsClient \<Rightarrow> DxsClient \<Rightarrow> bool" where
  "same_keys c c' \<longleftrightarrow>
     dom (outstanding_send_ops c') = dom (outstanding_send_ops c) \<and>
     dom (outstanding_linearized_recv_ops c') = dom (outstanding_linearized_recv_ops c) \<and>
     dom (outstanding_data_sockets c') = dom (outstanding_data_sockets c) \<and>
     dom (outstanding_listen_sockets c') = dom (outstanding_listen_sockets c) \<and>
     next_op_id c' = next_op_id c \<and> next_data_socket_handle c' = next_data_socket_handle c \<and>
     next_listen_socket_handle c' = next_listen_socket_handle c"

lemma same_keys_refl [simp]: "same_keys c c"
  by (simp add: same_keys_def)

lemma same_keys_ids: "same_keys c c' \<Longrightarrow> ids_ok c \<Longrightarrow> ids_ok c'"
  by (simp add: same_keys_def ids_ok_def below_def disjoint_keys_def)

lemmas client_handler_defs =
  DxsClient_HandleVersionedInitAck_def HandleInitLlcmAck_def HandleListenAck_def
  HandleIncomingConnection_def HandleIncomingConnectionV2_def HandleConnectAck_def
  HandleAcceptAck_def HandleSendAck_def HandleRecvAck_def HandlePong_def

lemma handlers_same_keys:
  "same_keys c (DxsClient_HandleVersionedInitAck p c)" "same_keys c (HandleInitLlcmAck p c)"
  "same_keys c (HandleListenAck p c)" "same_keys c (HandleIncomingConnection p c)"
  "same_keys c (HandleIncomingConnectionV2 p c)" "same_keys c (HandleConnectAck p c)"
  "same_keys c (HandleAcceptAck p c)" "same_keys c (HandleSendAck now p c)"
  "same_keys c (HandleRecvAck now p c)" "same_keys c (HandlePong now p c)"
  unfolding client_handler_defs Let_def
  by (auto simp: same_keys_def domIff insert_absorb split: option.splits if_splits)

lemma packet_same_keys: "same_keys c (DxsClient_ReceiveControlMessage now buffer c)"
  unfolding DxsClient_ReceiveControlMessage_def
  by (simp add: handlers_same_keys split: option.split ControlCommand.split)

lemma dom_map_option_comp [simp]: "dom (map_option f \<circ> m) = dom m"
  by (auto simp: domIff)

lemma failure_same_keys: "same_keys c (DxsClient_OnControlChannelFailure c)"
  by (simp add: same_keys_def DxsClient_OnControlChannelFailure_def)

lemma unat_plus_one:
  assumes "(n :: u64) \<noteq> - 1"
  shows "unat (n + 1) = unat n + 1"
proof -
  have "unat n \<noteq> unat (- 1 :: u64)" using assms unfolding word_unat_eq_iff .
  moreover have "unat (- 1 :: u64) = 18446744073709551615"
    by (simp add: unsigned_minus_1_eq_mask mask_eq_exp_minus_1)
  moreover have "unat n < 18446744073709551616" by (rule unat_u64_less)
  ultimately have "unat n + 1 < 18446744073709551616" by linarith
  then show ?thesis using unat_add_u64 [of n 1] by simp
qed

lemma below_next [simp]:
  assumes "below m n" and "n \<noteq> - 1"
  shows "below m (n + 1)" "below (m(n \<mapsto> v)) (n + 1)"
proof -
  have "n < n + 1" using assms(2) by (simp add: word_less_nat_alt unat_plus_one)
  then show "below m (n + 1)" "below (m(n \<mapsto> v)) (n + 1)"
    using assms(1) by (auto simp: below_def intro: less_trans)
qed

lemma below_delete [simp]: "below m n \<Longrightarrow> below (m(k := None)) n"
  by (auto simp: below_def)

lemma below_update [simp]: "below m n \<Longrightarrow> m k = Some v \<Longrightarrow> below (m(k \<mapsto> v')) n"
  by (auto simp: below_def)

lemma below_unused: "below m n \<Longrightarrow> m n = None"
  by (auto simp: below_def domIff)

lemma disjoint_keys_delete [simp]:
  "disjoint_keys m m' \<Longrightarrow> disjoint_keys (m(k := None)) m'"
  "disjoint_keys m m' \<Longrightarrow> disjoint_keys m (m'(k := None))"
  by (auto simp: disjoint_keys_def)

lemma disjoint_keys_add [simp]:
  "disjoint_keys m m' \<Longrightarrow> below m' n \<Longrightarrow> disjoint_keys (m(n \<mapsto> v)) m'"
  "disjoint_keys m m' \<Longrightarrow> below m n \<Longrightarrow> disjoint_keys m (m'(n \<mapsto> w))"
  by (auto simp: disjoint_keys_def below_def)

lemmas client_call_defs =
  Listen_def Connect_def SendSocket_Send_def RecvLinearized_def Accept_def Ping_begin_def Ping_check_def
  destroy_SendSocket_def destroy_RecvSocket_def destroy_ListenSocket_def
  RegisterSendOp_def RegisterLinearizedRecvOp_def RegisterSendSocket_def RegisterRecvSocket_def
  RegisterListenSocket_def destroy_SendOp_def destroy_LinearizedRecvOp_def
  erase_data_socket_def erase_listen_socket_def

lemma Listen_ids:
  assumes "ids_ok c" and "counters_free c" and "Listen send (c, h) = (r, c', h')"
  shows "ids_ok c'"
  using assms unfolding ids_ok_def counters_free_def client_call_defs Let_def
  by (auto split: prod.splits if_splits simp del: fun_upd_apply)

lemma Connect_ids:
  assumes "ids_ok c" and "counters_free c" and "Connect send addr (c, h) = (r, c', h')"
  shows "ids_ok c'"
  using assms unfolding ids_ok_def counters_free_def client_call_defs Let_def
  by (auto split: prod.splits if_splits sum.splits)

lemma Send_ids:
  assumes "ids_ok c" and "counters_free c" and "SendSocket_Send send sock off n reg (c, h) = (r, c', h')"
  shows "ids_ok c'"
  using assms unfolding ids_ok_def counters_free_def client_call_defs Let_def
  by (auto split: prod.splits if_splits)

lemma Recv_ids:
  assumes "ids_ok c" and "counters_free c" and "RecvLinearized send sock off n reg (c, h) = (r, c', h')"
  shows "ids_ok c'"
  using assms unfolding ids_ok_def counters_free_def client_call_defs Let_def
  by (auto split: prod.splits if_splits)

lemma Accept_ids:
  assumes "ids_ok c" and "counters_free c" and "outstanding_listen_sockets c l = Some state"
    and "Accept send l state (c, h) = (r, c', h')"
  shows "ids_ok c'"
  using assms unfolding ids_ok_def counters_free_def client_call_defs Let_def
  by (auto split: prod.splits if_splits list.splits)

lemma destroy_ids:
  assumes "ids_ok c"
  shows "ids_ok (destroy_SendOp op c)" "ids_ok (destroy_LinearizedRecvOp op c)"
    "ids_ok (fst (destroy_SendSocket send sock (c, h)))"
    "ids_ok (fst (destroy_RecvSocket send sock (c, h)))"
    "ids_ok (fst (destroy_ListenSocket send sock (c, h)))"
  using assms unfolding ids_ok_def client_call_defs by simp_all

lemma Ping_ids:
  "ids_ok c \<Longrightarrow> Ping_begin send now (c, h) = (r, c', h') \<Longrightarrow> ids_ok c'"
  "ids_ok c \<Longrightarrow> Ping_check seq c = (rc, c') \<Longrightarrow> ids_ok c'"
  unfolding ids_ok_def client_call_defs Let_def
  by (auto split: prod.splits if_splits option.splits)

lemma client_step_ids: "client_step s s' \<Longrightarrow> ids_ok (fst s) \<Longrightarrow> ids_ok (fst s')"
proof (induction rule: client_step.induct)
  case (listen s send r s')
  then show ?case by (cases s; cases s') (auto intro: Listen_ids)
next
  case (connect s send addr r s')
  then show ?case by (cases s; cases s') (auto intro: Connect_ids)
next
  case (send s send sock off n reg r s')
  then show ?case by (cases s; cases s') (auto intro: Send_ids)
next
  case (recv s send sock off n reg r s')
  then show ?case by (cases s; cases s') (auto intro: Recv_ids)
next
  case (accept s l state send ra s')
  then show ?case by (cases s; cases s') (auto intro: Accept_ids)
next
  case (end_send_socket s send sock)
  then show ?case by (cases s) (auto intro: destroy_ids)
next
  case (end_recv_socket s send sock)
  then show ?case by (cases s) (auto intro: destroy_ids)
next
  case (end_listen_socket s send sock)
  then show ?case by (cases s) (auto intro: destroy_ids)
next
  case (ping send now s rp s')
  then show ?case by (cases s; cases s') (auto intro: Ping_ids(1))
next
  case (packet c h now buffer)
  then show ?case using same_keys_ids packet_same_keys by simp blast
next
  case (failure c h)
  then show ?case using same_keys_ids failure_same_keys by simp blast
qed (auto intro: destroy_ids Ping_ids(2))

lemma client_reachable_ids:
  assumes "client_step\<^sup>*\<^sup>* (new_DxsClient b, h) s"
  shows "ids_ok (fst s)"
proof -
  have "ids_ok (fst (new_DxsClient b, h))" by (simp add: ids_ok_def new_DxsClient_def below_def disjoint_keys_def)
  with assms show ?thesis by (induction rule: rtranclp_induct) (auto intro: client_step_ids)
qed

section \<open>What a packet changes\<close>

text \<open>An operation after the acknowledgement \<open>m\<close>.\<close>

definition ack_send_op :: "int \<Rightarrow> SendAckMessage \<Rightarrow> SendOpState \<Rightarrow> SendOpState" where
  "ack_send_op now m op =
     \<lparr>so_status = send_ack_status m, so_req_status = send_ack_req_status m,
      so_completion_time = (if send_ack_status m = kComplete then Some now else so_completion_time op)\<rparr>"

definition ack_recv_op :: "int \<Rightarrow> RecvAckMessage \<Rightarrow> RecvOpState \<Rightarrow> RecvOpState" where
  "ack_recv_op now m op =
     \<lparr>ro_status = recv_ack_status m, ro_req_status = recv_ack_req_status m,
      ro_size = (if recv_ack_status m = kComplete then recv_ack_size m else ro_size op),
      ro_completion_time = (if recv_ack_status m = kComplete then Some now else ro_completion_time op)\<rparr>"

lemma decode_command_SendAck:
  "decode_command k bs = Some (Msg_SendAck m) \<longleftrightarrow>
    k = kSendAck \<and> ValidateAndGetMessage 11 SendAckMessage_of bs = Some m"
  by (cases k) (simp_all add: ValidateAndGetMessage_def Let_def)

lemma decode_command_RecvAck:
  "decode_command k bs = Some (Msg_RecvAck m) \<longleftrightarrow>
    k = kRecvAck \<and> ValidateAndGetMessage 19 RecvAckMessage_of bs = Some m"
  by (cases k) (simp_all add: ValidateAndGetMessage_def Let_def)

lemmas decode_command_ack = decode_command_SendAck decode_command_RecvAck

lemma decode_message_some:
  "decode_message bs = Some m \<longleftrightarrow>
    bs \<noteq> [] \<and> (\<exists>k. command_of (bs ! 0) = Some k \<and> decode_command k bs = Some m)"
  by (cases bs) (simp_all add: decode_message_def split: option.split)

lemma handlers_keep_ops:
  "outstanding_send_ops (DxsClient_HandleVersionedInitAck p c) = outstanding_send_ops c"
  "outstanding_send_ops (HandleInitLlcmAck p c) = outstanding_send_ops c"
  "outstanding_send_ops (HandleListenAck p c) = outstanding_send_ops c"
  "outstanding_send_ops (HandleIncomingConnection p c) = outstanding_send_ops c"
  "outstanding_send_ops (HandleIncomingConnectionV2 p c) = outstanding_send_ops c"
  "outstanding_send_ops (HandleConnectAck p c) = outstanding_send_ops c"
  "outstanding_send_ops (HandleAcceptAck p c) = outstanding_send_ops c"
  "outstanding_send_ops (HandleRecvAck now p c) = outstanding_send_ops c"
  "outstanding_send_ops (HandlePong now p c) = outstanding_send_ops c"
  "outstanding_linearized_recv_ops (DxsClient_HandleVersionedInitAck p c) = outstanding_linearized_recv_ops c"
  "outstanding_linearized_recv_ops (HandleInitLlcmAck p c) = outstanding_linearized_recv_ops c"
  "outstanding_linearized_recv_ops (HandleListenAck p c) = outstanding_linearized_recv_ops c"
  "outstanding_linearized_recv_ops (HandleIncomingConnection p c) = outstanding_linearized_recv_ops c"
  "outstanding_linearized_recv_ops (HandleIncomingConnectionV2 p c) = outstanding_linearized_recv_ops c"
  "outstanding_linearized_recv_ops (HandleConnectAck p c) = outstanding_linearized_recv_ops c"
  "outstanding_linearized_recv_ops (HandleAcceptAck p c) = outstanding_linearized_recv_ops c"
  "outstanding_linearized_recv_ops (HandleSendAck now p c) = outstanding_linearized_recv_ops c"
  "outstanding_linearized_recv_ops (HandlePong now p c) = outstanding_linearized_recv_ops c"
  unfolding client_handler_defs Let_def by (simp_all split: option.split)

lemma HandleSendAck_ops:
  "outstanding_send_ops (HandleSendAck now p c) =
     (case ValidateAndGetMessage 11 SendAckMessage_of p of None \<Rightarrow> outstanding_send_ops c
      | Some m \<Rightarrow> (outstanding_send_ops c)(send_ack_op_id m :=
          map_option (ack_send_op now m) (outstanding_send_ops c (send_ack_op_id m))))"
  by (simp add: HandleSendAck_def ack_send_op_def fun_eq_iff Let_def split: option.split)

lemma HandleRecvAck_ops:
  "outstanding_linearized_recv_ops (HandleRecvAck now p c) =
     (case ValidateAndGetMessage 19 RecvAckMessage_of p of None \<Rightarrow> outstanding_linearized_recv_ops c
      | Some m \<Rightarrow> (outstanding_linearized_recv_ops c)(recv_ack_op_id m :=
          map_option (ack_recv_op now m) (outstanding_linearized_recv_ops c (recv_ack_op_id m))))"
  by (simp add: HandleRecvAck_def ack_recv_op_def fun_eq_iff Let_def split: option.split)

lemma packet_ops_dispatch:
  "outstanding_send_ops (DxsClient_ReceiveControlMessage now buffer c) =
     (if buffer \<noteq> [] \<and> command_of (buffer ! 0) = Some kSendAck
      then outstanding_send_ops (HandleSendAck now buffer c) else outstanding_send_ops c)"
  "outstanding_linearized_recv_ops (DxsClient_ReceiveControlMessage now buffer c) =
     (if buffer \<noteq> [] \<and> command_of (buffer ! 0) = Some kRecvAck
      then outstanding_linearized_recv_ops (HandleRecvAck now buffer c)
      else outstanding_linearized_recv_ops c)"
  unfolding DxsClient_ReceiveControlMessage_def
  by (simp_all add: handlers_keep_ops Suc_le_eq split: option.split ControlCommand.split)

lemma decode_ack_bytes:
  "decode_message (SendAckMessage_bytes m) = Some (Msg_SendAck m)"
  "decode_message (RecvAckMessage_bytes r) = Some (Msg_RecvAck r)"
  by (simp_all add: wire_simps layout_simps del: command_code.simps)

lemma decode_incoming_bytes:
  "length (incoming2_addr m) = 16 \<Longrightarrow>
    decode_message (IncomingConnectionMessageV2_bytes m) = Some (Msg_IncomingConnectionV2 m)"
  by (simp add: wire_simps layout_simps del: command_code.simps)

lemma decode_message_Nil: "decode_message [] = None"
  by (simp add: decode_message_def)

lemma packet_undecodable:
  assumes "decode_message buffer = None"
  shows "DxsClient_ReceiveControlMessage now buffer c = c"
proof (cases "buffer \<noteq> [] \<and> command_of (buffer ! 0) \<noteq> None")
  case True
  then obtain k where k: "buffer \<noteq> []" "command_of (buffer ! 0) = Some k" by blast
  with assms have "decode_command k buffer = None"
    by (cases buffer) (simp_all add: decode_message_def)
  with k show ?thesis
    by (cases k) (simp_all add: DxsClient_ReceiveControlMessage_def client_handler_defs Suc_le_eq)
next
  case False
  then show ?thesis by (auto simp: DxsClient_ReceiveControlMessage_def)
qed

lemma unacked_send_ops:
  assumes "\<And>m. decode_message buffer \<noteq> Some (Msg_SendAck m)"
  shows "outstanding_send_ops (DxsClient_ReceiveControlMessage now buffer c) = outstanding_send_ops c"
  using assms
  by (auto simp: decode_message_some decode_command_ack packet_ops_dispatch HandleSendAck_ops
      split: option.split)

lemma unacked_recv_ops:
  assumes "\<And>m. decode_message buffer \<noteq> Some (Msg_RecvAck m)"
  shows "outstanding_linearized_recv_ops (DxsClient_ReceiveControlMessage now buffer c)
    = outstanding_linearized_recv_ops c"
  using assms
  by (auto simp: decode_message_some decode_command_ack packet_ops_dispatch HandleRecvAck_ops
      split: option.split)

lemma acked_send_ops:
  "decode_message buffer = Some (Msg_SendAck m) \<Longrightarrow>
    outstanding_send_ops (DxsClient_ReceiveControlMessage now buffer c) =
      (outstanding_send_ops c)(send_ack_op_id m :=
        map_option (ack_send_op now m) (outstanding_send_ops c (send_ack_op_id m)))"
  by (auto simp: decode_message_some decode_command_ack packet_ops_dispatch HandleSendAck_ops)

lemma acked_recv_ops:
  "decode_message buffer = Some (Msg_RecvAck m) \<Longrightarrow>
    outstanding_linearized_recv_ops (DxsClient_ReceiveControlMessage now buffer c) =
      (outstanding_linearized_recv_ops c)(recv_ack_op_id m :=
        map_option (ack_recv_op now m) (outstanding_linearized_recv_ops c (recv_ack_op_id m)))"
  by (auto simp: decode_message_some decode_command_ack packet_ops_dispatch HandleRecvAck_ops)

section \<open>Incoming connections\<close>

text \<open>The peers a packet announces to the listening socket \<open>l\<close>.\<close>

definition arrivals :: "u64 \<Rightarrow> u8 list \<Rightarrow> WireSocketAddr list" where
  "arrivals l buffer =
     (case decode_message buffer of
        Some (Msg_IncomingConnection m) \<Rightarrow>
          if incoming_sock m = l then [\<lparr>wsa_is_ipv6 = False, wsa_addr = replicate 16 0, wsa_port = 0\<rparr>] else []
      | Some (Msg_IncomingConnectionV2 m) \<Rightarrow>
          if incoming2_sock m = l
          then [\<lparr>wsa_is_ipv6 = incoming2_is_ipv6 m, wsa_addr = incoming2_addr m,
                 wsa_port = incoming2_port m\<rparr>] else []
      | _ \<Rightarrow> [])"

definition acks_listen :: "u64 \<Rightarrow> u8 list \<Rightarrow> bool" where
  "acks_listen l buffer =
     (case decode_message buffer of Some (Msg_ListenAck m) \<Rightarrow> listen_ack_sock m = l | _ \<Rightarrow> False)"

lemma handlers_keep_listen:
  "outstanding_listen_sockets (DxsClient_HandleVersionedInitAck p c) = outstanding_listen_sockets c"
  "outstanding_listen_sockets (HandleInitLlcmAck p c) = outstanding_listen_sockets c"
  "outstanding_listen_sockets (HandleConnectAck p c) = outstanding_listen_sockets c"
  "outstanding_listen_sockets (HandleAcceptAck p c) = outstanding_listen_sockets c"
  "outstanding_listen_sockets (HandleSendAck now p c) = outstanding_listen_sockets c"
  "outstanding_listen_sockets (HandleRecvAck now p c) = outstanding_listen_sockets c"
  "outstanding_listen_sockets (HandlePong now p c) = outstanding_listen_sockets c"
  unfolding client_handler_defs Let_def by (simp_all split: option.split)

lemma packet_arrivals:
  assumes "outstanding_listen_sockets c l = Some st" and "0 < ls_port st" and "\<not> acks_listen l buffer"
  shows "outstanding_listen_sockets (DxsClient_ReceiveControlMessage now buffer c) l =
    Some (st\<lparr>ls_pending_connections := ls_pending_connections st @ arrivals l buffer\<rparr>)"
proof (cases "decode_message buffer")
  case None
  then show ?thesis using assms by (simp add: packet_undecodable arrivals_def)
next
  case (Some m)
  then obtain k where k: "buffer \<noteq> []" "command_of (buffer ! 0) = Some k" "decode_command k buffer = Some m"
    by (auto simp: decode_message_some)
  show ?thesis
    using assms k Some
    by (cases k) (auto simp: DxsClient_ReceiveControlMessage_def handlers_keep_listen arrivals_def
        acks_listen_def AddPendingConnection_def HandleListenAck_def HandleIncomingConnection_def
        HandleIncomingConnectionV2_def ValidateAndGetMessage_def Let_def split: if_splits option.split)
qed

lemma packets_arrivals:
  assumes "outstanding_listen_sockets c l = Some st" and "0 < ls_port st"
    and "\<forall>b \<in> set ps. \<not> acks_listen l b"
  shows "outstanding_listen_sockets (fold (DxsClient_ReceiveControlMessage now) ps c) l =
    Some (st\<lparr>ls_pending_connections := ls_pending_connections st @ concat (map (arrivals l) ps)\<rparr>)"
  using assms
proof (induction ps arbitrary: c st)
  case (Cons b ps)
  have "outstanding_listen_sockets (DxsClient_ReceiveControlMessage now b c) l =
    Some (st\<lparr>ls_pending_connections := ls_pending_connections st @ arrivals l b\<rparr>)"
    using Cons.prems by (intro packet_arrivals) auto
  from Cons.IH [OF this] Cons.prems show ?case by simp
qed simp

text \<open>The peers that \<open>n\<close> calls of \<^verbatim>\<open>Accept\<close> return, up to the first that returns none.\<close>

fun accept_run ::
    "(u8 list \<Rightarrow> 'h \<Rightarrow> StatusCode \<times> 'h) \<Rightarrow> u64 \<Rightarrow> nat \<Rightarrow> DxsClient \<times> 'h \<Rightarrow> WireSocketAddr list" where
  "accept_run send l 0 s = []"
| "accept_run send l (Suc n) s =
     (case outstanding_listen_sockets (fst s) l of
        None \<Rightarrow> []
      | Some st \<Rightarrow>
          (case Accept send l st s of
             (Inr (Some (handle, peer)), s') \<Rightarrow> peer # accept_run send l n s'
           | _ \<Rightarrow> []))"

lemma accept_run_take:
  assumes "outstanding_listen_sockets (fst s) l = Some st" and "0 < ls_port st"
    and "\<And>m h. fst (send m h) = kOk"
  shows "accept_run send l n s = take n (ls_pending_connections st)"
  using assms(1,2)
proof (induction n arbitrary: s st)
  case (Suc n)
  obtain c h where s: "s = (c, h)" by (cases s)
  show ?case
  proof (cases "ls_pending_connections st")
    case Nil
    then show ?thesis using Suc.prems s by (simp add: Accept_def)
  next
    case (Cons peer rest)
    let ?m = "AcceptMessage_bytes \<lparr>accept_listen_sock = l, accept_data_sock = next_data_socket_handle c\<rparr>"
    obtain h1 where h1: "send ?m h = (kOk, h1)" using assms(3) [of ?m h] by (cases "send ?m h") simp
    let ?st = "st\<lparr>ls_pending_connections := rest\<rparr>"
    let ?c = "RegisterRecvSocket (next_data_socket_handle c)
      (c\<lparr>outstanding_listen_sockets := (outstanding_listen_sockets c)(l \<mapsto> ?st),
         next_data_socket_handle := next_data_socket_handle c + 1\<rparr>)"
    have "accept_run send l n (?c, h1) = take n rest"
      using Suc.IH [of "(?c, h1)" ?st] Suc.prems(2) by (simp add: RegisterRecvSocket_def)
    then show ?thesis using Suc.prems s Cons h1 by (simp add: Accept_def Let_def)
  qed
qed simp

section \<open>Properties\<close>

text \<open>
  C25: in every reachable state the next operation id and the next handles are unused, and no id is
  at once a send and a receive operation, so an acknowledgement names one operation only.
\<close>

theorem fresh_ids:
  assumes "client_step\<^sup>*\<^sup>* (new_DxsClient b, h) (c, h')"
  shows "outstanding_send_ops c (next_op_id c) = None \<and>
    outstanding_linearized_recv_ops c (next_op_id c) = None \<and>
    outstanding_data_sockets c (next_data_socket_handle c) = None \<and>
    outstanding_listen_sockets c (next_listen_socket_handle c) = None \<and>
    dom (outstanding_send_ops c) \<inter> dom (outstanding_linearized_recv_ops c) = {}"
proof -
  have "ids_ok c" using client_reachable_ids [OF assms] by simp
  then show ?thesis
    unfolding ids_ok_def disjoint_keys_def by (simp add: below_unused)
qed

theorem fresh_ids_witness:
  "let c = RegisterSendOp 1000 (new_DxsClient True\<lparr>next_op_id := 1001\<rparr>)
   in outstanding_send_ops c 1001 = None \<and> outstanding_linearized_recv_ops c 1001 = None"
proof -
  let ?s = "SendSocket_Send (\<lambda>m h. (kOk, h @ [m])) 1 0 64 7 (new_DxsClient True, [])"
  have "client_step (new_DxsClient True, []) (snd ?s)"
    by (rule client_step.send [where r = "fst ?s"]) (simp_all add: counters_free_def new_DxsClient_def)
  then have "client_step\<^sup>*\<^sup>* (new_DxsClient True, []) (snd ?s)" by (rule r_into_rtranclp)
  from fresh_ids [OF this [unfolded SendSocket_Send_def Let_def, simplified]]
  show ?thesis by (simp add: RegisterSendOp_def new_DxsClient_def Let_def)
qed

text \<open>
  C27: a packet changes an outstanding send operation only when it is the acknowledgement of that
  very operation; the operation then has the status the server reports, and the time of completion.
\<close>

theorem send_op_after_packet:
  assumes "outstanding_send_ops c op = Some st"
  shows "outstanding_send_ops (DxsClient_ReceiveControlMessage now buffer c) op =
     Some (case decode_message buffer of
             Some (Msg_SendAck m) \<Rightarrow> if send_ack_op_id m = op then ack_send_op now m st else st
           | _ \<Rightarrow> st)"
proof (cases "\<exists>m. decode_message buffer = Some (Msg_SendAck m)")
  case True
  then show ?thesis using assms by (auto simp: acked_send_ops)
next
  case False
  with assms show ?thesis by (simp add: unacked_send_ops split: option.split ControlMessage.split)
qed

theorem send_op_after_packet_witness:
  "map_option SendOp_Test (outstanding_send_ops (DxsClient_ReceiveControlMessage 50
      (SendAckMessage_bytes \<lparr>send_ack_op_id = 7, send_ack_status = kComplete, send_ack_req_status = 0\<rparr>)
      (RegisterSendOp 7 (new_DxsClient True))) 7) = Some (Some kOk)"
  by (subst send_op_after_packet [where st = new_SendOpState])
    (simp_all add: RegisterSendOp_def SendOp_Test_def ack_send_op_def decode_ack_bytes
      kComplete_def kPending_def)

text \<open>
  C28: the same for a receive operation, whose received size is set only by an acknowledgement that
  says it is complete.
\<close>

theorem recv_op_after_packet:
  assumes "outstanding_linearized_recv_ops c op = Some st"
  shows "outstanding_linearized_recv_ops (DxsClient_ReceiveControlMessage now buffer c) op =
     Some (case decode_message buffer of
             Some (Msg_RecvAck m) \<Rightarrow> if recv_ack_op_id m = op then ack_recv_op now m st else st
           | _ \<Rightarrow> st)"
proof (cases "\<exists>m. decode_message buffer = Some (Msg_RecvAck m)")
  case True
  then show ?thesis using assms by (auto simp: acked_recv_ops)
next
  case False
  with assms show ?thesis by (simp add: unacked_recv_ops split: option.split ControlMessage.split)
qed

theorem recv_op_after_packet_witness:
  "map_option LinearizedRecvOp_Test (outstanding_linearized_recv_ops (DxsClient_ReceiveControlMessage 50
      (RecvAckMessage_bytes \<lparr>recv_ack_op_id = 7, recv_ack_status = kComplete,
         recv_ack_size = 4096, recv_ack_req_status = 0\<rparr>)
      (RegisterLinearizedRecvOp 7 (new_DxsClient True))) 7) = Some (Some (Inr 4096))"
  by (subst recv_op_after_packet [where st = new_RecvOpState])
    (simp_all add: RegisterLinearizedRecvOp_def LinearizedRecvOp_Test_def ack_recv_op_def
      decode_ack_bytes kComplete_def kPending_def)

text \<open>
  A packet that is too short for its command, or whose command is unknown, leaves the client as
  it was.
\<close>

theorem undecodable_packet_ignored:
  assumes "decode_message buffer = None"
  shows "DxsClient_ReceiveControlMessage now buffer c = c"
  using assms by (rule packet_undecodable)

theorem undecodable_packet_ignored_witness:
  "DxsClient_ReceiveControlMessage 3 [command_code kSendAck, 0, 0] (new_DxsClient True) = new_DxsClient True"
  by (rule undecodable_packet_ignored)
    (simp add: ValidateAndGetMessage_def del: command_code.simps)

text \<open>
  C29: once the control channel has failed, no operation and no socket is pending any more: every
  operation reports an error, and so does every data and every listening socket.
\<close>

theorem failure_ends_pending:
  "(\<forall>st \<in> ran (outstanding_send_ops (DxsClient_OnControlChannelFailure c)). SendOp_Test st = Some kInternal) \<and>
   (\<forall>st \<in> ran (outstanding_linearized_recv_ops (DxsClient_OnControlChannelFailure c)).
      LinearizedRecvOp_Test st = Some (Inl kInternal)) \<and>
   (\<forall>st \<in> ran (outstanding_data_sockets (DxsClient_OnControlChannelFailure c)). SocketReady st = Some kInternal) \<and>
   (\<forall>st \<in> ran (outstanding_listen_sockets (DxsClient_OnControlChannelFailure c)).
      ListenSocket_SocketReady st = Some kInternal)"
  by (auto simp: DxsClient_OnControlChannelFailure_def ran_def SendOp_Test_def LinearizedRecvOp_Test_def
      SocketReady_def ListenSocket_SocketReady_def kError_def kPending_def kComplete_def
      kInternalError_def kPendingConnect_def kConnected_def)

theorem failure_ends_pending_witness:
  "SendOp_Test (the (outstanding_send_ops (DxsClient_OnControlChannelFailure
      (RegisterSendOp 7 (new_DxsClient True))) 7)) = Some kInternal"
proof -
  have "the (outstanding_send_ops (DxsClient_OnControlChannelFailure (RegisterSendOp 7 (new_DxsClient True))) 7)
    \<in> ran (outstanding_send_ops (DxsClient_OnControlChannelFailure (RegisterSendOp 7 (new_DxsClient True))))"
    by (rule ranI [where a = 7]) (simp add: DxsClient_OnControlChannelFailure_def RegisterSendOp_def)
  then show ?thesis
    by (rule failure_ends_pending [THEN conjunct1, rule_format])
qed



end
