(* ===== verification/Plugin_On_Dxs.thy ===== *)
theory Plugin_On_Dxs
  imports Nccl_Shim Dxs_Lifecycle
begin

text \<open>
  The plugin's connections on the DXS client: the operations of \<open>Nccl_Shim\<close> given by the model of the
  client, one for each interface, and a request followed from its scheduling to the packet that
  acknowledges it.
\<close>

section \<open>The DXS client as the plugin's transport\<close>

record 'h dxs_world =
  dw_client :: "int \<Rightarrow> DxsClient"
  dw_channel :: "int \<Rightarrow> 'h"
  dw_time :: int

text \<open>A call on the client of one interface.\<close>

definition on_client :: "int \<Rightarrow> (DxsClient \<times> 'h \<Rightarrow> 'r \<times> DxsClient \<times> 'h) \<Rightarrow> 'h dxs_world \<Rightarrow> 'r \<times> 'h dxs_world" where
  "on_client dev call w =
     (case call (dw_client w dev, dw_channel w dev) of
        (r, c, h) \<Rightarrow> (r, w\<lparr>dw_client := (dw_client w)(dev := c), dw_channel := (dw_channel w)(dev := h)\<rparr>))"

definition with_handle :: "int \<Rightarrow> u64 StatusOr \<times> 'w \<Rightarrow> dxs_handle StatusOr \<times> 'w" where
  "with_handle dev = (\<lambda>(r, w). (map_sum id (\<lambda>h. (dev, h)) r, w))"

text \<open>
  \<open>send\<close> sends a control message, \<open>pack\<close> is \<^verbatim>\<open>PackIpAddress\<close>, \<open>tick\<close> what happens while the clock is read.
\<close>

definition dxs_client_ops ::
    "(u8 list \<Rightarrow> 'h \<Rightarrow> StatusCode \<times> 'h) \<Rightarrow> (string \<Rightarrow> u16 \<Rightarrow> WireSocketAddr StatusOr) \<Rightarrow> (int \<Rightarrow> string)
      \<Rightarrow> ('h dxs_world \<Rightarrow> 'h dxs_world) \<Rightarrow> 'h dxs_world dxs_ops" where
  "dxs_client_ops send pack nic_addr tick =
     \<lparr>clock = (\<lambda>w. (dw_time w, tick w)),
      dxs_connect = (\<lambda>dev addr port w. with_handle dev (on_client dev (Connect send (pack addr port)) w)),
      dxs_listen = (\<lambda>dev w. with_handle dev (on_client dev (Listen send) w)),
      listen_ready = (\<lambda>(dev, l) w. case outstanding_listen_sockets (dw_client w dev) l of
                        None \<Rightarrow> None | Some st \<Rightarrow> ListenSocket_SocketReady st),
      listen_port = (\<lambda>(dev, l) w. case outstanding_listen_sockets (dw_client w dev) l of
                       None \<Rightarrow> 0 | Some st \<Rightarrow> ls_port st),
      listen_address = (\<lambda>(dev, l). nic_addr dev),
      dxs_accept = (\<lambda>(dev, l) w.
         case outstanding_listen_sockets (dw_client w dev) l of
           None \<Rightarrow> (Inl kInternal, w)
         | Some st \<Rightarrow> (case on_client dev (Accept send l st) w of
                         (r, w) \<Rightarrow> (map_sum id (map_option (\<lambda>(h, peer). (dev, h))) r, w))),
      sock_ready = (\<lambda>(dev, s) w. case outstanding_data_sockets (dw_client w dev) s of
                      None \<Rightarrow> None | Some st \<Rightarrow> SocketReady st),
      dxs_send = (\<lambda>(dev, s) off n reg w. with_handle dev (on_client dev (SendSocket_Send send s off n reg) w)),
      dxs_recv = (\<lambda>(dev, s) off n reg w. with_handle dev (on_client dev (RecvLinearized send s off n reg) w)),
      test_send = (\<lambda>(dev, op) w. case outstanding_send_ops (dw_client w dev) op of
                     None \<Rightarrow> None | Some st \<Rightarrow> SendOp_Test st),
      test_recv = (\<lambda>(dev, op) w. case outstanding_linearized_recv_ops (dw_client w dev) op of
                     None \<Rightarrow> None | Some st \<Rightarrow> LinearizedRecvOp_Test st),
      completion_time = (\<lambda>is_send (dev, op) w.
         if is_send then case outstanding_send_ops (dw_client w dev) op of
                           None \<Rightarrow> None | Some st \<Rightarrow> so_completion_time st
         else case outstanding_linearized_recv_ops (dw_client w dev) op of
                None \<Rightarrow> None | Some st \<Rightarrow> ro_completion_time st),
      close_op = (\<lambda>is_send (dev, op) w.
         w\<lparr>dw_client := (dw_client w)(dev :=
             (if is_send then destroy_SendOp else destroy_LinearizedRecvOp) op (dw_client w dev))\<rparr>),
      close_sock = (\<lambda>is_send (dev, s) w.
         snd (on_client dev (\<lambda>st. ((), (if is_send then destroy_SendSocket else destroy_RecvSocket) send s st)) w)),
      close_listen = (\<lambda>(dev, l) w. snd (on_client dev (\<lambda>s'. ((), destroy_ListenSocket send l s')) w))\<rparr>"

text \<open>A packet with its time of arrival at the client of an interface.\<close>

definition packet_arrives :: "int \<Rightarrow> int \<times> u8 list \<Rightarrow> 'h dxs_world \<Rightarrow> 'h dxs_world" where
  "packet_arrives dev p w =
     w\<lparr>dw_client := (dw_client w)(dev := DxsClient_ReceiveControlMessage (fst p) (snd p) (dw_client w dev))\<rparr>"

definition op_acked :: "bool \<Rightarrow> u64 \<Rightarrow> u8 list \<Rightarrow> bool" where
  "op_acked send op buffer =
     (case decode_message buffer of
        Some (Msg_SendAck m) \<Rightarrow> send \<and> send_ack_op_id m = op
      | Some (Msg_RecvAck m) \<Rightarrow> \<not> send \<and> recv_ack_op_id m = op
      | _ \<Rightarrow> False)"

definition op_completed :: "bool \<Rightarrow> u64 \<Rightarrow> u64 \<Rightarrow> u8 list \<Rightarrow> bool" where
  "op_completed send op n buffer =
     (case decode_message buffer of
        Some (Msg_SendAck m) \<Rightarrow> send \<and> send_ack_op_id m = op \<and> send_ack_status m = kComplete
      | Some (Msg_RecvAck m) \<Rightarrow> \<not> send \<and> recv_ack_op_id m = op \<and> recv_ack_status m = kComplete \<and> recv_ack_size m = n
      | _ \<Rightarrow> False)"

section \<open>From scheduling to completion\<close>

definition op_pending :: "bool \<Rightarrow> u64 \<Rightarrow> DxsClient \<Rightarrow> bool" where
  "op_pending send op c \<longleftrightarrow>
     (if send then outstanding_send_ops c op = Some new_SendOpState
      else outstanding_linearized_recv_ops c op = Some new_RecvOpState)"

lemma SendSocket_Send_pending:
  "SendSocket_Send send s off n reg (c, h) = (Inr op, c', h') \<Longrightarrow> op_pending True op c'"
  by (auto simp: SendSocket_Send_def op_pending_def RegisterSendOp_def Let_def split: prod.splits if_splits)

lemma RecvLinearized_pending:
  "RecvLinearized send s off n reg (c, h) = (Inr op, c', h') \<Longrightarrow> op_pending False op c'"
  by (auto simp: RecvLinearized_def op_pending_def RegisterLinearizedRecvOp_def Let_def split: prod.splits if_splits)

lemma packet_pending:
  assumes "op_pending send op c" and "\<not> op_acked send op buffer"
  shows "op_pending send op (DxsClient_ReceiveControlMessage now buffer c)"
proof (cases "decode_message buffer")
  case None
  then show ?thesis using assms(1) by (simp add: packet_undecodable)
next
  case (Some m)
  show ?thesis
  proof (cases send)
    case True
    then show ?thesis
      using assms Some acked_send_ops [of buffer] unacked_send_ops [of buffer]
      by (cases "\<exists>a. m = Msg_SendAck a") (auto simp: op_pending_def op_acked_def)
  next
    case False
    then show ?thesis
      using assms Some acked_recv_ops [of buffer] unacked_recv_ops [of buffer]
      by (cases "\<exists>a. m = Msg_RecvAck a") (auto simp: op_pending_def op_acked_def)
  qed
qed

lemma packets_pending:
  assumes "op_pending send op (dw_client w dev)" and "\<And>p. p \<in> set ps \<Longrightarrow> \<not> op_acked send op (snd p)"
  shows "op_pending send op (dw_client (fold (packet_arrives dev) ps w) dev)"
  using assms
proof (induction ps arbitrary: w)
  case (Cons p ps)
  have "op_pending send op (dw_client (packet_arrives dev p w) dev)"
    using packet_pending [OF Cons.prems(1)] Cons.prems(2) [of p] by (simp add: packet_arrives_def)
  from Cons.IH [OF this] Cons.prems(2) show ?case by simp
qed simp

lemma scheduled_op_pending:
  assumes "(if is_send then dxs_send (dxs_client_ops send pack nic_addr tick)
      else dxs_recv (dxs_client_ops send pack nic_addr tick)) sock off n reg w = (Inr op, w')"
  shows "op_pending is_send (snd op) (dw_client w' (fst op))"
proof (cases is_send)
  case True
  obtain dev s where sock: "sock = (dev, s)" by fastforce
  obtain r c h where call: "SendSocket_Send send s off n reg (dw_client w dev, dw_channel w dev) = (r, c, h)"
    by (metis surj_pair)
  have "r = Inr (snd op)" "fst op = dev" "dw_client w' dev = c"
    using assms True call by (auto simp: dxs_client_ops_def sock on_client_def with_handle_def map_sum_def split: sum.splits)
  then show ?thesis using SendSocket_Send_pending call True by auto
next
  case False
  obtain dev s where sock: "sock = (dev, s)" by fastforce
  obtain r c h where call: "RecvLinearized send s off n reg (dw_client w dev, dw_channel w dev) = (r, c, h)"
    by (metis surj_pair)
  have "r = Inr (snd op)" "fst op = dev" "dw_client w' dev = c"
    using assms False call by (auto simp: dxs_client_ops_def sock on_client_def with_handle_def map_sum_def split: sum.splits)
  then show ?thesis using RecvLinearized_pending call False by auto
qed

text \<open>The client after the packet that completes a pending operation.\<close>

lemma completed_test:
  fixes now :: int
  assumes "op_pending is_send op c" and "op_completed is_send op n buffer"
  defines "c' \<equiv> DxsClient_ReceiveControlMessage now buffer c"
  shows "if is_send then map_option SendOp_Test (outstanding_send_ops c' op) = Some (Some kOk)
    else map_option LinearizedRecvOp_Test (outstanding_linearized_recv_ops c' op) = Some (Some (Inr n))"
proof -
  obtain m where m: "decode_message buffer = Some m" using assms(2) by (auto simp: op_completed_def split: option.splits)
  show ?thesis
    using assms(1,2) m acked_send_ops [of buffer _ now c] acked_recv_ops [of buffer _ now c] unfolding c'_def
    by (cases m) (auto simp: op_pending_def op_completed_def ack_send_op_def ack_recv_op_def SendOp_Test_def
        LinearizedRecvOp_Test_def kComplete_def kPending_def)
qed

lemma packet_arrives_client:
  "dw_client (packet_arrives dev p w) dev = DxsClient_ReceiveControlMessage (fst p) (snd p) (dw_client w dev)"
  by (simp add: packet_arrives_def)

lemma dxs_client_ops_tests:
  "test_send (dxs_client_ops send pack nic_addr tick) (dev, op) w =
     (case outstanding_send_ops (dw_client w dev) op of None \<Rightarrow> None | Some st \<Rightarrow> SendOp_Test st)"
  "test_recv (dxs_client_ops send pack nic_addr tick) (dev, op) w =
     (case outstanding_linearized_recv_ops (dw_client w dev) op of None \<Rightarrow> None | Some st \<Rightarrow> LinearizedRecvOp_Test st)"
  by (simp_all add: dxs_client_ops_def)

section \<open>Properties\<close>

text \<open>
  C4: a request that was scheduled on a DXS client completes exactly with the acknowledgement of its
  operation: whatever packets that do not concern it arrive before, when the server reports it
  complete, testing it returns its size, for a receive the size the server reports.
\<close>

theorem request_completes:
  assumes "(if comm_send comm then NcclShim_Isend else NcclShim_Irecv) env
      (dxs_client_ops send pack nic_addr tick) comm base len mhandle w = (Inr q, comm', w1)"
    and "\<And>p. p \<in> set ps \<Longrightarrow> \<not> op_acked (comm_send comm) (snd (req_op q)) (snd p)"
    and "op_completed (comm_send comm) (snd (req_op q)) n (snd ack)"
  shows "fst (NcclShim_Test (dxs_client_ops send pack nic_addr tick) shim q comm'
      (fold (packet_arrives (fst (req_op q))) (ps @ [ack]) w1))
    = Inr (Some (ucast (if comm_send comm then len else n)))"
proof -
  let ?ops = "dxs_client_ops send pack nic_addr tick"
  let ?w = "fold (packet_arrives (fst (req_op q))) (ps @ [ack]) w1"
  have "GetRequest env ?ops comm base len mhandle w = (Inr q, comm', w1)"
    using assms(1) by (simp add: NcclShim_Isend_def NcclShim_Irecv_def split: if_splits)
  then show ?thesis
  proof (cases rule: GetRequest_cases)
    case (scheduled q' w2)
    have q': "q' = q" using scheduled(1) by simp
    note pending = packets_pending [where ps = ps, OF scheduled_op_pending [OF scheduled(5) [unfolded q']] assms(2)]
    note test = completed_test [OF pending assms(3), where now = "fst ack"]
    note dir = scheduled(2)
    obtain dev op where op: "req_op q = (dev, op)" by fastforce
    show ?thesis
    proof (cases "comm_send comm")
      case True
      then have "test_send ?ops (req_op q) ?w = Some kOk"
        using test by (auto simp: dxs_client_ops_tests op packet_arrives_client)
      then show ?thesis
        using True scheduled(6) by (simp add: NcclShim_Test_def pollFromDxs_def dir q' Let_def split: prod.split)
    next
      case False
      then have "test_recv ?ops (req_op q) ?w = Some (Inr n)"
        using test by (auto simp: dxs_client_ops_tests op packet_arrives_client)
      then show ?thesis
        using False by (simp add: NcclShim_Test_def pollFromDxs_def dir Let_def split: prod.split)
    qed
  qed simp
qed

definition demo_dxs_world :: "unit dxs_world" where
  "demo_dxs_world = \<lparr>dw_client = (\<lambda>_. new_DxsClient True), dw_channel = (\<lambda>_. ()), dw_time = 5\<rparr>"

abbreviation demo_dxs_ops :: "unit dxs_world dxs_ops" where
  "demo_dxs_ops \<equiv> dxs_client_ops (\<lambda>bs h. (kOk, h)) (\<lambda>addr port. Inl kInternal) (\<lambda>dev. []) (\<lambda>w. w)"

definition demo_ack :: "u8 list" where
  "demo_ack = RecvAckMessage_bytes \<lparr>recv_ack_op_id = 1000, recv_ack_status = kComplete, recv_ack_size = 60,
     recv_ack_req_status = 0\<rparr>"

lemma demo_irecv:
  "\<exists>q comm' w1. NcclShim_Irecv demo_shim_env demo_dxs_ops (demo_comm False) 8292 100 demo_mhandle demo_dxs_world
      = (Inr q, comm', w1) \<and> req_op q = (0, 1000)"
  by (simp add: NcclShim_Irecv_def GetRequest_def capture_interval_def demo_shim_env_def dxs_client_ops_def
      demo_comm_def demo_ops_def demo_mhandle_def new_Communication_def Let_def demo_dxs_world_def on_client_def
      with_handle_def RecvLinearized_def new_DxsClient_def)

theorem request_completes_witness:
  "\<exists>q comm' w1. NcclShim_Irecv demo_shim_env demo_dxs_ops (demo_comm False) 8292 100 demo_mhandle demo_dxs_world
      = (Inr q, comm', w1) \<and>
    fst (NcclShim_Test demo_dxs_ops demo_shim q comm' (fold (packet_arrives 0) [(6, []), (7, demo_ack)] w1))
    = Inr (Some 60)"
proof -
  from demo_irecv obtain q comm' w1 where
    q: "NcclShim_Irecv demo_shim_env demo_dxs_ops (demo_comm False) 8292 100 demo_mhandle demo_dxs_world
      = (Inr q, comm', w1)" "req_op q = (0, 1000)" by blast
  have dir: "\<not> comm_send (demo_comm False)" by (simp add: demo_comm_def new_Communication_def demo_ops_def)
  have ack: "op_completed False 1000 60 demo_ack"
    by (simp add: op_completed_def demo_ack_def decode_ack_bytes)
  have "fst (NcclShim_Test demo_dxs_ops demo_shim q comm'
      (fold (packet_arrives (fst (req_op q))) ([(6, [])] @ [(7, demo_ack)]) w1))
    = Inr (Some (ucast (if comm_send (demo_comm False) then 100 else 60 :: u64)))"
    by (rule request_completes) (use q dir ack in \<open>simp_all add: op_acked_def decode_message_Nil\<close>)
  then show ?thesis using q dir by simp
qed

end
