(* ===== verification/Plugin_Api.thy ===== *)
theory Plugin_Api
  imports Nccl_Shim
begin

unbundle bit_operations_syntax

text \<open>
  The functions NCCL calls, \<^verbatim>\<open>fastrak_plugin.cc\<close>, and the parameters read from the environment,
  \<^verbatim>\<open>const_params.h\<close> and \<^verbatim>\<open>params.cc\<close>. A pointer argument is an option or, for a result the caller may not
  want, a flag.
\<close>

section \<open>Parameters\<close>

record ParamData =
  param_default :: int
  param_min :: int
  param_max :: int

definition const_params :: "(string \<times> ParamData) list" where
  "const_params = map (\<lambda>(n, d, lo, hi). (n, \<lparr>param_default = d, param_min = lo, param_max = hi\<rparr>))
     [(''FASTRAK_ENABLE'', 1, 0, 1),
      (''FASTRAK_DATA_TRANSFER_TIMEOUT_MS'', 2 * 60 * 60000, 0, 86400000),
      (''FASTRAK_DATA_TRANSFER_SLOWNESS_MS'', 5 * 60000, 1, 86400000),
      (''FASTRAK_PLUGIN_CONNECT_TIMEOUT_MS'', 5 * 60000, 0, 86400000),
      (''FASTRAK_PLUGIN_ACCEPT_TIMEOUT_MS'', 15 * 60000, 0, 86400000),
      (''FASTRAK_ENABLE_HOTPATH_LOGGING'', 0, 0, 1),
      (''FASTRAK_NUM_FLOWS'', 2, 1, int kFastrakMaxNumFlows),
      (''FASTRAK_RAIL_ALIGNED'', 1, 0, 1),
      (''FASTRAK_CLOSE_SEND_ON_DONE'', 0, 0, 1),
      (''FASTRAK_CACHE_MR'', 1, 0, 1),
      (''FASTRAK_USE_LLCM'', 0, 0, 1),
      (''FASTRAK_DUMP_COMM_STATS'', 1, 0, 1),
      (''FASTRAK_ENABLE_SEND_STATS'', 0, 0, 1),
      (''FASTRAK_SEND_STATS_INTERVAL'', 1000000, 1, 1000000000),
      (''FASTRAK_RXDM_INIT_TIMEOUT'', 30, 0, 86400),
      (''FASTRAK_ALLOW_NIC_SUBSET'', 0, 0, 1),
      (''NET_PLUGIN_TELEMETRY_MODE'', 0, 0, 4),
      (''FASTRAK_LOG_CONNECTION_INFO'', 0, 0, 1)]"

text \<open>\<open>getenv\<close> reads the environment and \<open>atoi\<close> is \<^verbatim>\<open>absl::SimpleAtoi\<close>; \<open>slot\<close> is the value before.\<close>

definition InitParam ::
    "(string \<Rightarrow> string option) \<Rightarrow> (string \<Rightarrow> int option) \<Rightarrow> string \<Rightarrow> ParamData \<Rightarrow> int \<Rightarrow> int" where
  "InitParam getenv atoi name data slot =
     (case getenv (''NCCL_'' @ name) of
        None \<Rightarrow> slot
      | Some str \<Rightarrow>
          if str = [] then slot
          else case atoi str of
                 None \<Rightarrow> slot
               | Some tmp \<Rightarrow> if tmp < param_min data \<or> tmp > param_max data then slot else tmp)"

definition InitParams :: "(string \<Rightarrow> string option) \<Rightarrow> (string \<Rightarrow> int option) \<Rightarrow> string \<rightharpoonup> int" where
  "InitParams getenv atoi =
     map_of (map (\<lambda>(name, data). (name, InitParam getenv atoi name data (param_default data))) const_params)"

section \<open>The shims of the GPUs\<close>

text \<open>
  \<^verbatim>\<open>NcclShim::Create\<close>: the GPU, its index in the host and the closest interface, with the clients of that
  interface. The number of devices, the GPU and its index come from CUDA and the tables of \<^verbatim>\<open>common.cc\<close>.
\<close>

definition NcclShim_Create ::
    "'w shim_env \<Rightarrow> (string \<rightharpoonup> int) \<Rightarrow> StatusCode \<Rightarrow> string StatusOr \<Rightarrow> (string \<Rightarrow> u8 StatusOr) \<Rightarrow> 'w
      \<Rightarrow> NcclShim StatusOr \<times> 'w" where
  "NcclShim_Create env params device_count init_gpu GetFastrakIdxFromPci w =
     (let ms = (\<lambda>name. the (params name) * 1000000);
          make = (\<lambda>idx dev. Inr \<lparr>netdev = dev, fastrak_idx = idx,
                    connect_timeout = ms ''FASTRAK_PLUGIN_CONNECT_TIMEOUT_MS'',
                    accept_timeout = ms ''FASTRAK_PLUGIN_ACCEPT_TIMEOUT_MS'',
                    data_transfer_timeout = ms ''FASTRAK_DATA_TRANSFER_TIMEOUT_MS'', comm_counter = 0\<rparr>)
      in if params ''FASTRAK_ENABLE'' = Some 0 then (Inl kFailedPrecondition, w)
         else if device_count \<noteq> kOk then (Inl device_count, w)
         else case init_gpu of
                Inl e \<Rightarrow> (Inl e, w)
              | Inr pci \<Rightarrow>
                  (case GetFastrakIdxFromPci pci of
                     Inl e \<Rightarrow> (Inl e, w)
                   | Inr idx \<Rightarrow>
                       (case getClosestNetdev env pci of
                          Inl e \<Rightarrow> if params ''FASTRAK_ALLOW_NIC_SUBSET'' = Some 0 then (Inl e, w)
                                   else (make idx (- 1), w)
                        | Inr dev \<Rightarrow>
                            (case GetDxsClient env dev w of
                               (e, w) \<Rightarrow>
                                 if e \<noteq> kOk then (Inl e, w)
                                 else case GetBufferManagerClient env dev w of
                                        (e, w) \<Rightarrow> if e \<noteq> kOk then (Inl e, w) else (make idx dev, w)))))"

record ncclNetProperties =
  prop_name :: string
  prop_guid :: int
  prop_ptr_support :: u32
  prop_speed :: int
  prop_port :: int
  prop_max_comms :: int
  prop_max_recvs :: int

definition GetProperties ::
    "'w shim_env \<Rightarrow> (int \<Rightarrow> string) \<Rightarrow> (string \<Rightarrow> int) \<Rightarrow> int \<Rightarrow> ncclNetProperties StatusOr" where
  "GetProperties env dev_name GetSpeed dev =
     (if dev < 0 \<or> dev \<ge> kNcclNetIfs env then Inl kInvalidArgument
      else Inr \<lparr>prop_name = dev_name dev, prop_guid = dev, prop_ptr_support = ptr_host env OR ptr_gpu env,
                prop_speed = GetSpeed (dev_name dev), prop_port = 0, prop_max_comms = 65536, prop_max_recvs = 1\<rparr>)"

definition ToNccl :: "StatusCode \<Rightarrow> ncclResult" where
  "ToNccl status = ncclSystemError"

definition kMaxGpuDevices :: nat where "kMaxGpuDevices = 8"

text \<open>\<open>create\<close> is \<^verbatim>\<open>NcclShim::Create\<close>; the table has one shim per GPU.\<close>

type_synonym per_gpu_clients = "nat \<rightharpoonup> NcclShim"

definition init_shim ::
    "('w \<Rightarrow> NcclShim StatusOr \<times> 'w) \<Rightarrow> nat \<Rightarrow> per_gpu_clients \<Rightarrow> 'w \<Rightarrow> StatusCode \<times> per_gpu_clients \<times> 'w" where
  "init_shim create device clients w =
     (if clients device \<noteq> None then (kOk, clients, w)
      else case create w of
             (Inl e, w) \<Rightarrow> (e, clients, w)
           | (Inr shim, w) \<Rightarrow> (kOk, clients(device \<mapsto> shim), w))"

text \<open>\<open>None\<close> is the abort of the process.\<close>

definition Plugin_Init ::
    "('w \<Rightarrow> StatusCode \<times> 'w) \<Rightarrow> ('w \<Rightarrow> int StatusOr) \<Rightarrow> ('w \<Rightarrow> NcclShim StatusOr \<times> 'w) \<Rightarrow> per_gpu_clients \<Rightarrow> 'w
      \<Rightarrow> (ncclResult \<times> per_gpu_clients \<times> 'w) option" where
  "Plugin_Init core_init device_index create clients w =
     (case core_init w of
        (e, w) \<Rightarrow>
          if e \<noteq> kOk then None
          else case device_index w of
                 Inl _ \<Rightarrow> None
               | Inr device \<Rightarrow>
                   if device < 0 \<or> device \<ge> int kMaxGpuDevices then None
                   else case init_shim create (nat device) clients w of
                          (e, clients, w) \<Rightarrow> if e \<noteq> kOk then None else Some (ncclSuccess, clients, w))"

definition GetShim ::
    "('w \<Rightarrow> int StatusOr) \<Rightarrow> ('w \<Rightarrow> NcclShim StatusOr \<times> 'w) \<Rightarrow> per_gpu_clients \<Rightarrow> 'w
      \<Rightarrow> NcclShim StatusOr \<times> per_gpu_clients \<times> 'w" where
  "GetShim device_index create clients w =
     (case device_index w of
        Inl e \<Rightarrow> (Inl e, clients, w)
      | Inr device \<Rightarrow>
          if device < 0 \<or> device \<ge> int kMaxGpuDevices then (Inl kInternal, clients, w)
          else case clients (nat device) of
                 Some shim \<Rightarrow> (Inr shim, clients, w)
               | None \<Rightarrow>
                   (case init_shim create (nat device) clients w of
                      (e, clients, w) \<Rightarrow>
                        if e \<noteq> kOk then (Inl e, clients, w) else (Inr (the (clients (nat device))), clients, w)))"

section \<open>Calls\<close>

text \<open>
  The result of \<^verbatim>\<open>Connect\<close>: what is stored in \<^verbatim>\<open>*sendComm\<close>, if anything, and the handle copied back to the
  caller on every path after it was read.
\<close>

definition Plugin_Connect ::
    "'w shim_env \<Rightarrow> 'w dxs_ops \<Rightarrow> NcclShim StatusOr \<Rightarrow> int \<Rightarrow> ncclSocketHandle option \<Rightarrow> bool \<Rightarrow> bool \<Rightarrow> 'w
      \<Rightarrow> ncclResult \<times> Communication option \<times> NcclShim StatusOr \<times> ncclSocketHandle option \<times> 'w" where
  "Plugin_Connect env ops get_shim dev opaque send_comm send_dev_comm w =
     (case (get_shim, opaque) of
        (Inr shim, Some handle) \<Rightarrow>
          if \<not> send_comm \<or> \<not> send_dev_comm then (ToNccl kInvalidArgument, None, get_shim, opaque, w)
          else if sh_version handle \<noteq> kNcclSocketHandleVersion then (ncclRemoteError, None, get_shim, opaque, w)
          else if sh_fastrak_idx handle = kFastrakInvalidIdx then (ncclRemoteError, None, get_shim, opaque, w)
          else (case NcclShim_Connect env ops shim dev handle w of
                  (Inl e, shim, handle, w) \<Rightarrow> (ToNccl e, None, Inr shim, Some handle, w)
                | (Inr comm, shim, handle, w) \<Rightarrow> (ncclSuccess, comm, Inr shim, Some handle, w))
      | (Inl e, _) \<Rightarrow> (ToNccl e, None, get_shim, opaque, w)
      | (_, None) \<Rightarrow> (ToNccl kInvalidArgument, None, get_shim, opaque, w))"

definition Plugin_Accept ::
    "'w shim_env \<Rightarrow> 'w dxs_ops \<Rightarrow> NcclShim StatusOr \<Rightarrow> ListenCommunication option \<Rightarrow> bool \<Rightarrow> bool \<Rightarrow> 'w
      \<Rightarrow> ncclResult \<times> Communication option \<times> NcclShim StatusOr \<times> ListenCommunication option \<times> 'w" where
  "Plugin_Accept env ops get_shim listen_comm recv_comm recv_dev_comm w =
     (case (get_shim, listen_comm) of
        (Inr shim, Some lc) \<Rightarrow>
          if \<not> recv_comm \<or> \<not> recv_dev_comm then (ToNccl kInvalidArgument, None, get_shim, listen_comm, w)
          else (case NcclShim_Accept env ops shim lc w of
                  (Inl e, shim, lc, w) \<Rightarrow> (ToNccl e, None, Inr shim, Some lc, w)
                | (Inr comm, shim, lc, w) \<Rightarrow> (ncclSuccess, comm, Inr shim, Some lc, w))
      | (Inl e, _) \<Rightarrow> (ToNccl e, None, get_shim, listen_comm, w)
      | (_, None) \<Rightarrow> (ToNccl kInvalidArgument, None, get_shim, listen_comm, w))"

text \<open>The size of NCCL is an \<^verbatim>\<open>int\<close> that becomes a \<^verbatim>\<open>size_t\<close>.\<close>

definition Plugin_Isend ::
    "'w shim_env \<Rightarrow> 'w dxs_ops \<Rightarrow> Communication option \<Rightarrow> u64 \<Rightarrow> i32 \<Rightarrow> MemoryHandle option \<Rightarrow> bool \<Rightarrow> 'w
      \<Rightarrow> ncclResult \<times> ncclSocketRequest option \<times> Communication option \<times> 'w" where
  "Plugin_Isend env ops send_comm data n opaque request w =
     (case (send_comm, opaque) of
        (Some comm, Some mhandle) \<Rightarrow>
          if \<not> request then (ToNccl kInvalidArgument, None, send_comm, w)
          else (case NcclShim_Isend env ops comm data (scast n) mhandle w of
                  (Inl e, comm, w) \<Rightarrow> (ToNccl e, None, Some comm, w)
                | (Inr q, comm, w) \<Rightarrow> (ncclSuccess, Some q, Some comm, w))
      | _ \<Rightarrow> (ToNccl kInvalidArgument, None, send_comm, w))"

text \<open>The arrays of \<^verbatim>\<open>Irecv\<close>: addresses, sizes and handles; tags are not used.\<close>

definition Plugin_Irecv ::
    "'w shim_env \<Rightarrow> 'w dxs_ops \<Rightarrow> Communication option \<Rightarrow> int \<Rightarrow> u64 list option \<Rightarrow> i32 list option \<Rightarrow> bool
      \<Rightarrow> MemoryHandle option list option \<Rightarrow> bool \<Rightarrow> 'w
      \<Rightarrow> ncclResult \<times> ncclSocketRequest option \<times> Communication option \<times> 'w" where
  "Plugin_Irecv env ops recv_comm n data sizes tags opaque request w =
     (if n \<noteq> 1 then (ncclSystemError, None, recv_comm, w)
      else case (recv_comm, data, sizes, opaque) of
        (Some comm, Some ds, Some ns, Some hs) \<Rightarrow>
          if \<not> tags then (ToNccl kInvalidArgument, None, recv_comm, w)
          else (case hs ! 0 of
                  None \<Rightarrow> (ToNccl kInvalidArgument, None, recv_comm, w)
                | Some mhandle \<Rightarrow>
                    if \<not> request then (ToNccl kInvalidArgument, None, recv_comm, w)
                    else (case NcclShim_Irecv env ops comm (ds ! 0) (scast (ns ! 0)) mhandle w of
                            (Inl e, comm, w) \<Rightarrow> (ToNccl e, None, Some comm, w)
                          | (Inr q, comm, w) \<Rightarrow> (ncclSuccess, Some q, Some comm, w)))
      | _ \<Rightarrow> (ToNccl kInvalidArgument, None, recv_comm, w))"

text \<open>\<^verbatim>\<open>Test\<close>: the result and what is stored in \<^verbatim>\<open>*done\<close> and \<^verbatim>\<open>*size\<close>.\<close>

definition Plugin_Test ::
    "'w dxs_ops \<Rightarrow> NcclShim \<Rightarrow> ncclSocketRequest option \<Rightarrow> bool \<Rightarrow> bool \<Rightarrow> Communication \<Rightarrow> 'w
      \<Rightarrow> ncclResult \<times> bool option \<times> i32 option \<times> ncclSocketRequest option \<times> Communication \<times> 'w" where
  "Plugin_Test ops shim request done_ptr size_ptr comm w =
     (case request of
        None \<Rightarrow> (ToNccl kInvalidArgument, None, None, None, comm, w)
      | Some req \<Rightarrow>
          if \<not> done_ptr then (ToNccl kInvalidArgument, None, None, request, comm, w)
          else if req_error req then (ToNccl kInternal, None, None, request, comm, w)
          else case NcclShim_Test ops shim req comm w of
                 (Inl e, req, comm, w) \<Rightarrow>
                   (ToNccl e, Some True, if size_ptr then Some 0 else None, Some (req\<lparr>req_error := True\<rparr>), comm, w)
               | (Inr result, req, comm, w) \<Rightarrow>
                   (ncclSuccess, Some (result \<noteq> None),
                    if size_ptr then Some (case result of None \<Rightarrow> 0 | Some n \<Rightarrow> n) else None, Some req, comm, w))"

definition Plugin_RegMrDmaBuf ::
    "'s regbuf \<Rightarrow> 'f mr_env \<Rightarrow> bool \<Rightarrow> u64 \<Rightarrow> u64 \<Rightarrow> u32 \<Rightarrow> int option \<Rightarrow> bool \<Rightarrow> ncclMrCache \<Rightarrow> 's \<Rightarrow> 'f
      \<Rightarrow> (ncclResult \<times> MemoryHandle option \<times> ncclMrCache \<times> 's \<times> 'f) option" where
  "Plugin_RegMrDmaBuf regbuf env reg_comm data n type fd opaque cache s f =
     (if \<not> reg_comm \<or> \<not> opaque then Some (ToNccl kInvalidArgument, None, cache, s, f)
      else case RegMrDmaBuf regbuf env data n type fd cache s f of
             None \<Rightarrow> None
           | Some (Inl e, cache, s, f) \<Rightarrow> Some (ToNccl e, None, cache, s, f)
           | Some (Inr mh, cache, s, f) \<Rightarrow> Some (ncclSuccess, Some mh, cache, s, f))"

definition Plugin_RegMr ::
    "'s regbuf \<Rightarrow> 'f mr_env \<Rightarrow> bool \<Rightarrow> u64 \<Rightarrow> i32 \<Rightarrow> u32 \<Rightarrow> bool \<Rightarrow> ncclMrCache \<Rightarrow> 's \<Rightarrow> 'f
      \<Rightarrow> (ncclResult \<times> MemoryHandle option \<times> ncclMrCache \<times> 's \<times> 'f) option" where
  "Plugin_RegMr regbuf env reg_comm data n type opaque cache s f =
     Plugin_RegMrDmaBuf regbuf env reg_comm data (scast n) type None opaque cache s f"

definition Plugin_DeregMr ::
    "'s deregbuf \<Rightarrow> 'f mr_env \<Rightarrow> bool \<Rightarrow> MemoryHandle option \<Rightarrow> ncclMrCache \<Rightarrow> 's \<Rightarrow> 'f
      \<Rightarrow> (ncclResult \<times> ncclMrCache \<times> 's \<times> 'f) option" where
  "Plugin_DeregMr deregbuf env dereg_comm opaque cache s f =
     (case opaque of
        None \<Rightarrow> Some (ToNccl kInvalidArgument, cache, s, f)
      | Some mh \<Rightarrow>
          if \<not> dereg_comm then Some (ToNccl kInvalidArgument, cache, s, f)
          else case DeregMr deregbuf env mh cache s f of
                 None \<Rightarrow> None
               | Some (e, cache, s, f) \<Rightarrow> Some (if e \<noteq> kOk then ToNccl e else ncclSuccess, cache, s, f))"

section \<open>Properties\<close>

text \<open>
  Whatever the environment holds, every parameter is set and within its range; the number of
  flows is between 1 and the size of the arrays of flows.
\<close>

theorem InitParams_in_range:
  assumes "(name, data) \<in> set const_params"
  shows "\<exists>v. InitParams getenv atoi name = Some v \<and> param_min data \<le> v \<and> v \<le> param_max data"
proof -
  have distinct: "distinct (map fst const_params)"
    by (simp add: const_params_def)
  have default: "\<forall>(name, data) \<in> set const_params. param_min data \<le> param_default data \<and> param_default data \<le> param_max data"
    by (simp add: const_params_def kFastrakMaxNumFlows_def)
  have "InitParams getenv atoi name = Some (InitParam getenv atoi name data (param_default data))"
    unfolding InitParams_def
    by (rule map_of_is_SomeI) (use assms distinct in \<open>auto simp: comp_def case_prod_beta' intro: rev_image_eqI\<close>)
  moreover have "param_min data \<le> InitParam getenv atoi name data (param_default data) \<and>
      InitParam getenv atoi name data (param_default data) \<le> param_max data"
    using default assms by (auto simp: InitParam_def split: option.split)
  ultimately show ?thesis by blast
qed

theorem InitParams_in_range_witness:
  "\<exists>v. InitParams (\<lambda>n. Some ''9'') (\<lambda>s. Some 9) ''FASTRAK_NUM_FLOWS'' = Some v \<and> 1 \<le> v \<and> v \<le> 8"
  using InitParams_in_range [of "''FASTRAK_NUM_FLOWS''" "\<lparr>param_default = 2, param_min = 1, param_max = 8\<rparr>"
      "\<lambda>n. Some ''9''" "\<lambda>s. Some 9"]
  by (simp add: const_params_def kFastrakMaxNumFlows_def)

text \<open>
  A request whose test reported an error reports one ever after, without being tested again.
\<close>

lemma Plugin_Test_error_stays:
  assumes "Plugin_Test ops shim (Some req) True size_ptr comm w = (r, d, n, Some req', comm', w')" and "r \<noteq> ncclSuccess"
  shows "Plugin_Test ops shim (Some req') True size_ptr' comm' w'' = (ncclSystemError, None, None, Some req', comm', w'')"
  using assms by (auto simp: Plugin_Test_def ToNccl_def split: if_splits prod.splits sum.splits)

text \<open>The shim of a GPU, once made, is the one every later call gets.\<close>

lemma GetShim_same:
  assumes "GetShim device_index create clients w = (Inr shim, clients', w')" and "device_index w'' = device_index w"
    and "\<And>w w'. create w \<noteq> (Inl kOk, w')"
  shows "GetShim device_index create clients' w'' = (Inr shim, clients', w'')"
  using assms by (fastforce simp: GetShim_def init_shim_def split: sum.splits if_splits option.splits prod.splits)

end
