(* ===== verification/Unix_Socket.thy ===== *)
theory Unix_Socket
  imports Tcpxo_Prelude
begin

text \<open>
  Messages over Unix domain sockets between the plugin and the daemon: the framing of
  \<^verbatim>\<open>common/unix_socket_connection.cc\<close>, the server of \<^verbatim>\<open>unix_socket_server.cc\<close>, the request loop of
  \<^verbatim>\<open>client/unix_socket_client.cc\<close> and the addresses of \<^verbatim>\<open>common/uds_helpers.cc\<close>. A text is sent as its
  length in two bytes, high byte first, followed by its bytes; reads and writes may be short.
\<close>

section \<open>Connections\<close>

datatype SendStatus = DONE | IN_PROGRESS | STOPPED | ERROR

datatype uds_state = STATE_LENGTH | STATE_PAYLOAD

record UnixSocketMessage =
  msg_text :: "u8 list option"
  msg_fd :: "int option"

text \<open>\<open>read_buffer\<close> are the bytes read so far, so that its length is \<^verbatim>\<open>read_offset_\<close>.\<close>

record UnixSocketConnection =
  read_state :: uds_state
  read_length :: nat
  read_buffer :: "u8 list"
  send_state :: uds_state
  send_length :: nat
  send_offset :: nat
  incoming :: "UnixSocketMessage list"
  outgoing :: "UnixSocketMessage list"

text \<open>
  The socket: \<open>sendmsg\<close> takes bytes and a file descriptor and returns the number of bytes taken or a
  negative number; \<open>recvmsg\<close> returns at most so many bytes with a file descriptor, or \<open>None\<close> for an error
  or the end. \<open>close_fd\<close> closes a file descriptor of this process.
\<close>

record 'k uds_socket =
  sendmsg :: "u8 list \<Rightarrow> int option \<Rightarrow> 'k \<Rightarrow> int \<times> 'k"
  recvmsg :: "nat \<Rightarrow> 'k \<Rightarrow> (u8 list \<times> int option) option \<times> 'k"
  close_received :: "int \<Rightarrow> 'k \<Rightarrow> 'k"

definition new_UnixSocketConnection :: UnixSocketConnection where
  "new_UnixSocketConnection =
     \<lparr>read_state = STATE_LENGTH, read_length = 2, read_buffer = [], send_state = STATE_LENGTH, send_length = 0,
      send_offset = 0, incoming = [], outgoing = []\<rparr>"

definition htons_bytes :: "nat \<Rightarrow> u8 list" where
  "htons_bytes n = [of_nat (n div 256), of_nat n]"

definition ntohs_bytes :: "u8 list \<Rightarrow> nat" where
  "ntohs_bytes bs = 256 * unat (bs ! 0) + unat (bs ! 1)"

definition valid_fd :: "int option \<Rightarrow> int option" where
  "valid_fd fd = (case fd of Some n \<Rightarrow> if n > 0 then Some n else None | None \<Rightarrow> None)"

definition Uds_Receive :: "'k uds_socket \<Rightarrow> UnixSocketConnection \<Rightarrow> 'k \<Rightarrow> bool \<times> UnixSocketConnection \<times> 'k" where
  "Uds_Receive so c k =
     (case recvmsg so (read_length c - length (read_buffer c)) k of
        (None, k) \<Rightarrow> (False, c, k)
      | (Some (bytes, fd), k) \<Rightarrow>
          let buffer = read_buffer c @ bytes
          in if length buffer \<noteq> read_length c then (True, c\<lparr>read_buffer := buffer\<rparr>, k)
             else case read_state c of
                    STATE_LENGTH \<Rightarrow>
                      if ntohs_bytes buffer = 0
                      then (True, c\<lparr>read_length := 2, read_buffer := [],
                                   incoming := incoming c @ [\<lparr>msg_text = None, msg_fd = valid_fd fd\<rparr>]\<rparr>, k)
                      else (True, c\<lparr>read_length := ntohs_bytes buffer, read_buffer := [], read_state := STATE_PAYLOAD\<rparr>,
                            case valid_fd fd of None \<Rightarrow> k | Some n \<Rightarrow> close_received so n k)
                  | STATE_PAYLOAD \<Rightarrow>
                      (True, c\<lparr>read_length := 2, read_buffer := [], read_state := STATE_LENGTH,
                              incoming := incoming c @ [\<lparr>msg_text = Some buffer, msg_fd = valid_fd fd\<rparr>]\<rparr>, k))"

definition SendFd :: "'k uds_socket \<Rightarrow> int \<Rightarrow> 'k \<Rightarrow> SendStatus \<times> 'k" where
  "SendFd so fd k = (case sendmsg so (htons_bytes 0) (Some fd) k of (n, k) \<Rightarrow> (DONE, k))"

definition SendText ::
    "'k uds_socket \<Rightarrow> u8 list \<Rightarrow> int option \<Rightarrow> UnixSocketConnection \<Rightarrow> 'k \<Rightarrow> SendStatus \<times> UnixSocketConnection \<times> 'k" where
  "SendText so text fd c k =
     (let c = (if send_state c = STATE_LENGTH \<and> send_offset c = 0 then c\<lparr>send_length := 2\<rparr> else c);
          buffer = (case send_state c of STATE_LENGTH \<Rightarrow> htons_bytes (length text mod 65536)
                                       | STATE_PAYLOAD \<Rightarrow> take (send_length c) text);
          (n, k) = (if send_length c = 0 then (0, k) else sendmsg so (drop (send_offset c) buffer) fd k)
      in if n < 0 then (ERROR, c, k)
         else if send_offset c + nat n \<noteq> send_length c then (STOPPED, c\<lparr>send_offset := send_offset c + nat n\<rparr>, k)
         else case send_state c of
                STATE_LENGTH \<Rightarrow> (IN_PROGRESS, c\<lparr>send_length := length text mod 65536, send_state := STATE_PAYLOAD, send_offset := 0\<rparr>, k)
              | STATE_PAYLOAD \<Rightarrow> (DONE, c\<lparr>send_length := 2, send_state := STATE_LENGTH, send_offset := 0\<rparr>, k))"

text \<open>One round of the loop of \<^verbatim>\<open>Send\<close>, on the message at the head of the queue.\<close>

definition SendOne ::
    "'k uds_socket \<Rightarrow> UnixSocketMessage \<Rightarrow> UnixSocketConnection \<Rightarrow> 'k \<Rightarrow> SendStatus \<times> UnixSocketConnection \<times> 'k" where
  "SendOne so outmsg c k =
     (case msg_text outmsg of
        Some text \<Rightarrow> SendText so text (valid_fd (msg_fd outmsg)) c k
      | None \<Rightarrow>
          (case msg_fd outmsg of
             Some fd \<Rightarrow> (case SendFd so fd k of (status, k) \<Rightarrow> (status, c, k))
           | None \<Rightarrow> (ERROR, c, k)))"

lemma SendText_outgoing [simp]: "SendText so text fd c k = (st, c', k') \<Longrightarrow> outgoing c' = outgoing c"
  by (auto simp: SendText_def Let_def split: prod.splits if_splits uds_state.splits)

lemma SendOne_outgoing: "SendOne so m c k = (st, c', k') \<Longrightarrow> outgoing c' = outgoing c"
  by (auto simp: SendOne_def SendFd_def split: option.splits prod.splits)

lemma SendText_in_progress: "SendText so text fd c k = (IN_PROGRESS, c', k') \<Longrightarrow> send_state c = STATE_LENGTH \<and> send_state c' = STATE_PAYLOAD"
  by (auto simp: SendText_def Let_def split: prod.splits if_splits uds_state.splits)

lemma SendOne_in_progress: "SendOne so m c k = (IN_PROGRESS, c', k') \<Longrightarrow> send_state c = STATE_LENGTH \<and> send_state c' = STATE_PAYLOAD"
  by (auto simp: SendOne_def SendFd_def dest: SendText_in_progress split: option.splits prod.splits)

lemma SendOne_step:
  "(st, c', k') = SendOne so m c k \<Longrightarrow> outgoing c' = outgoing c \<and>
    (st = IN_PROGRESS \<longrightarrow> send_state c = STATE_LENGTH \<and> send_state c' = STATE_PAYLOAD)"
  using SendOne_outgoing [of so m c k st c' k'] SendOne_in_progress [of so m c k c' k'] by auto

function Uds_Send :: "'k uds_socket \<Rightarrow> UnixSocketConnection \<Rightarrow> 'k \<Rightarrow> bool \<times> UnixSocketConnection \<times> 'k" where
  "Uds_Send so c k =
     (case outgoing c of
        [] \<Rightarrow> (True, c, k)
      | outmsg # rest \<Rightarrow>
          (case SendOne so outmsg c k of
             (ERROR, c', k') \<Rightarrow> (False, c', k')
           | (DONE, c', k') \<Rightarrow> Uds_Send so (c'\<lparr>outgoing := tl (outgoing c')\<rparr>) k'
           | (STOPPED, c', k') \<Rightarrow> (True, c', k')
           | (IN_PROGRESS, c', k') \<Rightarrow> Uds_Send so c' k'))"
  by pat_completeness auto
termination
  by (relation "measure (\<lambda>(so, c, k). 2 * length (outgoing c) + (if send_state c = STATE_LENGTH then 1 else 0))")
    (auto dest!: SendOne_step)

declare Uds_Send.simps [simp del]

definition AddMessageToSend :: "UnixSocketMessage \<Rightarrow> UnixSocketConnection \<Rightarrow> UnixSocketConnection" where
  "AddMessageToSend m c = c\<lparr>outgoing := outgoing c @ [m]\<rparr>"

definition ReadMessage :: "UnixSocketConnection \<Rightarrow> UnixSocketMessage \<times> UnixSocketConnection" where
  "ReadMessage c =
     (case incoming c of
        [] \<Rightarrow> (\<lparr>msg_text = None, msg_fd = None\<rparr>, c)
      | m # rest \<Rightarrow> (m, c\<lparr>incoming := rest\<rparr>))"


section \<open>Client and server\<close>

text \<open>
  \<^verbatim>\<open>UnixSocketClient::MakeRequest\<close>: send, then receive until a message is there; a failed send is not
  reported. \<open>errno_status\<close> is the status of the error number. \<open>None\<close> is a call that does not return.
\<close>

partial_function (option) send_pending :: "'k uds_socket \<Rightarrow> UnixSocketConnection \<Rightarrow> 'k \<Rightarrow> (UnixSocketConnection \<times> 'k) option" where
  "send_pending so c k =
     (if outgoing c = [] then Some (c, k)
      else case Uds_Send so c k of (ok, c, k) \<Rightarrow> if ok then send_pending so c k else Some (c, k))"

partial_function (option) await_message ::
    "'k uds_socket \<Rightarrow> ('k \<Rightarrow> StatusCode) \<Rightarrow> UnixSocketConnection \<Rightarrow> 'k
      \<Rightarrow> (StatusCode option \<times> UnixSocketConnection \<times> 'k) option" where
  "await_message so errno_status c k =
     (if incoming c \<noteq> [] then Some (None, c, k)
      else case Uds_Receive so c k of
             (ok, c, k) \<Rightarrow> if ok then await_message so errno_status c k else Some (Some (errno_status k), c, k))"

text \<open>A \<^verbatim>\<open>StatusOr\<close> made from an OK status holds an internal error.\<close>

definition UnixSocketClient_MakeRequest ::
    "'k uds_socket \<Rightarrow> ('k \<Rightarrow> StatusCode) \<Rightarrow> UnixSocketMessage \<Rightarrow> UnixSocketConnection \<Rightarrow> 'k
      \<Rightarrow> (UnixSocketMessage StatusOr \<times> UnixSocketConnection \<times> 'k) option" where
  "UnixSocketClient_MakeRequest so errno_status msg c k =
     (case send_pending so (AddMessageToSend msg c) k of
        None \<Rightarrow> None
      | Some (c, k) \<Rightarrow>
          (case await_message so errno_status c k of
             None \<Rightarrow> None
           | Some (Some e, c, k) \<Rightarrow> Some (Inl (if e = kOk then kInternal else e), c, k)
           | Some (None, c, k) \<Rightarrow> (case ReadMessage c of (m, c) \<Rightarrow> Some (Inr m, c, k))))"

text \<open>
  \<^verbatim>\<open>UnixSocketServer\<close>: the connected clients. The handler of requests and the cleanup are parameters on
  the state \<open>'d\<close> of the service; \<open>accepted\<close> is the result of \<^verbatim>\<open>accept4\<close>, \<open>epoll_in\<close> and \<open>epoll_hup\<close> are the events of the client's socket.
\<close>

type_synonym uds_clients = "int \<rightharpoonup> UnixSocketConnection"

definition Server_RemoveClient :: "int \<Rightarrow> uds_clients \<Rightarrow> uds_clients" where
  "Server_RemoveClient client clients = clients(client := None)"

definition Server_HandleListener ::
    "bool \<Rightarrow> bool \<Rightarrow> int option \<Rightarrow> bool \<times> uds_clients \<Rightarrow> bool \<times> uds_clients" where
  "Server_HandleListener epoll_err epoll_in accepted = (\<lambda>(running, clients).
     if epoll_err then (False, clients)
     else if epoll_in then
       (case accepted of
          None \<Rightarrow> (running, clients)
        | Some client \<Rightarrow> (running, clients(client \<mapsto> new_UnixSocketConnection)))
     else (running, clients))"

definition Server_HandleClient ::
    "'k uds_socket \<Rightarrow> (int \<Rightarrow> UnixSocketMessage \<Rightarrow> 'd \<Rightarrow> UnixSocketMessage \<times> bool \<times> 'd) \<Rightarrow> (int \<Rightarrow> 'd \<Rightarrow> 'd) option
      \<Rightarrow> int \<Rightarrow> bool \<Rightarrow> bool \<Rightarrow> uds_clients \<Rightarrow> 'd \<Rightarrow> 'k \<Rightarrow> uds_clients \<times> 'd \<times> 'k" where
  "Server_HandleClient so service cleanup client epoll_in epoll_hup clients d k =
     (let c = the (clients client);
          (fin, c, d, k) =
            (if \<not> epoll_in then (False, c, d, k)
             else case Uds_Receive so c k of
                    (False, c, k) \<Rightarrow> (True, c, d, k)
                  | (True, c, k) \<Rightarrow>
                      if incoming c = [] then (False, c, d, k)
                      else let (request, c) = ReadMessage c;
                               (response, fin, d) = service client request d;
                               (ok, c, k) = Uds_Send so (AddMessageToSend response c) k
                           in (fin \<or> \<not> ok, c, d, k))
      in if epoll_hup \<or> fin
         then (Server_RemoveClient client (clients(client \<mapsto> c)),
               case cleanup of None \<Rightarrow> d | Some f \<Rightarrow> f client d, k)
         else (clients(client \<mapsto> c), d, k))"

section \<open>Addresses\<close>

text \<open>The path of a socket in the 108 bytes of \<^verbatim>\<open>sun_path\<close>.\<close>

definition kSunPath :: nat where "kSunPath = 108"

definition sun_path :: "string \<Rightarrow> string" where
  "sun_path s = take kSunPath (s @ replicate kSunPath (CHR 0x00))"

definition AbstractUdsSockaddr :: "string \<Rightarrow> string StatusOr" where
  "AbstractUdsSockaddr path =
     (if length path \<ge> kSunPath - 2 then Inl kInvalidArgument else Inr (sun_path (CHR 0x00 # path)))"

definition FileBasedUdsSockaddr :: "string \<Rightarrow> string StatusOr" where
  "FileBasedUdsSockaddr path =
     (if length path \<ge> kSunPath - 1 then Inl kInvalidArgument else Inr (sun_path path))"

definition GetFileBasedUdsPathPrefix :: "string \<Rightarrow> string option \<Rightarrow> string" where
  "GetFileBasedUdsPathPrefix flag env_var =
     (if flag \<noteq> [] then flag else case env_var of None \<Rightarrow> [] | Some s \<Rightarrow> s)"

definition UdsSockaddr :: "string \<Rightarrow> string option \<Rightarrow> string \<Rightarrow> string StatusOr" where
  "UdsSockaddr flag env_var path =
     (if path = [] then Inl kInvalidArgument
      else let prefix = GetFileBasedUdsPathPrefix flag env_var
           in if prefix \<noteq> [] then FileBasedUdsSockaddr (prefix @ ''/'' @ path) else AbstractUdsSockaddr path)"

definition BufOpUdsPath :: "string \<Rightarrow> string" where
  "BufOpUdsPath server_ip_addr = ''rxdm_uds_buf_op:'' @ server_ip_addr"

definition NicIpUdsPath :: "string \<Rightarrow> string" where
  "NicIpUdsPath gpu_pci_sanitized = ''rxdm_uds_nic_ip:'' @ gpu_pci_sanitized"

definition NicMappingUdsPath :: string where
  "NicMappingUdsPath = ''rxdm_uds_nic_mapping''"

section \<open>One direction of a connection\<close>

text \<open>
  The bytes between the two ends and a schedule that says how the next calls of the socket turn
  out: 0 is an error, and \<open>Suc n\<close> a call that moves at most \<open>n\<close> bytes.
\<close>

type_synonym wire = "u8 list \<times> nat list"

definition wire_sendmsg :: "u8 list \<Rightarrow> int option \<Rightarrow> wire \<Rightarrow> int \<times> wire" where
  "wire_sendmsg bytes fd = (\<lambda>(wire, sched).
     case sched of
       [] \<Rightarrow> (int (length bytes), wire @ bytes, [])
     | 0 # sched \<Rightarrow> (- 1, wire, sched)
     | Suc n # sched \<Rightarrow> (int (length (take n bytes)), wire @ take n bytes, sched))"

definition wire_recvmsg :: "nat \<Rightarrow> wire \<Rightarrow> (u8 list \<times> int option) option \<times> wire" where
  "wire_recvmsg len = (\<lambda>(wire, sched).
     let n = min len (case sched of [] \<Rightarrow> len | n # _ \<Rightarrow> n)
     in if take n wire = [] then (None, wire, tl sched) else (Some (take n wire, None), drop n wire, tl sched))"

definition wire_socket :: "wire uds_socket" where
  "wire_socket = \<lparr>sendmsg = wire_sendmsg, recvmsg = wire_recvmsg, close_received = (\<lambda>fd k. k)\<rparr>"

definition text_message :: "u8 list \<Rightarrow> UnixSocketMessage" where
  "text_message t = \<lparr>msg_text = Some t, msg_fd = None\<rparr>"

text \<open>
  The steps of a sender, a receiver and the reader of its messages. \<open>added\<close> are the texts given to the
  sender, \<open>taken\<close> the messages taken from the receiver.
\<close>

inductive uds_link ::
    "UnixSocketConnection \<Rightarrow> UnixSocketConnection \<Rightarrow> u8 list \<Rightarrow> u8 list list \<Rightarrow> UnixSocketMessage list \<Rightarrow> bool" where
    start: "uds_link new_UnixSocketConnection new_UnixSocketConnection [] [] []"
  | add: "uds_link a b wire added taken \<Longrightarrow> t \<noteq> [] \<Longrightarrow> length t < 65536 \<Longrightarrow>
      uds_link (AddMessageToSend (text_message t) a) b wire (added @ [t]) taken"
  | send: "uds_link a b wire added taken \<Longrightarrow> Uds_Send wire_socket a (wire, sched) = (ok, a', wire', sched') \<Longrightarrow>
      uds_link a' b wire' added taken"
  | receive: "uds_link a b wire added taken \<Longrightarrow> Uds_Receive wire_socket b (wire, sched) = (ok, b', wire', sched') \<Longrightarrow>
      uds_link a b' wire' added taken"
  | read: "uds_link a b wire added taken \<Longrightarrow> incoming b \<noteq> [] \<Longrightarrow> ReadMessage b = (m, b') \<Longrightarrow>
      uds_link a b' wire added (taken @ [m])"

section \<open>The stream of frames\<close>

definition frame :: "u8 list \<Rightarrow> u8 list" where
  "frame t = htons_bytes (length t) @ t"

definition sendable :: "u8 list \<Rightarrow> bool" where
  "sendable t \<longleftrightarrow> t \<noteq> [] \<and> length t < 65536"

lemma length_htons [simp]: "length (htons_bytes n) = 2"
  by (simp add: htons_bytes_def)

lemma ntohs_htons: "n < 65536 \<Longrightarrow> ntohs_bytes (htons_bytes n) = n"
  by (simp add: ntohs_bytes_def htons_bytes_def unat_of_nat) 

text \<open>What the sender has still to write for the texts \<open>ts\<close> in its queue.\<close>

fun unsent :: "uds_state \<Rightarrow> nat \<Rightarrow> u8 list list \<Rightarrow> u8 list" where
  "unsent st off [] = []"
| "unsent STATE_LENGTH off (t # ts) = drop off (htons_bytes (length t)) @ t @ concat (map frame ts)"
| "unsent STATE_PAYLOAD off (t # ts) = drop off t @ concat (map frame ts)"

definition send_ok :: "UnixSocketConnection \<Rightarrow> u8 list list \<Rightarrow> bool" where
  "send_ok a ts \<longleftrightarrow> outgoing a = map text_message ts \<and> (\<forall>t \<in> set ts. sendable t) \<and>
     (case send_state a of
        STATE_LENGTH \<Rightarrow> send_offset a < 2 \<and> (send_offset a \<noteq> 0 \<longrightarrow> ts \<noteq> [] \<and> send_length a = 2)
      | STATE_PAYLOAD \<Rightarrow> ts \<noteq> [] \<and> send_length a = length (hd ts) \<and> send_offset a < length (hd ts))"

definition recv_ok :: "UnixSocketConnection \<Rightarrow> u8 list list \<Rightarrow> u8 list \<Rightarrow> bool" where
  "recv_ok b pending tail \<longleftrightarrow> (\<forall>t \<in> set pending. sendable t) \<and>
     (case read_state b of
        STATE_LENGTH \<Rightarrow> read_length b = 2 \<and> length (read_buffer b) < 2 \<and>
          read_buffer b @ tail = concat (map frame pending)
      | STATE_PAYLOAD \<Rightarrow> pending \<noteq> [] \<and> read_length b = length (hd pending) \<and>
          length (read_buffer b) < length (hd pending) \<and>
          read_buffer b @ tail = hd pending @ concat (map frame (tl pending)))"


text \<open>The bytes of the part of a text that is being sent.\<close>

definition part :: "uds_state \<Rightarrow> u8 list \<Rightarrow> u8 list" where
  "part st t = (case st of STATE_LENGTH \<Rightarrow> htons_bytes (length t) | STATE_PAYLOAD \<Rightarrow> t)"

definition after_part :: "uds_state \<Rightarrow> u8 list \<Rightarrow> u8 list" where
  "after_part st t = (case st of STATE_LENGTH \<Rightarrow> t | STATE_PAYLOAD \<Rightarrow> [])"

lemma unsent_Cons: "unsent st off (t # ts) = drop off (part st t) @ after_part st t @ concat (map frame ts)"
  by (cases st) (simp_all add: part_def after_part_def)

lemma send_ok_Cons:
  assumes "send_ok a (t # ts)"
  shows "send_offset a < length (part (send_state a) t)" and "length t mod 65536 = length t" and "t \<noteq> []"
    and "send_offset a \<noteq> 0 \<or> send_state a = STATE_PAYLOAD \<Longrightarrow> send_length a = length (part (send_state a) t)"
  using assms by (auto simp: send_ok_def part_def sendable_def split: uds_state.splits)

lemma wire_sendmsg_cases:
  assumes "wire_sendmsg bytes fd (wire, sched) = (n, wire', sched')"
  obtains (error) "n < 0" and "wire' = wire"
  | (short) m where "n = int m" and "m < length bytes" and "wire' = wire @ take m bytes"
  | (all) "n = int (length bytes)" and "wire' = wire @ bytes"
proof (cases "n < 0")
  case True
  then have "wire' = wire" using assms by (auto simp: wire_sendmsg_def split: list.splits nat.splits)
  with True show thesis by (rule error)
next
  case False
  then have n: "nat n \<le> length bytes" "wire' = wire @ take (nat n) bytes" "n = int (nat n)"
    using assms by (auto simp: wire_sendmsg_def min_def split: list.splits nat.splits)
  show thesis
  proof (cases "nat n < length bytes")
    case True
    from n(3) True n(2) show thesis by (rule short)
  next
    case False
    then have "nat n = length bytes" using n(1) by simp
    then show thesis using n by (intro all) simp_all
  qed
qed

lemma SendText_wire:
  assumes "send_ok a (t # ts)"
    and "wire_sendmsg (drop (send_offset a) (part (send_state a) t)) None (wire, sched) = (n, k)"
  shows "SendText wire_socket t None a (wire, sched) =
    (let a1 = a\<lparr>send_length := length (part (send_state a) t)\<rparr>
     in if n < 0 then (ERROR, a1, k)
        else if send_offset a + nat n \<noteq> length (part (send_state a) t)
        then (STOPPED, a1\<lparr>send_offset := send_offset a + nat n\<rparr>, k)
        else case send_state a of
               STATE_LENGTH \<Rightarrow> (IN_PROGRESS, a1\<lparr>send_length := length t, send_state := STATE_PAYLOAD, send_offset := 0\<rparr>, k)
             | STATE_PAYLOAD \<Rightarrow> (DONE, a1\<lparr>send_length := 2, send_state := STATE_LENGTH, send_offset := 0\<rparr>, k))"
proof -
  note ok = send_ok_Cons [OF assms(1)]
  let ?c = "if send_state a = STATE_LENGTH \<and> send_offset a = 0 then a\<lparr>send_length := 2\<rparr> else a"
  have c: "?c = a\<lparr>send_length := length (part (send_state a) t)\<rparr>"
    using ok(4) by (cases "send_state a") (auto simp: part_def)
  have pos: "length (part (send_state a) t) \<noteq> 0" using ok(1) by linarith
  show ?thesis
    unfolding SendText_def c Let_def ok(2) using assms(2) pos
    by (cases "send_state a") (simp_all add: wire_socket_def part_def)
qed

text \<open>A call on the head of the queue leaves the stream as it is: what it writes is no longer unsent.\<close>

lemma SendText_stream:
  assumes "send_ok a (t # ts)" and "SendText wire_socket t None a (wire, sched) = (st, a', wire', sched')"
  defines "a'' \<equiv> if st = DONE then a'\<lparr>outgoing := tl (outgoing a')\<rparr> else a'"
    and "ts' \<equiv> if st = DONE then ts else t # ts"
  shows "send_ok a'' ts' \<and> wire' @ unsent (send_state a'') (send_offset a'') ts' =
    wire @ unsent (send_state a) (send_offset a) (t # ts)"
proof -
  let ?B = "part (send_state a) t"
  note ok = send_ok_Cons [OF assms(1)]
  obtain n k where m: "wire_sendmsg (drop (send_offset a) ?B) None (wire, sched) = (n, k)"
    by (metis surj_pair)
  note res = assms(2) [unfolded SendText_wire [OF assms(1) m] Let_def]
  obtain wire1 sched1 where k: "k = (wire1, sched1)" by fastforce
  from m [unfolded k] show ?thesis
  proof (cases rule: wire_sendmsg_cases)
    case error
    then have "st = ERROR" "a' = a\<lparr>send_length := length ?B\<rparr>" "wire' = wire" using res k by auto
    moreover have "send_ok (a\<lparr>send_length := length ?B\<rparr>) (t # ts)"
      using assms(1) by (auto simp: send_ok_def part_def split: uds_state.splits)
    ultimately show ?thesis by (simp add: a''_def ts'_def)
  next
    case (short m')
    then have less: "send_offset a + m' < length ?B" by simp
    then have st: "st = STOPPED" "a' = a\<lparr>send_length := length ?B, send_offset := send_offset a + m'\<rparr>" "wire' = wire1"
      using res k short(1) by auto
    have "send_ok a' (t # ts)"
      using assms(1) less by (auto simp: st(2) send_ok_def part_def split: uds_state.splits)
    moreover have "take m' (drop (send_offset a) ?B) @ drop (send_offset a + m') ?B = drop (send_offset a) ?B"
      using append_take_drop_id [of m' "drop (send_offset a) ?B"] by (simp add: add.commute)
    ultimately show ?thesis
      using short(3) by (simp add: a''_def ts'_def st unsent_Cons)
  next
    case all
    then have full: "send_offset a + nat n = length ?B" "\<not> n < 0" using ok(1) by auto
    show ?thesis
    proof (cases "send_state a")
      case STATE_LENGTH
      then have st: "st = IN_PROGRESS" "wire' = wire1"
        "a' = a\<lparr>send_length := length t, send_state := STATE_PAYLOAD, send_offset := 0\<rparr>"
        using res k full by auto
      have "send_ok a' (t # ts)" using assms(1) ok(3) by (auto simp: st(3) send_ok_def)
      then show ?thesis
        using all(2) STATE_LENGTH by (simp add: a''_def ts'_def st unsent_Cons part_def after_part_def)
    next
      case STATE_PAYLOAD
      then have st: "st = DONE" "wire' = wire1"
        "a' = a\<lparr>send_length := 2, send_state := STATE_LENGTH, send_offset := 0\<rparr>"
        using res k full by auto
      have "send_ok (a'\<lparr>outgoing := tl (outgoing a')\<rparr>) ts" using assms(1) by (auto simp: st(3) send_ok_def)
      moreover have "unsent STATE_LENGTH 0 ts = concat (map frame ts)" by (cases ts) (simp_all add: frame_def)
      ultimately show ?thesis
        using all(2) STATE_PAYLOAD by (simp add: a''_def ts'_def st unsent_Cons part_def after_part_def)
    qed
  qed
qed


lemma Uds_Send_stream:
  assumes "send_ok a ts" and "Uds_Send wire_socket a (wire, sched) = (ok, a', wire', sched')"
  shows "\<exists>ts'. send_ok a' ts' \<and>
    wire' @ unsent (send_state a') (send_offset a') ts' = wire @ unsent (send_state a) (send_offset a) ts"
  using assms
proof (induction "2 * length ts + (if send_state a = STATE_LENGTH then 1 else 0)" arbitrary: a ts wire sched rule: less_induct)
  case less
  show ?case
  proof (cases ts)
    case Nil
    then have "outgoing a = []" using less.prems(1) by (simp add: send_ok_def)
    then show ?thesis using less.prems Nil by (subst (asm) Uds_Send.simps) auto
  next
    case (Cons t ts1)
    have out: "outgoing a = text_message t # map text_message ts1"
      using less.prems(1) Cons by (simp add: send_ok_def)
    obtain st a1 wire1 sched1 where one: "SendText wire_socket t None a (wire, sched) = (st, a1, wire1, sched1)"
      by (metis surj_pair)
    have sendone: "SendOne wire_socket (text_message t) a (wire, sched) = (st, a1, wire1, sched1)"
      by (simp add: SendOne_def text_message_def valid_fd_def one)
    note stream = SendText_stream [OF less.prems(1) [unfolded Cons] one]
    note loop = less.prems(2) [unfolded Uds_Send.simps [of _ a] out list.case sendone prod.case]
    show ?thesis
    proof (cases st)
      case DONE
      let ?a = "a1\<lparr>outgoing := tl (outgoing a1)\<rparr>"
      have ok: "send_ok ?a ts1" and eq: "wire1 @ unsent (send_state ?a) (send_offset ?a) ts1 =
          wire @ unsent (send_state a) (send_offset a) (t # ts1)"
        using stream DONE by simp_all
      have less': "2 * length ts1 + (if send_state ?a = STATE_LENGTH then 1 else 0)
          < 2 * length ts + (if send_state a = STATE_LENGTH then 1 else 0)"
        using Cons by simp
      have rec: "Uds_Send wire_socket ?a (wire1, sched1) = (ok, a', wire', sched')" using loop DONE by simp
      show ?thesis using less.hyps [OF less' ok rec] eq Cons by simp
    next
      case IN_PROGRESS
      have ok: "send_ok a1 ts" and eq: "wire1 @ unsent (send_state a1) (send_offset a1) ts =
          wire @ unsent (send_state a) (send_offset a) ts"
        using stream IN_PROGRESS Cons by simp_all
      have "2 * length ts + (if send_state a1 = STATE_LENGTH then 1 else 0)
          < 2 * length ts + (if send_state a = STATE_LENGTH then 1 else 0)"
        using SendText_in_progress [OF one [unfolded IN_PROGRESS]] by simp
      moreover have "Uds_Send wire_socket a1 (wire1, sched1) = (ok, a', wire', sched')" using loop IN_PROGRESS by simp
      ultimately show ?thesis using less.hyps ok eq by fastforce
    next
      case STOPPED
      then show ?thesis using loop stream Cons by auto
    next
      case ERROR
      then show ?thesis using loop stream Cons by auto
    qed
  qed
qed

lemma wire_recvmsg_cases:
  assumes "wire_recvmsg len (wire, sched) = (r, wire', sched')"
  obtains (none) "r = None" and "wire' = wire"
  | (some) bytes where "r = Some (bytes, None)" and "bytes \<noteq> []" and "length bytes \<le> len" and "wire = bytes @ wire'"
  using assms by (auto simp: wire_recvmsg_def Let_def split: if_splits)

lemma append_same_length: "xs @ us = ys @ vs \<Longrightarrow> length xs = length ys \<Longrightarrow> xs = ys \<and> us = vs"
  by simp

text \<open>What a call of \<^verbatim>\<open>Receive\<close> does to a receiver of the frames \<open>pending\<close>.\<close>

lemma Uds_Receive_frames:
  assumes "recv_ok b pending (wire @ rest)" and "Uds_Receive wire_socket b (wire, sched) = (ok, b', wire', sched')"
  shows "\<exists>pending'. recv_ok b' pending' (wire' @ rest) \<and>
    (incoming b' = incoming b \<and> pending' = pending \<or>
     (\<exists>t. pending = t # pending' \<and> incoming b' = incoming b @ [text_message t]))"
proof -
  obtain r wire1 sched1 where r: "wire_recvmsg (read_length b - length (read_buffer b)) (wire, sched) = (r, wire1, sched1)"
    by (metis surj_pair)
  note res = assms(2) [unfolded Uds_Receive_def wire_socket_def uds_socket.simps r prod.case]
  from r show ?thesis
  proof (cases rule: wire_recvmsg_cases)
    case none
    then show ?thesis using res assms(1) by auto
  next
    case (some bytes)
    let ?buf = "read_buffer b @ bytes"
    have wire': "wire' = wire1" using res some(1)
      by (auto simp: Let_def valid_fd_def split: if_splits uds_state.splits)
    note res = res [unfolded some(1) option.case prod.case Let_def]
    show ?thesis
    proof (cases "length ?buf = read_length b")
      case False
      then have b': "b' = b\<lparr>read_buffer := ?buf\<rparr>" using res by simp
      have "recv_ok b' pending (wire' @ rest)"
        using assms(1) some(3,4) False unfolding b' wire' by (auto simp: recv_ok_def split: uds_state.splits)
      then show ?thesis using b' by auto
    next
      case True
      show ?thesis
      proof (cases "read_state b")
        case STATE_LENGTH
        have stream: "?buf @ wire1 @ rest = concat (map frame pending)" and len: "length ?buf = 2"
          and sendable: "\<forall>t \<in> set pending. sendable t"
          using assms(1) some(4) True STATE_LENGTH by (auto simp: recv_ok_def)
        then obtain t ps where pending: "pending = t # ps" by (cases pending) auto
        have "?buf @ (wire1 @ rest) = htons_bytes (length t) @ (t @ concat (map frame ps))"
          using stream by (simp add: pending frame_def)
        then have buf: "?buf = htons_bytes (length t)" and tail: "wire1 @ rest = t @ concat (map frame ps)"
          using append_same_length len length_htons by metis+
        have t: "length t < 65536" "t \<noteq> []" using sendable by (auto simp: pending sendable_def)
        have "b' = b\<lparr>read_length := length t, read_buffer := [], read_state := STATE_PAYLOAD\<rparr>"
          using res True STATE_LENGTH t by (simp add: buf ntohs_htons)
        moreover from this have "recv_ok b' pending (wire' @ rest)"
          using tail sendable t(2) by (simp add: recv_ok_def pending wire')
        ultimately show ?thesis by auto
      next
        case STATE_PAYLOAD
        obtain t ps where pending: "pending = t # ps" and len: "length ?buf = length t"
          and stream: "?buf @ wire1 @ rest = t @ concat (map frame ps)" and sendable: "\<forall>t \<in> set ps. sendable t"
          using assms(1) some(4) True STATE_PAYLOAD by (cases pending) (auto simp: recv_ok_def)
        have buf: "?buf = t" and tail: "wire1 @ rest = concat (map frame ps)"
          using append_same_length [OF stream len] by simp_all
        have "b' = b\<lparr>read_length := 2, read_buffer := [], read_state := STATE_LENGTH,
            incoming := incoming b @ [text_message t]\<rparr>"
          using res True STATE_PAYLOAD by (simp add: buf text_message_def valid_fd_def)
        then show ?thesis
          using tail sendable by (intro exI [of _ ps]) (simp add: recv_ok_def pending wire')
      qed
    qed
  qed
qed


definition link_ok ::
    "UnixSocketConnection \<Rightarrow> UnixSocketConnection \<Rightarrow> u8 list \<Rightarrow> u8 list list \<Rightarrow> UnixSocketMessage list \<Rightarrow> bool" where
  "link_ok a b wire added taken \<longleftrightarrow>
     (\<exists>ts pending. send_ok a ts \<and> recv_ok b pending (wire @ unsent (send_state a) (send_offset a) ts) \<and>
        map text_message added = taken @ incoming b @ map text_message pending)"

lemma send_ok_empty: "send_ok a [] \<Longrightarrow> send_state a = STATE_LENGTH \<and> send_offset a = 0"
  by (auto simp: send_ok_def split: uds_state.splits)

lemma add_ok:
  assumes "send_ok a ts" and "sendable t"
  shows "send_ok (AddMessageToSend (text_message t) a) (ts @ [t])"
    and "unsent (send_state a) (send_offset a) (ts @ [t]) = unsent (send_state a) (send_offset a) ts @ frame t"
proof -
  show "send_ok (AddMessageToSend (text_message t) a) (ts @ [t])"
    using assms by (cases ts) (auto simp: send_ok_def AddMessageToSend_def split: uds_state.splits)
  show "unsent (send_state a) (send_offset a) (ts @ [t]) = unsent (send_state a) (send_offset a) ts @ frame t"
  proof (cases ts)
    case Nil
    then show ?thesis using send_ok_empty assms(1) by (auto simp: frame_def)
  qed (simp add: unsent_Cons)
qed

lemma recv_ok_snoc: "recv_ok b pending tail \<Longrightarrow> sendable t \<Longrightarrow> recv_ok b (pending @ [t]) (tail @ frame t)"
proof -
  assume a: "recv_ok b pending tail" "sendable t"
  show ?thesis
  proof (cases "read_state b")
    case STATE_LENGTH
    have "read_buffer b @ tail @ frame t = (read_buffer b @ tail) @ frame t" by simp
    then show ?thesis using a STATE_LENGTH by (auto simp: recv_ok_def)
  next
    case STATE_PAYLOAD
    have "read_buffer b @ tail @ frame t = (read_buffer b @ tail) @ frame t" by simp
    then show ?thesis using a STATE_PAYLOAD by (cases pending) (auto simp: recv_ok_def)
  qed
qed

lemma uds_link_ok: "uds_link a b wire added taken \<Longrightarrow> link_ok a b wire added taken"
proof (induction rule: uds_link.induct)
  case start
  show ?case
    unfolding link_ok_def
    by (intro exI [of _ "[]"]) (simp add: new_UnixSocketConnection_def send_ok_def recv_ok_def)
next
  case (add a b wire added taken t)
  then obtain ts pending where inv: "send_ok a ts" "recv_ok b pending (wire @ unsent (send_state a) (send_offset a) ts)"
    "map text_message added = taken @ incoming b @ map text_message pending" by (auto simp: link_ok_def)
  have t: "sendable t" using add by (simp add: sendable_def)
  have "recv_ok b (pending @ [t]) (wire @ unsent (send_state a) (send_offset a) (ts @ [t]))"
    using recv_ok_snoc [OF inv(2) t] by (simp add: add_ok(2) [OF inv(1) t])
  then show ?case
    unfolding link_ok_def
    by (intro exI [of _ "ts @ [t]"] exI [of _ "pending @ [t]"])
      (use add_ok(1) [OF inv(1) t] inv(3) in \<open>simp add: AddMessageToSend_def\<close>)
next
  case (send a b wire added taken sched ok a' wire' sched')
  then obtain ts pending where inv: "send_ok a ts" "recv_ok b pending (wire @ unsent (send_state a) (send_offset a) ts)"
    "map text_message added = taken @ incoming b @ map text_message pending" by (auto simp: link_ok_def)
  from Uds_Send_stream [OF inv(1) send.hyps(2)] inv(2,3) show ?case unfolding link_ok_def by metis
next
  case (receive a b wire added taken sched ok b' wire' sched')
  then obtain ts pending where inv: "send_ok a ts" "recv_ok b pending (wire @ unsent (send_state a) (send_offset a) ts)"
    "map text_message added = taken @ incoming b @ map text_message pending" by (auto simp: link_ok_def)
  from Uds_Receive_frames [OF inv(2) receive.hyps(2)] obtain pending'
    where "recv_ok b' pending' (wire' @ unsent (send_state a) (send_offset a) ts)"
      and "incoming b' = incoming b \<and> pending' = pending \<or>
        (\<exists>t. pending = t # pending' \<and> incoming b' = incoming b @ [text_message t])" by blast
  then show ?case
    unfolding link_ok_def using inv(1,3) by (intro exI [of _ ts] exI [of _ pending']) auto
next
  case (read a b wire added taken m b')
  then have "incoming b = m # incoming b'" "\<And>ps tail. recv_ok b' ps tail = recv_ok b ps tail"
    by (auto simp: ReadMessage_def recv_ok_def split: list.splits uds_state.splits)
  then show ?case using read.IH by (simp add: link_ok_def)
qed

section \<open>Properties\<close>


text \<open>A text of two bytes, written in three calls and read in two.\<close>

definition demo_text :: "u8 list" where "demo_text = [104, 105]"

definition demo_sender :: UnixSocketConnection where
  "demo_sender = new_UnixSocketConnection\<lparr>send_length := 2\<rparr>"

definition demo_receiver :: UnixSocketConnection where
  "demo_receiver = new_UnixSocketConnection\<lparr>incoming := [text_message demo_text]\<rparr>"

lemmas demo_defs = SendOne_def SendText_def wire_socket_def wire_sendmsg_def AddMessageToSend_def
  new_UnixSocketConnection_def text_message_def demo_text_def htons_bytes_def demo_sender_def
  Uds_Receive_def wire_recvmsg_def ntohs_bytes_def demo_receiver_def valid_fd_def

lemma demo_sent:
  "Uds_Send wire_socket (AddMessageToSend (text_message demo_text) new_UnixSocketConnection) ([], []) =
    (True, demo_sender, [0, 2, 104, 105], [])"
  apply (subst Uds_Send.simps, simp add: demo_defs)
  apply (subst Uds_Send.simps, simp add: demo_defs)
  apply (subst Uds_Send.simps, simp add: demo_defs)
  done

lemma demo_length:
  "Uds_Receive wire_socket new_UnixSocketConnection ([0, 2, 104, 105], []) =
    (True, new_UnixSocketConnection\<lparr>read_state := STATE_PAYLOAD\<rparr>, [104, 105], [])"
  by (simp add: demo_defs)

lemma demo_payload:
  "Uds_Receive wire_socket (new_UnixSocketConnection\<lparr>read_state := STATE_PAYLOAD\<rparr>) ([104, 105], []) =
    (True, demo_receiver, [], [])"
  by (simp add: demo_defs)

lemma demo_link: "uds_link demo_sender demo_receiver [] [demo_text] []"
proof -
  have "uds_link (AddMessageToSend (text_message demo_text) new_UnixSocketConnection) new_UnixSocketConnection [] [demo_text] []"
    using uds_link.add [OF uds_link.start, of demo_text] by (simp add: demo_text_def)
  from uds_link.receive [OF uds_link.receive [OF uds_link.send [OF this demo_sent] demo_length] demo_payload]
  show ?thesis .
qed


end
