(* ===== verification/Sctp_Handler.thy ===== *)
theory Sctp_Handler
  imports Tcpxo_Prelude "HOL-Library.Signed_Division"
begin

text \<open>
  The control channel over SCTP: the queue of timeouts of \<^verbatim>\<open>sctp-timeout-queue.h\<close> and \<^verbatim>\<open>.cc\<close>, and the
  handler of \<^verbatim>\<open>sctp-handler.h\<close> and \<^verbatim>\<open>.cc\<close> with its callbacks, its thread and the threads that poll it.
  The SCTP socket is \<^verbatim>\<open>dcsctp\<close>, which is not part of the sources: it is a record of functions on a
  world \<open>'w\<close> that return the callbacks made during a call. The priority queue is one of \<^verbatim>\<open>ortools\<close>: its
  contents are a list of timeouts, and the choice of the top is a parameter.
\<close>

section \<open>Timeouts\<close>

text \<open>The timeouts a socket has created, by address. \<open>in_queue\<close> says that \<^verbatim>\<open>heap_index_\<close> is not negative.\<close>

record SctpTimeout =
  timeout_id :: nat
  expiration :: int
  in_queue :: bool

record SctpTimeoutQueue =
  timers :: "nat \<Rightarrow> SctpTimeout"
  timeouts :: "nat list"

definition kNanosecondsPerMillisecond :: int where "kNanosecondsPerMillisecond = 1000 * 1000"

definition INT64_MAX :: int where "INT64_MAX = 2 ^ 63 - 1"

definition set_timer :: "nat \<Rightarrow> SctpTimeout \<Rightarrow> SctpTimeoutQueue \<Rightarrow> SctpTimeoutQueue" where
  "set_timer t timer q = q\<lparr>timers := (timers q)(t := timer)\<rparr>"

definition AddTimeout :: "nat \<Rightarrow> SctpTimeoutQueue \<Rightarrow> SctpTimeoutQueue" where
  "AddTimeout t q = set_timer t ((timers q t)\<lparr>in_queue := True\<rparr>) (q\<lparr>timeouts := t # timeouts q\<rparr>)"

definition RemoveTimeout :: "nat \<Rightarrow> SctpTimeoutQueue \<Rightarrow> SctpTimeoutQueue" where
  "RemoveTimeout t q = q\<lparr>timeouts := remove1 t (timeouts q)\<rparr>"

definition Timeout_Start :: "int \<Rightarrow> int \<Rightarrow> nat \<Rightarrow> nat \<Rightarrow> SctpTimeoutQueue \<Rightarrow> SctpTimeoutQueue" where
  "Timeout_Start time duration tid t q =
     AddTimeout t (set_timer t ((timers q t)\<lparr>timeout_id := tid, expiration := time + duration * kNanosecondsPerMillisecond\<rparr>) q)"

definition Timeout_Stop :: "nat \<Rightarrow> SctpTimeoutQueue \<Rightarrow> SctpTimeoutQueue" where
  "Timeout_Stop t q =
     (if in_queue (timers q t)
      then RemoveTimeout t (set_timer t ((timers q t)\<lparr>expiration := INT64_MAX, in_queue := False\<rparr>) q)
      else q)"

definition Timeout_Restart :: "int \<Rightarrow> int \<Rightarrow> nat \<Rightarrow> nat \<Rightarrow> SctpTimeoutQueue \<Rightarrow> SctpTimeoutQueue" where
  "Timeout_Restart time duration tid t q =
     set_timer t ((timers q t)\<lparr>timeout_id := tid, expiration := time + duration * kNanosecondsPerMillisecond\<rparr>) q"

text \<open>\<open>choose_top\<close> chooses the top of the queue from the expirations. The result is an \<^verbatim>\<open>int\<close> of 32 bits.\<close>

definition top_timeout :: "((nat \<Rightarrow> int) \<Rightarrow> nat list \<Rightarrow> nat) \<Rightarrow> SctpTimeoutQueue \<Rightarrow> nat" where
  "top_timeout choose_top q = choose_top (\<lambda>t. expiration (timers q t)) (timeouts q)"

definition NextTimeoutMilliseconds ::
    "((nat \<Rightarrow> int) \<Rightarrow> nat list \<Rightarrow> nat) \<Rightarrow> int \<Rightarrow> SctpTimeoutQueue \<Rightarrow> int option" where
  "NextTimeoutMilliseconds choose_top time q =
     (if timeouts q = [] then None
      else let expiration_nanos = expiration (timers q (top_timeout choose_top q)) - time
           in Some (sint (word_of_int (max 0 ((expiration_nanos + (kNanosecondsPerMillisecond - 1)) sdiv
                kNanosecondsPerMillisecond)) :: 32 word)))"

section \<open>Handler\<close>

text \<open>The fields of \<^verbatim>\<open>SctpHandler\<close> that \<^verbatim>\<open>mu_\<close> guards; \<open>recv_buffer_size\<close> is the size of \<^verbatim>\<open>recv_buffer_\<close>.\<close>

record SctpHandler =
  running :: bool
  shutting_down :: bool
  connected :: bool
  active_receive :: bool
  receive_buffer :: "u8 list list"
  mtu :: int
  recv_buffer_size :: int
  timeout_queue :: SctpTimeoutQueue

definition new_SctpHandler :: "SctpTimeoutQueue \<Rightarrow> SctpHandler" where
  "new_SctpHandler q =
     \<lparr>running = False, shutting_down = False, connected = True, active_receive = False, receive_buffer = [], mtu = 0,
      recv_buffer_size = 0, timeout_queue = q\<rparr>"

text \<open>The callbacks of the socket. Closing it makes every callback but \<^verbatim>\<open>OnConnectionRestarted\<close>.\<close>

datatype plain_callback =
    OnMessageReceived "u8 list"
  | OnError
  | OnAborted
  | OnConnected
  | OnClosed
  | OnStreamsResetFailed
  | OnStreamsResetPerformed
  | OnIncomingStreamsReset
  | StartTimeout nat int nat
  | StopTimeout nat
  | RestartTimeout nat int nat

datatype sctp_callback = Callback plain_callback | OnConnectionRestarted

text \<open>
  The socket and the system. A packet of the UDP socket is \<open>Packet\<close> with its bytes, \<open>Truncated\<close> when it is longer
  than the buffer; \<open>NoPacket\<close> is every result that is not positive. \<open>get_time\<close> reads the clock.
\<close>

datatype udp_packet = NoPacket | Truncated | Packet "u8 list"

record 'w dcsctp =
  dc_connect :: "'w \<Rightarrow> sctp_callback list \<times> 'w"
  dc_send :: "u8 list \<Rightarrow> 'w \<Rightarrow> bool \<times> sctp_callback list \<times> 'w"
  dc_receive_packet :: "u8 list \<Rightarrow> 'w \<Rightarrow> sctp_callback list \<times> 'w"
  dc_handle_timeout :: "nat \<Rightarrow> 'w \<Rightarrow> sctp_callback list \<times> 'w"
  dc_shutdown :: "'w \<Rightarrow> sctp_callback list \<times> 'w"
  dc_close :: "'w \<Rightarrow> plain_callback list \<times> 'w"
  udp_recvmsg :: "int \<Rightarrow> 'w \<Rightarrow> udp_packet \<times> 'w"
  get_time :: "'w \<Rightarrow> int"

fun handle_plain :: "int \<Rightarrow> plain_callback \<Rightarrow> SctpHandler \<Rightarrow> SctpHandler" where
  "handle_plain time (OnMessageReceived m) h = h\<lparr>receive_buffer := receive_buffer h @ [m]\<rparr>"
| "handle_plain time OnAborted h = h\<lparr>connected := False\<rparr>"
| "handle_plain time OnClosed h = h\<lparr>connected := False\<rparr>"
| "handle_plain time (StartTimeout t duration tid) h =
     h\<lparr>timeout_queue := Timeout_Start time duration tid t (timeout_queue h)\<rparr>"
| "handle_plain time (StopTimeout t) h = h\<lparr>timeout_queue := Timeout_Stop t (timeout_queue h)\<rparr>"
| "handle_plain time (RestartTimeout t duration tid) h =
     h\<lparr>timeout_queue := Timeout_Restart time duration tid t (timeout_queue h)\<rparr>"
| "handle_plain time _ h = h"

definition close_socket :: "'w dcsctp \<Rightarrow> SctpHandler \<Rightarrow> 'w \<Rightarrow> SctpHandler \<times> 'w" where
  "close_socket dc h w =
     (case dc_close dc w of (cbs, w) \<Rightarrow> ((fold (handle_plain (get_time dc w)) cbs h)\<lparr>connected := False\<rparr>, w))"

fun handle_callback :: "'w dcsctp \<Rightarrow> sctp_callback \<Rightarrow> SctpHandler \<times> 'w \<Rightarrow> SctpHandler \<times> 'w" where
  "handle_callback dc (Callback cb) (h, w) = (handle_plain (get_time dc w) cb h, w)"
| "handle_callback dc OnConnectionRestarted (h, w) = close_socket dc h w"

definition handle_callbacks :: "'w dcsctp \<Rightarrow> sctp_callback list \<Rightarrow> SctpHandler \<times> 'w \<Rightarrow> SctpHandler \<times> 'w" where
  "handle_callbacks dc cbs = fold (handle_callback dc) cbs"

definition kMaxSctpMessageSize :: nat where "kMaxSctpMessageSize = 10 * 1024"

definition SendPacketWithStatus :: "int \<Rightarrow> SctpHandler \<Rightarrow> u8 list \<Rightarrow> bool" where
  "SendPacketWithStatus sent h packet = (if int (length packet) > mtu h then False else sent = int (length packet))"

text \<open>The options given to the socket; the ones that only tune its timers have their values here too.\<close>

record DcSctpOptions =
  opt_local_port :: nat
  opt_remote_port :: nat
  opt_max_send_buffer_size :: nat
  opt_max_message_size :: nat
  opt_delayed_ack_max_timeout :: nat
  opt_rto_min :: nat
  opt_rto_max :: nat
  opt_rto_initial :: nat
  opt_min_rtt_variance :: nat
  opt_max_retransmissions :: int
  opt_heartbeat_interval :: nat
  opt_max_burst :: nat
  opt_avoid_fragmentation_cwnd_mtus :: nat
  opt_mtu :: nat

definition sctp_options :: "nat \<Rightarrow> nat \<Rightarrow> int \<Rightarrow> int \<Rightarrow> DcSctpOptions" where
  "sctp_options local_port remote_port max_retransmissions m =
     \<lparr>opt_local_port = local_port, opt_remote_port = remote_port, opt_max_send_buffer_size = 2 ^ 64 - 1,
      opt_max_message_size = kMaxSctpMessageSize, opt_delayed_ack_max_timeout = 1, opt_rto_min = 2, opt_rto_max = 1000,
      opt_rto_initial = 2, opt_min_rtt_variance = 20, opt_max_retransmissions = max_retransmissions,
      opt_heartbeat_interval = 1000, opt_max_burst = 2 ^ 31 - 1, opt_avoid_fragmentation_cwnd_mtus = 2 ^ 16,
      opt_mtu = unat (word_of_int m - 40 - 8 :: u64)\<rparr>"

text \<open>
  \<^verbatim>\<open>Init\<close>: \<open>setsockopt_ok\<close> and \<open>socket_mtu\<close> are the results of the calls on the socket, \<open>create\<close> makes the socket
  from its options.
\<close>

definition Sctp_Init ::
    "bool \<Rightarrow> int \<Rightarrow> int option \<Rightarrow> nat \<Rightarrow> nat \<Rightarrow> int \<Rightarrow> bool \<Rightarrow> (DcSctpOptions \<Rightarrow> 'w \<Rightarrow> 'w) \<Rightarrow> 'w dcsctp
      \<Rightarrow> SctpHandler \<Rightarrow> 'w \<Rightarrow> bool \<times> SctpHandler \<times> 'w" where
  "Sctp_Init setsockopt_ok mtu_flag socket_mtu local_port remote_port max_retransmissions client create dc h w =
     (if \<not> setsockopt_ok then (False, h, w)
      else case (if mtu_flag = 0 then socket_mtu else Some mtu_flag) of
             None \<Rightarrow> (False, h, w)
           | Some m \<Rightarrow>
               let h = h\<lparr>mtu := m, recv_buffer_size := m\<rparr>;
                   w = create (sctp_options local_port remote_port max_retransmissions m) w;
                   (h, w) = (if client then case dc_connect dc w of (cbs, w) \<Rightarrow> handle_callbacks dc cbs (h, w) else (h, w))
               in (True, h\<lparr>running := True\<rparr>, w))"

definition Sctp_SendControlMessage ::
    "'w dcsctp \<Rightarrow> u8 list \<Rightarrow> SctpHandler \<Rightarrow> 'w \<Rightarrow> StatusCode \<times> SctpHandler \<times> 'w" where
  "Sctp_SendControlMessage dc buffer h w =
     (if length buffer > kMaxSctpMessageSize then (kInvalidArgument, h, w)
      else if buffer = [] then (kInvalidArgument, h, w)
      else if \<not> connected h then (kFailedPrecondition, h, w)
      else case dc_send dc buffer w of
             (ok, cbs, w) \<Rightarrow>
               (case handle_callbacks dc cbs (h, w) of
                  (h, w) \<Rightarrow> if ok then (kOk, h, w) else (kInternal, close_socket dc h w)))"

text \<open>The loop of \<^verbatim>\<open>ReadSocket\<close> that empties the UDP socket, and what follows it up to the release of the lock.\<close>

partial_function (option) read_packets :: "'w dcsctp \<Rightarrow> SctpHandler \<Rightarrow> 'w \<Rightarrow> (SctpHandler \<times> 'w) option" where
  "read_packets dc h w =
     (case udp_recvmsg dc (recv_buffer_size h) w of
        (NoPacket, w) \<Rightarrow> Some (h, w)
      | (Truncated, w) \<Rightarrow> Some (h, w)
      | (Packet bytes, w) \<Rightarrow>
          (case dc_receive_packet dc bytes w of
             (cbs, w) \<Rightarrow> (case handle_callbacks dc cbs (h, w) of (h, w) \<Rightarrow> read_packets dc h w)))"

text \<open>Where a thread is in \<^verbatim>\<open>ReadSocket\<close>: outside, or without the lock and with messages still to hand over.\<close>

datatype reader = Outside | Delivering "u8 list list"

definition next_batch :: "SctpHandler \<Rightarrow> SctpHandler \<times> reader" where
  "next_batch h =
     (if receive_buffer h = [] then (h\<lparr>active_receive := False\<rparr>, Outside)
      else (h\<lparr>receive_buffer := []\<rparr>, Delivering (receive_buffer h)))"

definition begin_receive :: "SctpHandler \<Rightarrow> SctpHandler \<times> reader" where
  "begin_receive h = (if active_receive h then (h, Outside) else next_batch (h\<lparr>active_receive := True\<rparr>))"

definition fire_timeout :: "'w dcsctp \<Rightarrow> nat \<Rightarrow> SctpHandler \<Rightarrow> 'w \<Rightarrow> SctpHandler \<times> 'w" where
  "fire_timeout dc t h w =
     (let h = h\<lparr>timeout_queue := Timeout_Stop t (timeout_queue h)\<rparr>;
          (cbs, w) = dc_handle_timeout dc (timeout_id (timers (timeout_queue h) t)) w
      in handle_callbacks dc cbs (h, w))"

partial_function (option) Run_timeouts ::
    "'w dcsctp \<Rightarrow> ((nat \<Rightarrow> int) \<Rightarrow> nat list \<Rightarrow> nat) \<Rightarrow> int \<Rightarrow> SctpHandler \<Rightarrow> 'w \<Rightarrow> (SctpHandler \<times> 'w) option" where
  "Run_timeouts dc choose_top now h w =
     (let q = timeout_queue h; t = top_timeout choose_top q
      in if timeouts q \<noteq> [] \<and> expiration (timers q t) \<le> now
         then (case fire_timeout dc t h w of (h, w) \<Rightarrow> Run_timeouts dc choose_top now h w)
         else Some (h, w))"

text \<open>
  A round of the thread of the handler: the shutdown signal, and from the return of \<^verbatim>\<open>ReadSocket\<close> to the end of
  the round. The thread ends when the socket is closed; \<open>clean\<close> says that it saw the signal, and when it did not,
  its end reports the failure of the channel.
\<close>

definition round_begin :: "'w dcsctp \<Rightarrow> bool \<Rightarrow> SctpHandler \<Rightarrow> 'w \<Rightarrow> bool \<times> SctpHandler \<times> 'w" where
  "round_begin dc clean h w =
     (if shutting_down h then
        case dc_shutdown dc w of (cbs, w) \<Rightarrow> (True, handle_callbacks dc cbs (h\<lparr>shutting_down := False\<rparr>, w))
      else (clean, h, w))"

datatype handler_thread = Sleeping | Reading | Exited

definition round_end ::
    "'w dcsctp \<Rightarrow> ((nat \<Rightarrow> int) \<Rightarrow> nat list \<Rightarrow> nat) \<Rightarrow> SctpHandler \<Rightarrow> 'w \<Rightarrow> (handler_thread \<times> SctpHandler \<times> 'w) option" where
  "round_end dc choose_top h w =
     (if \<not> connected h then Some (Exited, h, w)
      else case Run_timeouts dc choose_top (get_time dc w) h w of
             None \<Rightarrow> None
           | Some (h, w) \<Rightarrow> Some (Sleeping, h, w))"

definition failures_at_exit :: "bool \<Rightarrow> handler_thread \<Rightarrow> nat" where
  "failures_at_exit clean th = (if th = Exited \<and> \<not> clean then 1 else 0)"

text \<open>\<^verbatim>\<open>Shutdown\<close>, before it waits and after: \<open>disconnected\<close> says that the wait ended before the timeout.\<close>

definition Shutdown_request :: "SctpHandler \<Rightarrow> SctpHandler" where
  "Shutdown_request h = (if running h then h\<lparr>shutting_down := True\<rparr> else h)"

definition Shutdown_result :: "bool \<Rightarrow> bool \<Rightarrow> SctpHandler \<Rightarrow> StatusCode \<times> SctpHandler" where
  "Shutdown_result waited disconnected h =
     (if waited \<and> \<not> disconnected then (kDeadlineExceeded, h\<lparr>running := False\<rparr>) else (kOk, h))"

section \<open>Threads\<close>

text \<open>
  The handler with its threads. Reader 0 is the thread of the handler, every other reader a thread that calls
  \<^verbatim>\<open>RxPoll\<close>. \<open>arrived\<close> are the messages the socket has handed over with \<^verbatim>\<open>OnMessageReceived\<close>, and \<open>delivered\<close> the
  ones given to the receiver. The steps are the sections between taking and releasing \<^verbatim>\<open>mu_\<close>, and the calls of the
  receiver; the receiver may itself send, which is a step of its own. A round of the handler's thread is cut in two
  after \<^verbatim>\<open>ReadSocket\<close>, where the code keeps the lock: the relation has all interleavings of the code and more.
\<close>

record 'w sctp_system =
  handler :: SctpHandler
  world :: 'w
  clean_shutdown :: bool
  handler_thread :: handler_thread
  readers :: "nat \<Rightarrow> reader"
  arrived :: "u8 list list"
  delivered :: "u8 list list"
  failures :: nat

definition arrivals :: "SctpHandler \<Rightarrow> SctpHandler \<Rightarrow> u8 list list" where
  "arrivals h h' = drop (length (receive_buffer h)) (receive_buffer h')"

inductive sctp_run :: "'w dcsctp \<Rightarrow> ((nat \<Rightarrow> int) \<Rightarrow> nat list \<Rightarrow> nat) \<Rightarrow> 'w sctp_system \<Rightarrow> bool"
  for dc choose_top where
    start: "Sctp_Init ok flag socket_mtu local remote retransmissions client create dc (new_SctpHandler q) w = (True, h, w') \<Longrightarrow>
      sctp_run dc choose_top \<lparr>handler = h, world = w', clean_shutdown = False, handler_thread = Sleeping, readers = (\<lambda>_. Outside),
        arrived = receive_buffer h, delivered = [], failures = 0\<rparr>"
  | poll: "sctp_run dc choose_top s \<Longrightarrow> i \<noteq> 0 \<Longrightarrow> readers s i = Outside \<Longrightarrow>
      read_packets dc (handler s) (world s) = Some (h, w) \<Longrightarrow> begin_receive h = (h', r) \<Longrightarrow>
      sctp_run dc choose_top (s\<lparr>handler := h', world := w, readers := (readers s)(i := r),
        arrived := arrived s @ arrivals (handler s) h\<rparr>)"
  | deliver: "sctp_run dc choose_top s \<Longrightarrow> readers s i = Delivering (m # ms) \<Longrightarrow>
      sctp_run dc choose_top (s\<lparr>readers := (readers s)(i := Delivering ms), delivered := delivered s @ [m]\<rparr>)"
  | resume: "sctp_run dc choose_top s \<Longrightarrow> readers s i = Delivering [] \<Longrightarrow> next_batch (handler s) = (h, r) \<Longrightarrow>
      sctp_run dc choose_top (s\<lparr>handler := h, readers := (readers s)(i := r)\<rparr>)"
  | send: "sctp_run dc choose_top s \<Longrightarrow> Sctp_SendControlMessage dc buffer (handler s) (world s) = (st, h, w) \<Longrightarrow>
      sctp_run dc choose_top (s\<lparr>handler := h, world := w, arrived := arrived s @ arrivals (handler s) h\<rparr>)"
  | shutdown: "sctp_run dc choose_top s \<Longrightarrow> sctp_run dc choose_top (s\<lparr>handler := Shutdown_request (handler s)\<rparr>)"
  | timed_out: "sctp_run dc choose_top s \<Longrightarrow> Shutdown_result waited disconnected (handler s) = (st, h) \<Longrightarrow>
      sctp_run dc choose_top (s\<lparr>handler := h\<rparr>)"
  | stop: "sctp_run dc choose_top s \<Longrightarrow> handler_thread s = Sleeping \<Longrightarrow> \<not> running (handler s) \<Longrightarrow>
      sctp_run dc choose_top (s\<lparr>handler_thread := Exited, failures := failures s + failures_at_exit (clean_shutdown s) Exited\<rparr>)"
  | round_read: "sctp_run dc choose_top s \<Longrightarrow> handler_thread s = Sleeping \<Longrightarrow> running (handler s) \<Longrightarrow>
      round_begin dc (clean_shutdown s) (handler s) (world s) = (clean, h1, w1) \<Longrightarrow>
      read_packets dc h1 w1 = Some (h, w) \<Longrightarrow> begin_receive h = (h', r) \<Longrightarrow>
      sctp_run dc choose_top (s\<lparr>handler := h', world := w, clean_shutdown := clean, handler_thread := Reading,
        readers := (readers s)(0 := r), arrived := arrived s @ arrivals (handler s) h\<rparr>)"
  | round_done: "sctp_run dc choose_top s \<Longrightarrow> handler_thread s = Reading \<Longrightarrow> readers s 0 = Outside \<Longrightarrow>
      round_end dc choose_top (handler s) (world s) = Some (th, h, w) \<Longrightarrow>
      sctp_run dc choose_top (s\<lparr>handler := h, world := w, handler_thread := th, arrived := arrived s @ arrivals (handler s) h,
        failures := failures s + failures_at_exit (clean_shutdown s) th\<rparr>)"

section \<open>Messages arrive in order\<close>

text \<open>What the calls of the socket do to the messages of the handler: they only add some at the end.\<close>

definition extends :: "SctpHandler \<Rightarrow> SctpHandler \<Rightarrow> bool" where
  "extends h h' \<longleftrightarrow> active_receive h' = active_receive h \<and> (\<exists>ms. receive_buffer h' = receive_buffer h @ ms)"

lemma extends_refl [simp]: "extends h h"
  by (simp add: extends_def)

lemma extends_trans: "extends h1 h2 \<Longrightarrow> extends h2 h3 \<Longrightarrow> extends h1 h3"
  by (auto simp: extends_def)

lemma extends_arrivals: "extends h h' \<Longrightarrow> receive_buffer h' = receive_buffer h @ arrivals h h'"
  by (auto simp: extends_def arrivals_def)

lemma extends_update [simp]:
  "extends h (h'\<lparr>connected := c\<rparr>) = extends h h'" "extends h (h'\<lparr>timeout_queue := q\<rparr>) = extends h h'"
  "extends h (h'\<lparr>running := b\<rparr>) = extends h h'" "extends h (h'\<lparr>shutting_down := b\<rparr>) = extends h h'"
  "extends (h\<lparr>shutting_down := b\<rparr>) h' = extends h h'" "extends (h\<lparr>timeout_queue := q\<rparr>) h' = extends h h'"
  by (simp_all add: extends_def)

lemma handle_plain_extends: "extends h (handle_plain time cb h)"
  by (cases "(time, cb, h)" rule: handle_plain.cases) (auto simp: extends_def)

lemma fold_plain_extends: "extends h (fold (handle_plain time) cbs h)"
  by (induction cbs arbitrary: h) (auto intro: extends_trans handle_plain_extends)

lemma close_socket_extends: "close_socket dc h w = (h', w') \<Longrightarrow> extends h h'"
  using fold_plain_extends by (auto simp: close_socket_def split: prod.splits)

lemma handle_callback_extends: "handle_callback dc cb (h, w) = (h', w') \<Longrightarrow> extends h h'"
  using handle_plain_extends close_socket_extends by (cases cb) auto

lemma handle_callbacks_extends: "handle_callbacks dc cbs (h, w) = (h', w') \<Longrightarrow> extends h h'"
  unfolding handle_callbacks_def
proof (induction cbs arbitrary: h w)
  case (Cons cb cbs)
  obtain h1 w1 where cb: "handle_callback dc cb (h, w) = (h1, w1)" by (metis surj_pair)
  from handle_callback_extends [OF cb] Cons.IH [of h1 w1] Cons.prems cb show ?case
    by (auto intro: extends_trans)
qed simp

lemma Sctp_SendControlMessage_extends: "Sctp_SendControlMessage dc buffer h w = (st, h', w') \<Longrightarrow> extends h h'"
  by (auto simp: Sctp_SendControlMessage_def split: if_splits prod.splits
      dest!: handle_callbacks_extends close_socket_extends intro: extends_trans)

lemma read_packets_extends:
  assumes "read_packets dc h w = Some (h', w')"
  shows "extends h h'"
proof -
  have "extends h (fst (h', w'))"
  proof (rule read_packets.raw_induct [where P = "\<lambda>dc h w r. extends h (fst r)", OF _ assms])
    fix rp dc h w r
    assume IH: "\<And>dc h w y. rp dc h w = Some y \<Longrightarrow> extends h (fst y)"
      and eq: "(case udp_recvmsg dc (recv_buffer_size h) w of (NoPacket, w) \<Rightarrow> Some (h, w) | (Truncated, w) \<Rightarrow> Some (h, w)
        | (Packet bytes, w) \<Rightarrow> (case dc_receive_packet dc bytes w of
             (cbs, w) \<Rightarrow> (case handle_callbacks dc cbs (h, w) of (h, w) \<Rightarrow> rp dc h w))) = Some r"
    show "extends h (fst r)"
    proof (cases "udp_recvmsg dc (recv_buffer_size h) w")
      case (Pair pkt w1)
      show ?thesis
      proof (cases pkt)
        case (Packet bytes)
        obtain cbs w2 h3 w3 where c: "dc_receive_packet dc bytes w1 = (cbs, w2)" "handle_callbacks dc cbs (h, w2) = (h3, w3)"
          by (metis surj_pair)
        have "extends h3 (fst r)" using eq Pair Packet c by (intro IH [of dc h3 w3]) simp
        then show ?thesis using handle_callbacks_extends [OF c(2)] by (blast intro: extends_trans)
      qed (use eq Pair in auto)
    qed
  qed
  then show ?thesis by simp
qed

lemma fire_timeout_extends: "fire_timeout dc t h w = (h', w') \<Longrightarrow> extends h h'"
  by (auto simp: fire_timeout_def Let_def dest!: handle_callbacks_extends split: prod.splits)

lemma Run_timeouts_extends:
  assumes "Run_timeouts dc choose_top now h w = Some (h', w')"
  shows "extends h h'"
proof -
  have "extends h (fst (h', w'))"
  proof (rule Run_timeouts.raw_induct [where P = "\<lambda>dc choose_top now h w r. extends h (fst r)", OF _ assms])
    fix rt dc choose_top now h w r
    assume IH: "\<And>dc choose_top now h w y. rt dc choose_top now h w = Some y \<Longrightarrow> extends h (fst y)"
      and eq: "(let q = timeout_queue h; t = top_timeout choose_top q
        in if timeouts q \<noteq> [] \<and> expiration (timers q t) \<le> now
           then (case fire_timeout dc t h w of (h, w) \<Rightarrow> rt dc choose_top now h w)
           else Some (h, w)) = Some r"
    obtain h1 w1 where fire: "fire_timeout dc (top_timeout choose_top (timeout_queue h)) h w = (h1, w1)" by (metis surj_pair)
    have "rt dc choose_top now h1 w1 = Some r \<or> r = (h, w)" using eq fire by (auto simp: Let_def split: if_splits)
    then show "extends h (fst r)"
      using IH [of dc choose_top now h1 w1] extends_trans [OF fire_timeout_extends [OF fire]] by (cases r) auto
  qed
  then show ?thesis by simp
qed

lemma round_begin_extends: "round_begin dc clean h w = (clean', h', w') \<Longrightarrow> extends h h'"
  by (auto simp: round_begin_def dest!: handle_callbacks_extends split: if_splits prod.splits)

lemma round_end_extends: "round_end dc choose_top h w = Some (th, h', w') \<Longrightarrow> extends h h'"
  by (auto simp: round_end_def dest: Run_timeouts_extends split: if_splits option.splits)

text \<open>
  The invariant: at most one reader delivers, exactly when \<^verbatim>\<open>active_receive_\<close> is set, and what it has still to
  deliver comes before what the handler has buffered.
\<close>

definition undelivered :: "reader \<Rightarrow> u8 list list" where
  "undelivered r = (case r of Outside \<Rightarrow> [] | Delivering ms \<Rightarrow> ms)"

definition readers_ok :: "(nat \<Rightarrow> reader) \<Rightarrow> bool \<Rightarrow> u8 list list \<Rightarrow> bool" where
  "readers_ok rs active ms \<longleftrightarrow>
     (if active then \<exists>i. rs i = Delivering ms \<and> (\<forall>j. j \<noteq> i \<longrightarrow> rs j = Outside) else rs = (\<lambda>_. Outside) \<and> ms = [])"

definition system_ok :: "'w sctp_system \<Rightarrow> bool" where
  "system_ok s \<longleftrightarrow> (\<exists>ms. readers_ok (readers s) (active_receive (handler s)) ms \<and>
     arrived s = delivered s @ ms @ receive_buffer (handler s)) \<and>
     (handler_thread s = Sleeping \<longrightarrow> readers s 0 = Outside)"

lemma readers_okE:
  assumes "readers_ok rs active ms" and "rs i = Delivering ns"
  shows "active \<and> ms = ns \<and> (\<forall>j. j \<noteq> i \<longrightarrow> rs j = Outside)"
  using assms by (auto simp: readers_ok_def split: if_splits) (metis reader.distinct(1) reader.inject)+

lemma begin_receive_ok:
  assumes "readers_ok rs (active_receive h) ms" and "rs i = Outside" and "begin_receive h = (h', r)"
  shows "\<exists>ms'. readers_ok (rs(i := r)) (active_receive h') ms' \<and> ms' @ receive_buffer h' = ms @ receive_buffer h"
proof (cases "active_receive h")
  case True
  then show ?thesis using assms by (auto simp: begin_receive_def fun_upd_idem)
next
  case False
  then show ?thesis using assms
    by (auto simp: begin_receive_def next_batch_def readers_ok_def fun_upd_idem split: if_splits)
qed

lemma next_batch_ok:
  assumes "readers_ok rs (active_receive h) ms" and "rs i = Delivering []" and "next_batch h = (h', r)"
  shows "\<exists>ms'. readers_ok (rs(i := r)) (active_receive h') ms' \<and> ms' @ receive_buffer h' = ms @ receive_buffer h"
  using readers_okE [OF assms(1,2)] assms(3)
  by (auto simp: next_batch_def readers_ok_def fun_eq_iff split: if_splits)

lemma sctp_run_ok: "sctp_run dc choose_top s \<Longrightarrow> system_ok s"
proof (induction rule: sctp_run.induct)
  case (start ok flag socket_mtu local remote retransmissions client create q w h w')
  then have "extends (new_SctpHandler q) h"
    by (auto simp: Sctp_Init_def Let_def extends_def new_SctpHandler_def split: if_splits option.splits prod.splits
        dest!: handle_callbacks_extends)
  then show ?case by (auto simp: system_ok_def readers_ok_def extends_def new_SctpHandler_def)
next
  case (poll s i h w h' r)
  note ext = read_packets_extends [OF poll.hyps(4)]
  from poll.IH obtain ms where ms: "readers_ok (readers s) (active_receive h) ms"
    "arrived s = delivered s @ ms @ receive_buffer (handler s)" "handler_thread s = Sleeping \<longrightarrow> readers s 0 = Outside"
    using ext by (auto simp: system_ok_def extends_def)
  from begin_receive_ok [OF ms(1) poll.hyps(3,5)] ms(2,3) extends_arrivals [OF ext] poll.hyps(2) show ?case
    by (auto simp: system_ok_def)
next
  case (deliver s i m ms)
  then obtain ns where ns: "readers_ok (readers s) (active_receive (handler s)) ns"
    "arrived s = delivered s @ ns @ receive_buffer (handler s)" "handler_thread s = Sleeping \<longrightarrow> readers s 0 = Outside"
    by (auto simp: system_ok_def)
  with readers_okE [OF ns(1) deliver.hyps(2)] deliver.hyps(2) show ?case
    by (auto simp: system_ok_def readers_ok_def)
next
  case (resume s i h r)
  then obtain ns where ns: "readers_ok (readers s) (active_receive (handler s)) ns"
    "arrived s = delivered s @ ns @ receive_buffer (handler s)" "handler_thread s = Sleeping \<longrightarrow> readers s 0 = Outside"
    by (auto simp: system_ok_def)
  from next_batch_ok [OF ns(1) resume.hyps(2,3)] ns(2,3) resume.hyps(2) show ?case
    by (auto simp: system_ok_def)
next
  case (send s buffer st h w)
  with Sctp_SendControlMessage_extends [OF send.hyps(2)] show ?case
    by (auto simp: system_ok_def extends_def arrivals_def)
next
  case (shutdown s)
  then show ?case by (auto simp: system_ok_def Shutdown_request_def)
next
  case (timed_out s waited disconnected st h)
  then show ?case by (auto simp: system_ok_def Shutdown_result_def split: if_splits)
next
  case (stop s)
  then show ?case by (auto simp: system_ok_def)
next
  case (round_read s clean h1 w1 h w h' r)
  have ext: "extends (handler s) h"
    using round_begin_extends [OF round_read.hyps(4)] read_packets_extends [OF round_read.hyps(5)] by (rule extends_trans)
  from round_read.IH round_read.hyps(2) obtain ms where ms: "readers_ok (readers s) (active_receive h) ms"
    "arrived s = delivered s @ ms @ receive_buffer (handler s)" "readers s 0 = Outside"
    using ext by (auto simp: system_ok_def extends_def)
  from begin_receive_ok [OF ms(1,3) round_read.hyps(6)] ms(2) extends_arrivals [OF ext] show ?case
    by (auto simp: system_ok_def)
next
  case (round_done s th h w)
  with round_end_extends [OF round_done.hyps(4)] show ?case
    by (auto simp: system_ok_def extends_def arrivals_def)
qed


section \<open>Timeouts fire\<close>

definition queue_ok :: "SctpTimeoutQueue \<Rightarrow> bool" where
  "queue_ok q \<longleftrightarrow> distinct (timeouts q) \<and> (\<forall>t. in_queue (timers q t) = (t \<in> set (timeouts q)))"

definition expired :: "int \<Rightarrow> SctpTimeoutQueue \<Rightarrow> nat set" where
  "expired now q = {t \<in> set (timeouts q). expiration (timers q t) \<le> now}"

text \<open>
  What the socket promises of its timeouts, for the set of the ones that run: it starts a timeout only when it does
  not run, restarts it only when it runs, and gives it a positive duration.
\<close>

fun paired :: "(nat \<Rightarrow> bool) \<Rightarrow> plain_callback list \<Rightarrow> bool" where
  "paired runs [] = True"
| "paired runs (StartTimeout t duration tid # cbs) = (\<not> runs t \<and> 0 < duration \<and> paired (runs(t := True)) cbs)"
| "paired runs (StopTimeout t # cbs) = paired (runs(t := False)) cbs"
| "paired runs (RestartTimeout t duration tid # cbs) = (runs t \<and> 0 < duration \<and> paired runs cbs)"
| "paired runs (cb # cbs) = paired runs cbs"

fun runs_after :: "(nat \<Rightarrow> bool) \<Rightarrow> plain_callback list \<Rightarrow> nat \<Rightarrow> bool" where
  "runs_after runs [] = runs"
| "runs_after runs (StartTimeout t duration tid # cbs) = runs_after (runs(t := True)) cbs"
| "runs_after runs (StopTimeout t # cbs) = runs_after (runs(t := False)) cbs"
| "runs_after runs (cb # cbs) = runs_after runs cbs"

definition chooses_first :: "((nat \<Rightarrow> int) \<Rightarrow> nat list \<Rightarrow> nat) \<Rightarrow> bool" where
  "chooses_first choose_top \<longleftrightarrow>
     (\<forall>e ts. ts \<noteq> [] \<longrightarrow> choose_top e ts \<in> set ts \<and> (\<forall>t \<in> set ts. e (choose_top e ts) \<le> e t))"

definition timeouts_paired :: "'w dcsctp \<Rightarrow> ('w \<Rightarrow> nat \<Rightarrow> bool) \<Rightarrow> bool" where
  "timeouts_paired dc runs \<longleftrightarrow>
     (\<forall>w (q :: SctpTimeoutQueue) t. (\<lambda>t. in_queue (timers q t)) = runs w \<longrightarrow> runs w t \<longrightarrow>
        (\<exists>cbs w'. dc_handle_timeout dc (timeout_id (timers q t)) w = (map Callback cbs, w') \<and>
           paired ((runs w)(t := False)) cbs \<and> runs w' = runs_after ((runs w)(t := False)) cbs \<and>
           get_time dc w \<le> get_time dc w'))"

lemmas timer_defs = Timeout_Start_def Timeout_Stop_def Timeout_Restart_def AddTimeout_def RemoveTimeout_def set_timer_def

lemma Timeout_Start_ok:
  assumes "queue_ok q" and "\<not> in_queue (timers q t)" and "0 < duration" and "now \<le> time"
  shows "queue_ok (Timeout_Start time duration tid t q)"
    and "expired now (Timeout_Start time duration tid t q) \<subseteq> expired now q"
    and "(\<lambda>u. in_queue (timers (Timeout_Start time duration tid t q) u)) = (\<lambda>u. in_queue (timers q u))(t := True)"
  using assms by (auto simp: timer_defs queue_ok_def expired_def kNanosecondsPerMillisecond_def)

lemma Timeout_Stop_ok:
  assumes "queue_ok q"
  shows "queue_ok (Timeout_Stop t q)" and "expired now (Timeout_Stop t q) \<subseteq> expired now q - {t}"
    and "(\<lambda>u. in_queue (timers (Timeout_Stop t q) u)) = (\<lambda>u. in_queue (timers q u))(t := False)"
    and "timeout_id (timers (Timeout_Stop t q) t) = timeout_id (timers q t)"
  using assms by (auto simp: timer_defs queue_ok_def expired_def split: if_splits)

lemma Timeout_Restart_ok:
  assumes "queue_ok q" and "0 < duration" and "now \<le> time"
  shows "queue_ok (Timeout_Restart time duration tid t q)"
    and "expired now (Timeout_Restart time duration tid t q) \<subseteq> expired now q"
    and "(\<lambda>u. in_queue (timers (Timeout_Restart time duration tid t q) u)) = (\<lambda>u. in_queue (timers q u))"
  using assms by (auto simp: timer_defs queue_ok_def expired_def kNanosecondsPerMillisecond_def)

lemma handle_plain_timers:
  assumes "queue_ok (timeout_queue h)" and "(\<lambda>t. in_queue (timers (timeout_queue h) t)) = runs"
    and "paired runs (cb # cbs)" and "now \<le> time"
  defines "q' \<equiv> timeout_queue (handle_plain time cb h)"
  shows "queue_ok q' \<and> expired now q' \<subseteq> expired now (timeout_queue h) \<and> paired (\<lambda>t. in_queue (timers q' t)) cbs \<and>
    runs_after runs (cb # cbs) = runs_after (\<lambda>t. in_queue (timers q' t)) cbs"
proof (cases cb)
  case (StartTimeout t duration tid)
  then have "\<not> in_queue (timers (timeout_queue h) t)" "0 < duration" using assms(2,3) by auto
  from Timeout_Start_ok [OF assms(1) this assms(4), of tid] StartTimeout assms(2,3) show ?thesis by (simp add: q'_def)
next
  case (StopTimeout t)
  with Timeout_Stop_ok [OF assms(1), where t = t] assms(2,3) show ?thesis by (auto simp: q'_def)
next
  case (RestartTimeout t duration tid)
  then have "0 < duration" using assms(3) by simp
  from Timeout_Restart_ok [OF assms(1) this assms(4), of tid t] RestartTimeout assms(2,3) show ?thesis by (simp add: q'_def)
qed (use assms in \<open>simp_all add: q'_def\<close>)

lemma plain_callbacks_timers:
  assumes "queue_ok (timeout_queue h)" and "paired (\<lambda>t. in_queue (timers (timeout_queue h) t)) cbs" and "now \<le> time"
  defines "q' \<equiv> timeout_queue (fold (handle_plain time) cbs h)"
  shows "queue_ok q' \<and> expired now q' \<subseteq> expired now (timeout_queue h) \<and>
    (\<lambda>t. in_queue (timers q' t)) = runs_after (\<lambda>t. in_queue (timers (timeout_queue h) t)) cbs"
  using assms(1,2) unfolding q'_def
proof (induction cbs arbitrary: h)
  case (Cons cb cbs)
  note step = handle_plain_timers [OF Cons.prems(1) refl Cons.prems(2) assms(3)]
  note rest = Cons.IH [OF step [THEN conjunct1] step [THEN conjunct2, THEN conjunct2, THEN conjunct1]]
  have "fold (handle_plain time) (cb # cbs) h = fold (handle_plain time) cbs (handle_plain time cb h)" by simp
  then show ?case using rest step by (metis (no_types, lifting) subset_trans)
qed simp

lemma fire_timeout_timers:
  assumes "queue_ok (timeout_queue h)" and "(\<lambda>t. in_queue (timers (timeout_queue h) t)) = runs w"
    and "t \<in> set (timeouts (timeout_queue h))" and "timeouts_paired dc runs" and "now \<le> get_time dc w"
    and "fire_timeout dc t h w = (h', w')"
  shows "queue_ok (timeout_queue h')" and "(\<lambda>t. in_queue (timers (timeout_queue h') t)) = runs w'"
    and "expired now (timeout_queue h') \<subseteq> expired now (timeout_queue h) - {t}" and "now \<le> get_time dc w'"
proof -
  let ?q = "timeout_queue h"
  let ?h = "h\<lparr>timeout_queue := Timeout_Stop t ?q\<rparr>"
  note stop = Timeout_Stop_ok [OF assms(1), where t = t]
  have "runs w t" using assms(1,3) assms(2) [THEN fun_cong, of t] by (simp add: queue_ok_def)
  then obtain cbs w1 where dc: "dc_handle_timeout dc (timeout_id (timers ?q t)) w = (map Callback cbs, w1)"
    "paired ((runs w)(t := False)) cbs" "runs w1 = runs_after ((runs w)(t := False)) cbs" "get_time dc w \<le> get_time dc w1"
    using assms(2,4) unfolding timeouts_paired_def by blast
  have all: "handle_callbacks dc (map Callback cbs) (g, w1) = (fold (handle_plain (get_time dc w1)) cbs g, w1)" for g
    unfolding handle_callbacks_def by (induction cbs arbitrary: g) simp_all
  have res: "h' = fold (handle_plain (get_time dc w1)) cbs ?h" "w' = w1"
    using assms(6) by (auto simp: fire_timeout_def stop(4) dc(1) all)
  have q: "(\<lambda>u. in_queue (timers (timeout_queue ?h) u)) = (runs w)(t := False)" using stop(3) assms(2) by simp
  have le: "now \<le> get_time dc w1" using assms(5) dc(4) by simp
  note cbs = plain_callbacks_timers [of ?h cbs, unfolded q, OF _ dc(2) le, simplified, OF stop(1)]
  show "queue_ok (timeout_queue h')" "(\<lambda>t. in_queue (timers (timeout_queue h') t)) = runs w'" "now \<le> get_time dc w'"
    using cbs res dc(3) le by auto
  show "expired now (timeout_queue h') \<subseteq> expired now ?q - {t}" using cbs res(1) stop(2) by blast
qed

section \<open>Properties\<close>

text \<open>
  C8: the receiver of control messages gets them in the order the SCTP socket hands them over and each at most once,
  whatever threads poll the handler while its own thread reads, and at most one call of the receiver is in flight.
\<close>

theorem sctp_in_order:
  assumes "sctp_run dc choose_top s"
  shows "\<exists>rest. arrived s = delivered s @ rest \<and>
    (\<forall>i j ms ns. readers s i = Delivering ms \<and> readers s j = Delivering ns \<longrightarrow> i = j)"
proof -
  from sctp_run_ok [OF assms] obtain ms where ms: "readers_ok (readers s) (active_receive (handler s)) ms"
    "arrived s = delivered s @ ms @ receive_buffer (handler s)" by (auto simp: system_ok_def)
  then show ?thesis using readers_okE [OF ms(1)] by (metis reader.distinct(1))
qed


text \<open>A socket with one timeout, which it starts again whenever it fires.\<close>

definition demo_dcsctp :: "int dcsctp" where
  "demo_dcsctp = \<lparr>dc_connect = (\<lambda>w. ([], w)), dc_send = (\<lambda>_ w. (True, [], w)),
     dc_receive_packet = (\<lambda>m w. ([Callback (OnMessageReceived m)], w)),
     dc_handle_timeout = (\<lambda>tid w. ([Callback (StartTimeout 0 5 tid)], w + 1)), dc_shutdown = (\<lambda>w. ([], w)),
     dc_close = (\<lambda>w. ([], w)), udp_recvmsg = (\<lambda>_ w. if w < 2 then (Packet [7], w + 1) else (NoPacket, w)), get_time = (\<lambda>w. w)\<rparr>"

definition demo_queue :: SctpTimeoutQueue where
  "demo_queue = \<lparr>timers = (\<lambda>t. \<lparr>timeout_id = t, expiration = 9, in_queue = t = 0\<rparr>), timeouts = [0]\<rparr>"

definition demo_choice :: "(nat \<Rightarrow> int) \<Rightarrow> nat list \<Rightarrow> nat" where
  "demo_choice e ts = foldr (\<lambda>t best. if e t \<le> e best then t else best) ts (last ts)"

lemma demo_choice_first: "chooses_first demo_choice"
proof -
  have "demo_choice e ts \<in> set ts \<and> (\<forall>t \<in> set ts. e (demo_choice e ts) \<le> e t)" if "ts \<noteq> []" for e ts
  proof -
    have "foldr (\<lambda>t best. if e t \<le> e best then t else best) us b \<in> set (us @ [b]) \<and>
        (\<forall>t \<in> set (us @ [b]). e (foldr (\<lambda>t best. if e t \<le> e best then t else best) us b) \<le> e t)" for us b
      by (induction us) (auto intro: order_trans)
    from this [of ts "last ts"] that show ?thesis by (simp add: demo_choice_def insert_absorb)
  qed
  then show ?thesis by (simp add: chooses_first_def)
qed

lemma demo_paired: "timeouts_paired demo_dcsctp (\<lambda>w t. t = 0)"
  unfolding timeouts_paired_def
proof (intro allI impI)
  fix w :: int and q :: SctpTimeoutQueue and t :: nat
  assume "t = 0"
  then show "\<exists>cbs w'. dc_handle_timeout demo_dcsctp (timeout_id (timers q t)) w = (map Callback cbs, w') \<and>
      paired ((\<lambda>t. t = 0)(t := False)) cbs \<and> (\<lambda>t. t = 0) = runs_after ((\<lambda>t. t = 0)(t := False)) cbs \<and>
      get_time demo_dcsctp w \<le> get_time demo_dcsctp w'"
    by (intro exI [of _ "[StartTimeout 0 5 (timeout_id (timers q t))]"] exI [of _ "w + 1"])
      (auto simp: demo_dcsctp_def fun_eq_iff)
qed


text \<open>Two packets are read by a thread that polls, and the first message is delivered.\<close>

definition demo_system :: "int sctp_system" where
  "demo_system = \<lparr>handler = (new_SctpHandler demo_queue)\<lparr>running := True, mtu := 1500, recv_buffer_size := 1500\<rparr>, world = 0,
     clean_shutdown = False, handler_thread = Sleeping, readers = (\<lambda>_. Outside), arrived = [], delivered = [], failures = 0\<rparr>"

definition demo_delivering :: "int sctp_system" where
  "demo_delivering = demo_system\<lparr>handler := (handler demo_system)\<lparr>active_receive := True\<rparr>, world := 2,
     readers := (\<lambda>_. Outside)(1 := Delivering [[7]]), arrived := [[7], [7]], delivered := [[7]]\<rparr>"

lemma demo_run: "sctp_run demo_dcsctp demo_choice demo_delivering"
proof -
  have init: "Sctp_Init True 0 (Some 1500) 1 2 60 False (\<lambda>_ w. w) demo_dcsctp (new_SctpHandler demo_queue) 0 =
      (True, handler demo_system, 0)"
    by (simp add: Sctp_Init_def demo_system_def)
  have s0: "sctp_run demo_dcsctp demo_choice demo_system"
    using sctp_run.start [OF init] by (simp add: demo_system_def new_SctpHandler_def)
  let ?h = "(handler demo_system)\<lparr>receive_buffer := [[7], [7]]\<rparr>"
  have read: "read_packets demo_dcsctp (handler demo_system) (world demo_system) = Some (?h, 2)"
    by (simp add: demo_system_def demo_dcsctp_def new_SctpHandler_def read_packets.simps handle_callbacks_def)
  have recv: "begin_receive ?h = ((handler demo_system)\<lparr>active_receive := True\<rparr>, Delivering [[7], [7]])"
    by (simp add: begin_receive_def next_batch_def demo_system_def new_SctpHandler_def)
  have out: "readers demo_system 1 = Outside" by (simp add: demo_system_def)
  from sctp_run.deliver [OF sctp_run.poll [OF s0 _ out read recv], of 1 "[7]" "[[7]]"] show ?thesis
    by (simp add: demo_delivering_def demo_system_def arrivals_def new_SctpHandler_def)
qed

theorem sctp_in_order_witness: "\<exists>rest. [[7], [7]] = delivered demo_delivering @ rest \<and> delivered demo_delivering = [[7 :: u8]]"
  using sctp_in_order [OF demo_run] by (auto simp: demo_delivering_def)

end
