(* ===== verification/Net_Utilities.thy ===== *)
theory Net_Utilities
  imports Tcpxo_Prelude "HOL-Library.Sublist"
begin

text \<open>
  The network helpers of the plugin, \<^verbatim>\<open>tcpdirect_plugin/fastrak_offload/utilities.h\<close>: lists of interfaces as
  users write them, the choice of interfaces, addresses from strings, and the TCP sockets of the control channel.
  C strings are lists of characters without the final NUL. The tables of the system (interfaces, environment,
  resolver) and the socket calls are parameters.
\<close>

section \<open>Lists of interfaces\<close>

record netIf =
  if_prefix :: string
  if_port :: int

definition MAX_IFS :: nat where "MAX_IFS = 17"

text \<open>\<^verbatim>\<open>atoi\<close>: spaces, a sign and digits; what follows is ignored.\<close>

definition is_space :: "char \<Rightarrow> bool" where
  "is_space c \<longleftrightarrow> c \<in> set [CHR '' '', CHR 0x09, CHR 0x0A, CHR 0x0B, CHR 0x0C, CHR 0x0D]"

definition is_digit :: "char \<Rightarrow> bool" where
  "is_digit c \<longleftrightarrow> c \<in> set ''0123456789''"

definition digits_value :: "string \<Rightarrow> int" where
  "digits_value ds = foldl (\<lambda>n d. 10 * n + (of_char d - 48)) 0 ds"

definition atoi :: "string \<Rightarrow> int" where
  "atoi s =
     (case dropWhile is_space s of
        [] \<Rightarrow> 0
      | c # cs \<Rightarrow>
          if c = CHR ''-'' then - digits_value (takeWhile is_digit cs)
          else if c = CHR ''+'' then digits_value (takeWhile is_digit cs)
          else digits_value (takeWhile is_digit (c # cs)))"

definition close_if :: "int \<Rightarrow> string \<Rightarrow> netIf list \<Rightarrow> netIf list" where
  "close_if p current ifs = (if current \<noteq> [] then ifs @ [\<lparr>if_prefix = current, if_port = p\<rparr>] else ifs)"

text \<open>The loop of \<^verbatim>\<open>parseStringList\<close>: \<open>current\<close> is the prefix read so far, the string starts at \<^verbatim>\<open>ptr\<close>.\<close>

function parse_loop :: "nat \<Rightarrow> netIf list \<Rightarrow> string \<Rightarrow> string \<Rightarrow> netIf list" where
  "parse_loop maxList ifs current [] = close_if (- 1) current ifs"
| "parse_loop maxList ifs current (c # s) =
     (if c = CHR '':'' then
        let ifs = close_if (atoi s) current ifs
        in case dropWhile (\<lambda>c. c \<noteq> CHR '','') s of
             [] \<Rightarrow> ifs
           | _ # s \<Rightarrow> if length ifs < maxList then parse_loop maxList ifs [] s else ifs
      else if c = CHR '','' then
        let ifs = close_if (- 1) current ifs
        in if length ifs < maxList then parse_loop maxList ifs [] s else ifs
      else if length ifs < maxList then parse_loop maxList ifs (current @ [c]) s else ifs)"
  by pat_completeness auto
termination
proof (relation "measure (\<lambda>(m, ifs, cur, s). length s)", goal_cases)
  case (2 m ifs cur c s x r rest)
  then show ?case using length_dropWhile_le [of "\<lambda>c. c \<noteq> CHR '',''" s] by simp
qed auto

definition parseStringList :: "string option \<Rightarrow> nat \<Rightarrow> netIf list" where
  "parseStringList string maxList = (case string of None \<Rightarrow> [] | Some s \<Rightarrow> parse_loop maxList [] [] s)"

text \<open>\<^verbatim>\<open>strncmp\<close> as a test for equality.\<close>

definition strncmp_eq :: "string \<Rightarrow> string \<Rightarrow> nat \<Rightarrow> bool" where
  "strncmp_eq a b n \<longleftrightarrow> take n (a @ [CHR 0x00]) = take n (b @ [CHR 0x00])"

definition matchIf :: "string \<Rightarrow> string \<Rightarrow> bool \<Rightarrow> bool" where
  "matchIf string ref matchExact = strncmp_eq string ref (if matchExact then length string + 1 else length ref)"

definition matchPort :: "int \<Rightarrow> int \<Rightarrow> bool" where
  "matchPort port1 port2 = (if port1 = - 1 then True else if port2 = - 1 then True else port1 = port2)"

definition matchIfList :: "string \<Rightarrow> int \<Rightarrow> netIf list \<Rightarrow> bool \<Rightarrow> bool" where
  "matchIfList string port ifList matchExact =
     (if ifList = [] then True
      else list_ex (\<lambda>i. matchIf string (if_prefix i) matchExact \<and> matchPort port (if_port i)) ifList)"

section \<open>Interfaces\<close>

text \<open>\<^verbatim>\<open>socketAddress\<close>, with ports in host order.\<close>

datatype socketAddress = Sin u16 u32 | Sin6 u16 "u8 list" u32 | OtherFamily int

definition AF_INET :: int where "AF_INET = 2"
definition AF_INET6 :: int where "AF_INET6 = 10"

definition sa_family :: "socketAddress \<Rightarrow> int" where
  "sa_family a = (case a of Sin _ _ \<Rightarrow> AF_INET | Sin6 _ _ _ \<Rightarrow> AF_INET6 | OtherFamily f \<Rightarrow> f)"

definition socketToPort :: "socketAddress \<Rightarrow> u16" where
  "socketToPort a = (case a of Sin p _ \<Rightarrow> p | Sin6 p _ _ \<Rightarrow> p | OtherFamily _ \<Rightarrow> 0)"

record ifaddrs =
  ifa_name :: string
  ifa_addr :: "socketAddress option"
  ifa_netmask :: "socketAddress option"

definition envSocketFamily :: "(string \<Rightarrow> string option) \<Rightarrow> int" where
  "envSocketFamily getenv =
     (case getenv ''NCCL_SOCKET_FAMILY'' of
        None \<Rightarrow> - 1
      | Some s \<Rightarrow> if s = ''AF_INET'' then AF_INET else if s = ''AF_INET6'' then AF_INET6 else - 1)"

definition in6_is_loopback :: "u8 list \<Rightarrow> bool" where
  "in6_is_loopback a \<longleftrightarrow> a = replicate 15 0 @ [1]"

definition in6_is_linklocal :: "u8 list \<Rightarrow> bool" where
  "in6_is_linklocal a \<longleftrightarrow> a ! 0 = 0xFE \<and> and (a ! 1) 0xC0 = 0x80"

text \<open>The checks of an interface before the user's list.\<close>

definition usable :: "int \<Rightarrow> ifaddrs \<Rightarrow> bool" where
  "usable sock_family i =
     (case ifa_addr i of
        None \<Rightarrow> False
      | Some a \<Rightarrow>
          if sa_family a \<noteq> AF_INET \<and> sa_family a \<noteq> AF_INET6 then False
          else if sock_family \<noteq> - 1 \<and> sa_family a \<noteq> sock_family then False
          else case a of
                 Sin6 _ addr _ \<Rightarrow> \<not> in6_is_loopback addr \<and> \<not> in6_is_linklocal addr
               | _ \<Rightarrow> True)"

text \<open>The user's list: whether it excludes, whether names must be equal, and the entries.\<close>

definition user_list :: "string option \<Rightarrow> bool \<times> bool \<times> netIf list" where
  "user_list prefixList =
     (let searchNot = (case prefixList of Some (c # _) \<Rightarrow> c = CHR ''^'' | _ \<Rightarrow> False);
          prefixList = (if searchNot then map_option tl prefixList else prefixList);
          searchExact = (case prefixList of Some (c # _) \<Rightarrow> c = CHR ''='' | _ \<Rightarrow> False);
          prefixList = (if searchExact then map_option tl prefixList else prefixList)
      in (searchNot, searchExact, parseStringList prefixList MAX_IFS))"

definition accepts :: "string option \<Rightarrow> int \<Rightarrow> ifaddrs \<Rightarrow> bool" where
  "accepts prefixList sock_family i =
     (case user_list prefixList of
        (searchNot, searchExact, userIfs) \<Rightarrow>
          usable sock_family i \<and> (matchIfList (ifa_name i) (- 1) userIfs searchExact \<noteq> searchNot))"

text \<open>The loop over the interfaces: \<open>found\<close> are the names and addresses stored so far.\<close>

fun collect :: "(ifaddrs \<Rightarrow> bool) \<Rightarrow> nat \<Rightarrow> nat \<Rightarrow> (string \<times> socketAddress) list \<Rightarrow> ifaddrs list \<Rightarrow> (string \<times> socketAddress) list" where
  "collect accept maxIfNameSize maxIfs found [] = found"
| "collect accept maxIfNameSize maxIfs found (i # is) =
     (if length found \<ge> maxIfs then found
      else if \<not> accept i then collect accept maxIfNameSize maxIfs found is
      else if list_ex (\<lambda>(name, _). name = ifa_name i) found then collect accept maxIfNameSize maxIfs found is
      else collect accept maxIfNameSize maxIfs (found @ [(take maxIfNameSize (ifa_name i), the (ifa_addr i))]) is)"

definition findInterfaces ::
    "ifaddrs list \<Rightarrow> string option \<Rightarrow> int \<Rightarrow> nat \<Rightarrow> nat \<Rightarrow> (string \<times> socketAddress) list" where
  "findInterfaces interfaces prefixList sock_family maxIfNameSize maxIfs =
     collect (accepts prefixList sock_family) maxIfNameSize maxIfs [] interfaces"

text \<open>\<open>None\<close>: the code reads a netmask that is not there, or one of another family.\<close>

definition matchSubnet :: "ifaddrs \<Rightarrow> socketAddress \<Rightarrow> bool option" where
  "matchSubnet local_if remote =
     (if sa_family (the (ifa_addr local_if)) \<noteq> sa_family remote then Some False
      else case (the (ifa_addr local_if), ifa_netmask local_if, remote) of
             (Sin _ l, Some (Sin _ m), Sin _ r) \<Rightarrow> Some (xor (and l m) (and r m) = 0)
           | (Sin6 _ l lscope, Some (Sin6 _ m _), Sin6 _ r rscope) \<Rightarrow>
               Some (list_all (\<lambda>c. and (l ! c) (m ! c) = and (r ! c) (m ! c)) [0..<16] \<and> lscope = rscope)
           | (OtherFamily _, _, _) \<Rightarrow> Some False
           | _ \<Rightarrow> None)"

fun findInterfaceMatchSubnet ::
    "ifaddrs list \<Rightarrow> socketAddress \<Rightarrow> nat \<Rightarrow> (string \<times> socketAddress) list option" where
  "findInterfaceMatchSubnet [] remoteAddr ifNameMaxSize = Some []"
| "findInterfaceMatchSubnet (i # is) remoteAddr ifNameMaxSize =
     (case ifa_addr i of
        None \<Rightarrow> findInterfaceMatchSubnet is remoteAddr ifNameMaxSize
      | Some a \<Rightarrow>
          if sa_family a \<noteq> AF_INET \<and> sa_family a \<noteq> AF_INET6 then findInterfaceMatchSubnet is remoteAddr ifNameMaxSize
          else case matchSubnet i remoteAddr of
                 None \<Rightarrow> None
               | Some False \<Rightarrow> findInterfaceMatchSubnet is remoteAddr ifNameMaxSize
               | Some True \<Rightarrow> Some [(take ifNameMaxSize (ifa_name i), a)])"

section \<open>Addresses\<close>

text \<open>
  The resolver: the first address of a host, \<^verbatim>\<open>inet_pton\<close> for the two families and the index of an interface.
  \<open>stale\<close> are the address bytes of the result before the call, which stay when \<^verbatim>\<open>inet_pton\<close> fails.
\<close>

record resolver =
  getaddrinfo :: "string \<Rightarrow> socketAddress option"
  inet_pton6 :: "string \<Rightarrow> u8 list option"
  inet_pton4 :: "string \<Rightarrow> u32 option"
  if_nametoindex :: "string \<Rightarrow> u32"

definition GetSocketAddrFromString ::
    "resolver \<Rightarrow> u8 list \<Rightarrow> string option \<Rightarrow> ncclResult + socketAddress" where
  "GetSocketAddrFromString res stale ip_port_pair =
     (case ip_port_pair of
        None \<Rightarrow> Inl ncclInvalidArgument
      | Some s \<Rightarrow>
          if length s \<le> 1 then Inl ncclInvalidArgument
          else if hd s \<noteq> CHR ''['' then
            (case parseStringList (Some s) 1 of
               [ni] \<Rightarrow>
                 (case getaddrinfo res (if_prefix ni) of
                    Some (Sin _ a) \<Rightarrow> Inr (Sin (word_of_int (if_port ni)) a)
                  | Some (Sin6 _ a _) \<Rightarrow> Inr (Sin6 (word_of_int (if_port ni)) a 0)
                  | _ \<Rightarrow> Inl ncclInvalidArgument)
             | _ \<Rightarrow> Inl ncclInvalidArgument)
          else if CHR '']'' \<notin> set (tl s) then Inl ncclInvalidArgument
          else
            let body = takeWhile (\<lambda>c. c \<noteq> CHR '']'') (tl s);
                global_scope = (CHR ''%'' \<notin> set body);
                ip = (if global_scope then body else rev (tl (dropWhile (\<lambda>c. c \<noteq> CHR ''%'') (rev body))));
                if_name = rev (takeWhile (\<lambda>c. c \<noteq> CHR ''%'') (rev body));
                port = atoi (drop (length body + 3) s)
            in Inr (Sin6 (word_of_int port) (case inet_pton6 res ip of None \<Rightarrow> stale | Some a \<Rightarrow> a)
                  (if global_scope then 0 else if_nametoindex res if_name)))"

definition GetSocketIPFromString :: "resolver \<Rightarrow> string \<Rightarrow> u16 \<Rightarrow> u32 \<Rightarrow> ncclResult + socketAddress" where
  "GetSocketIPFromString res ip_addr port scope =
     (case inet_pton6 res ip_addr of
        Some a \<Rightarrow> Inr (Sin6 port a scope)
      | None \<Rightarrow> (case inet_pton4 res ip_addr of Some a \<Rightarrow> Inr (Sin port a) | None \<Rightarrow> Inl ncclInternalError))"

text \<open>
  The choice of interfaces when the user names none: \<open>uninit\<close> is the address left when the communicator id is no
  address.
\<close>

fun first_nonempty :: "(unit \<Rightarrow> 'a list) list \<Rightarrow> 'a list" where
  "first_nonempty [] = []"
| "first_nonempty (f # fs) = (if f () = [] then first_nonempty fs else f ())"

definition automatic_ifs ::
    "ifaddrs list \<Rightarrow> resolver \<Rightarrow> u8 list \<Rightarrow> socketAddress \<Rightarrow> (string \<Rightarrow> string option) \<Rightarrow> nat
      \<Rightarrow> (string \<Rightarrow> (string \<times> socketAddress) list) \<Rightarrow> (string \<times> socketAddress) list option" where
  "automatic_ifs interfaces res stale uninit getenv ifNameMaxSize find_ifs =
     (if find_ifs ''ib'' \<noteq> [] then Some (find_ifs ''ib'')
      else let others = first_nonempty [\<lambda>_. find_ifs ''^docker,lo'', \<lambda>_. find_ifs ''docker'', \<lambda>_. find_ifs ''lo'']
           in case getenv ''NCCL_COMM_ID'' of
                None \<Rightarrow> Some others
              | Some commId \<Rightarrow>
                  if length commId \<le> 1 then Some others
                  else let idAddr = (case GetSocketAddrFromString res stale (Some commId) of Inl _ \<Rightarrow> uninit | Inr a \<Rightarrow> a)
                       in case findInterfaceMatchSubnet interfaces idAddr ifNameMaxSize of
                            None \<Rightarrow> None
                          | Some [] \<Rightarrow> Some others
                          | Some ifs \<Rightarrow> Some ifs)"

definition findInterfaces_auto ::
    "ifaddrs list \<Rightarrow> resolver \<Rightarrow> u8 list \<Rightarrow> socketAddress \<Rightarrow> (string \<Rightarrow> string option) \<Rightarrow> nat \<Rightarrow> nat
      \<Rightarrow> (string \<times> socketAddress) list option" where
  "findInterfaces_auto interfaces res stale uninit getenv ifNameMaxSize maxIfs =
     (let find_ifs = (\<lambda>list. findInterfaces interfaces (Some list) (envSocketFamily getenv) ifNameMaxSize maxIfs);
          automatic = automatic_ifs interfaces res stale uninit getenv ifNameMaxSize find_ifs
      in case getenv ''NCCL_FASTRAK_SOCKET_IFNAME'' of
           Some user \<Rightarrow> if length user > 1 then Some (find_ifs user) else automatic
         | None \<Rightarrow> automatic)"

section \<open>TCP sockets\<close>

text \<open>
  The calls on TCP sockets. A call that creates or configures a socket gives a status; a transfer gives what was
  transferred, says that nothing could be (\<^verbatim>\<open>EINTR\<close>, \<^verbatim>\<open>EAGAIN\<close>), or fails.
\<close>

datatype connect_result = Connected | ConnRefused | ConnTimedOut | ConnFailed

datatype 'a io = Transferred 'a | WouldBlock | IoFailed

record 'w net_sys =
  sys_socket :: "int \<Rightarrow> 'w \<Rightarrow> int StatusOr \<times> 'w"
  sys_setsockopt :: "int \<Rightarrow> int \<Rightarrow> 'w \<Rightarrow> StatusCode \<times> 'w"
  sys_bind :: "int \<Rightarrow> socketAddress \<Rightarrow> 'w \<Rightarrow> StatusCode \<times> 'w"
  sys_getsockname :: "int \<Rightarrow> 'w \<Rightarrow> socketAddress StatusOr \<times> 'w"
  sys_listen :: "int \<Rightarrow> nat \<Rightarrow> 'w \<Rightarrow> StatusCode \<times> 'w"
  sys_connect :: "int \<Rightarrow> socketAddress \<Rightarrow> 'w \<Rightarrow> connect_result \<times> 'w"
  sys_usleep :: "nat \<Rightarrow> 'w \<Rightarrow> 'w"
  sys_receive :: "int \<Rightarrow> nat \<Rightarrow> bool \<Rightarrow> 'w \<Rightarrow> u8 list io \<times> 'w"
  sys_sendto :: "int \<Rightarrow> u8 list \<Rightarrow> bool \<Rightarrow> 'w \<Rightarrow> nat io \<times> 'w"

definition SO_REUSEADDR :: int where "SO_REUSEADDR = 2"
definition SO_REUSEPORT :: int where "SO_REUSEPORT = 15"
definition TCP_NODELAY :: int where "TCP_NODELAY = 1"

text \<open>\<^verbatim>\<open>createListenSocket\<close> gives the socket and the address with the port it got.\<close>

definition createListenSocket ::
    "'w net_sys \<Rightarrow> socketAddress \<Rightarrow> 'w \<Rightarrow> (int \<times> socketAddress) StatusOr \<times> 'w" where
  "createListenSocket sys localAddr w =
     (case sys_socket sys (sa_family localAddr) w of
        (Inl e, w) \<Rightarrow> (Inl e, w)
      | (Inr sockfd, w) \<Rightarrow>
          (case (if socketToPort localAddr \<noteq> 0 then sys_setsockopt sys sockfd (or SO_REUSEADDR SO_REUSEPORT) w else (kOk, w)) of
             (e, w) \<Rightarrow>
               if e \<noteq> kOk then (Inl e, w)
               else case sys_bind sys sockfd localAddr w of
                      (e, w) \<Rightarrow>
                        if e \<noteq> kOk then (Inl e, w)
                        else case sys_getsockname sys sockfd w of
                               (Inl e, w) \<Rightarrow> (Inl e, w)
                             | (Inr addr, w) \<Rightarrow>
                                 (case sys_listen sys sockfd 16384 w of
                                    (e, w) \<Rightarrow> if e \<noteq> kOk then (Inl e, w) else (Inr (sockfd, addr), w))))"

definition SLEEP_INT :: nat where "SLEEP_INT = 1000"
definition RETRY_REFUSED_TIMES :: nat where "RETRY_REFUSED_TIMES = 20000"
definition RETRY_TIMEDOUT_TIMES :: nat where "RETRY_TIMEDOUT_TIMES = 3"

function connect_retry :: "'w net_sys \<Rightarrow> int \<Rightarrow> socketAddress \<Rightarrow> nat \<Rightarrow> nat \<Rightarrow> 'w \<Rightarrow> ncclResult \<times> 'w" where
  "connect_retry sys fd remoteAddr refused_retries timedout_retries w =
     (case sys_connect sys fd remoteAddr w of
        (Connected, w') \<Rightarrow> (ncclSuccess, w')
      | (ConnRefused, w') \<Rightarrow>
          if refused_retries + 1 < RETRY_REFUSED_TIMES
          then connect_retry sys fd remoteAddr (refused_retries + 1) timedout_retries (sys_usleep sys SLEEP_INT w')
          else (ncclSystemError, w')
      | (ConnTimedOut, w') \<Rightarrow>
          if timedout_retries + 1 < RETRY_TIMEDOUT_TIMES
          then connect_retry sys fd remoteAddr refused_retries (timedout_retries + 1) (sys_usleep sys SLEEP_INT w')
          else (ncclSystemError, w')
      | (ConnFailed, w') \<Rightarrow> (ncclSystemError, w'))"
  by pat_completeness auto
termination
  by (relation "measure (\<lambda>(sys, fd, a, r, t, w). (RETRY_REFUSED_TIMES - r) + (RETRY_TIMEDOUT_TIMES - t))") auto

definition connectAddress :: "'w net_sys \<Rightarrow> socketAddress \<Rightarrow> 'w \<Rightarrow> (ncclResult \<times> int option) \<times> 'w" where
  "connectAddress sys remoteAddr w =
     (if sa_family remoteAddr \<noteq> AF_INET \<and> sa_family remoteAddr \<noteq> AF_INET6 then ((ncclInternalError, None), w)
      else case sys_socket sys (sa_family remoteAddr) w of
             (Inl _, w) \<Rightarrow> ((ncclSystemError, None), w)
           | (Inr fd, w) \<Rightarrow>
               (case sys_setsockopt sys fd TCP_NODELAY w of
                  (e, w) \<Rightarrow>
                    if e \<noteq> kOk then ((ncclSystemError, Some fd), w)
                    else case connect_retry sys fd remoteAddr 0 0 w of (r, w) \<Rightarrow> ((r, Some fd), w)))"

text \<open>
  A transfer of \<open>len\<close> bytes from or to \<open>buffer\<close>, of which \<open>offset\<close> are done. A round that moves bytes is followed
  by another until all are moved.
\<close>

datatype socket_op = NCCL_SOCKET_SEND | NCCL_SOCKET_RECV

definition progress_round ::
    "'w net_sys \<Rightarrow> socket_op \<Rightarrow> int \<Rightarrow> u8 list \<Rightarrow> nat \<Rightarrow> nat \<Rightarrow> bool \<Rightarrow> 'w \<Rightarrow> (nat \<times> u8 list) option \<times> 'w" where
  "progress_round sys op fd buffer len offset block w =
     (case op of
        NCCL_SOCKET_RECV \<Rightarrow>
          (case sys_receive sys fd (len - offset) block w of
             (IoFailed, w) \<Rightarrow> (None, w)
           | (WouldBlock, w) \<Rightarrow> (Some (0, buffer), w)
           | (Transferred bytes, w) \<Rightarrow>
               if bytes = [] then (None, w) else (Some (length bytes, write_at offset bytes buffer), w))
      | NCCL_SOCKET_SEND \<Rightarrow>
          (case sys_sendto sys fd (take (len - offset) (drop offset buffer)) block w of
             (IoFailed, w) \<Rightarrow> (None, w)
           | (WouldBlock, w) \<Rightarrow> (Some (0, buffer), w)
           | (Transferred n, w) \<Rightarrow> (Some (n, buffer), w)))"

function socketProgressOpt ::
    "'w net_sys \<Rightarrow> socket_op \<Rightarrow> int \<Rightarrow> u8 list \<Rightarrow> nat \<Rightarrow> nat \<Rightarrow> bool \<Rightarrow> 'w \<Rightarrow> ncclResult \<times> u8 list \<times> nat \<times> 'w" where
  "socketProgressOpt sys op fd buffer len offset block w =
     (case progress_round sys op fd buffer len offset block w of
        (None, w') \<Rightarrow> (ncclSystemError, buffer, offset, w')
      | (Some (bytes, buffer'), w') \<Rightarrow>
          if bytes > 0 \<and> offset + bytes < len then socketProgressOpt sys op fd buffer' len (offset + bytes) block w'
          else (ncclSuccess, buffer', offset + bytes, w'))"
  by pat_completeness auto
termination
  by (relation "measure (\<lambda>(sys, op, fd, buffer, len, offset, block, w). len - offset)") auto

declare socketProgressOpt.simps [simp del] connect_retry.simps [simp del]

definition socketProgress ::
    "'w net_sys \<Rightarrow> socket_op \<Rightarrow> int \<Rightarrow> u8 list \<Rightarrow> nat \<Rightarrow> nat \<Rightarrow> 'w \<Rightarrow> ncclResult \<times> u8 list \<times> nat \<times> 'w" where
  "socketProgress sys op fd buffer len offset w = socketProgressOpt sys op fd buffer len offset False w"

partial_function (option) socketWait ::
    "'w net_sys \<Rightarrow> socket_op \<Rightarrow> int \<Rightarrow> u8 list \<Rightarrow> nat \<Rightarrow> nat \<Rightarrow> 'w \<Rightarrow> (ncclResult \<times> u8 list \<times> nat \<times> 'w) option" where
  "socketWait sys op fd buffer len offset w =
     (if offset < len then
        case socketProgressOpt sys op fd buffer len offset True w of
          (r, buffer, offset, w) \<Rightarrow>
            if r \<noteq> ncclSuccess then Some (r, buffer, offset, w) else socketWait sys op fd buffer len offset w
      else Some (ncclSuccess, buffer, offset, w))"

text \<open>\<open>timed_out\<close> is the check of the timer, \<open>None\<close> when there is no timer or no timeout.\<close>

partial_function (option) socketSpin ::
    "'w net_sys \<Rightarrow> socket_op \<Rightarrow> int \<Rightarrow> u8 list \<Rightarrow> nat \<Rightarrow> nat \<Rightarrow> ('w \<Rightarrow> bool) option \<Rightarrow> 'w
      \<Rightarrow> (ncclResult \<times> u8 list \<times> nat \<times> 'w) option" where
  "socketSpin sys op fd buffer len offset timed_out w =
     (if offset < len then
        if (case timed_out of None \<Rightarrow> False | Some late \<Rightarrow> late w) then Some (ncclInternalError, buffer, offset, w)
        else case socketProgressOpt sys op fd buffer len offset False w of
               (r, buffer, offset, w) \<Rightarrow>
                 if r \<noteq> ncclSuccess then Some (r, buffer, offset, w)
                 else socketSpin sys op fd buffer len offset timed_out w
      else Some (ncclSuccess, buffer, offset, w))"


section \<open>What the parser computes\<close>

text \<open>The reference: the entries between commas, each a prefix and, after a colon, a port; empty prefixes count for nothing.\<close>

function split_comma :: "string \<Rightarrow> string list" where
  "split_comma s =
     (case dropWhile (\<lambda>c. c \<noteq> CHR '','') s of
        [] \<Rightarrow> [s]
      | _ # rest \<Rightarrow> takeWhile (\<lambda>c. c \<noteq> CHR '','') s # split_comma rest)"
  by pat_completeness auto
termination
proof (relation "measure length", goal_cases)
  case (2 s x rest)
  then show ?case using length_dropWhile_le [of "\<lambda>c. c \<noteq> CHR '',''" s] by simp
qed simp

declare split_comma.simps [simp del]

definition entry_prefix :: "string \<Rightarrow> string" where
  "entry_prefix e = takeWhile (\<lambda>c. c \<noteq> CHR '':'') e"

definition entry_if :: "string \<Rightarrow> netIf" where
  "entry_if e = \<lparr>if_prefix = entry_prefix e,
     if_port = (case dropWhile (\<lambda>c. c \<noteq> CHR '':'') e of [] \<Rightarrow> - 1 | _ # p \<Rightarrow> atoi p)\<rparr>"

definition entries :: "string \<Rightarrow> netIf list" where
  "entries s = map entry_if (filter (\<lambda>e. entry_prefix e \<noteq> []) (split_comma s))"

lemma up_to [simp]:
  "c \<notin> set xs \<Longrightarrow> dropWhile (\<lambda>x. x \<noteq> c) (xs @ c # ys) = c # ys" "c \<notin> set xs \<Longrightarrow> takeWhile (\<lambda>x. x \<noteq> c) (xs @ c # ys) = xs"
  "c \<notin> set xs \<Longrightarrow> dropWhile (\<lambda>x. x \<noteq> c) xs = []" "c \<notin> set xs \<Longrightarrow> takeWhile (\<lambda>x. x \<noteq> c) xs = xs"
  by (induction xs) auto

lemma split_comma_none: "CHR '','' \<notin> set s \<Longrightarrow> split_comma s = [s]"
  by (subst split_comma.simps) simp

lemma split_comma_comma: "CHR '','' \<notin> set xs \<Longrightarrow> split_comma (xs @ CHR '','' # s) = xs # split_comma s"
  by (subst split_comma.simps) simp

lemma atoi_comma: "atoi (s @ CHR '','' # t) = atoi s"
proof -
  have sp: "dropWhile is_space (s @ CHR '','' # t) = dropWhile is_space s @ CHR '','' # t"
    by (induction s) (simp_all add: is_space_def)
  have dg: "takeWhile is_digit (u @ CHR '','' # t) = takeWhile is_digit u" for u
    by (induction u) (simp_all add: is_digit_def)
  have "(case u @ CHR '','' # t of [] \<Rightarrow> 0 | c # cs \<Rightarrow> if c = CHR ''-'' then - digits_value (takeWhile is_digit cs)
      else if c = CHR ''+'' then digits_value (takeWhile is_digit cs) else digits_value (takeWhile is_digit (c # cs))) =
    (case u of [] \<Rightarrow> 0 | c # cs \<Rightarrow> if c = CHR ''-'' then - digits_value (takeWhile is_digit cs)
      else if c = CHR ''+'' then digits_value (takeWhile is_digit cs) else digits_value (takeWhile is_digit (c # cs)))" for u
    by (cases u) (simp_all add: dg is_digit_def digits_value_def)
  then show ?thesis unfolding atoi_def sp .
qed

lemma entry_plain: "CHR '':'' \<notin> set e \<Longrightarrow> entry_prefix e = e \<and> entry_if e = \<lparr>if_prefix = e, if_port = - 1\<rparr>"
  by (simp add: entry_prefix_def entry_if_def)

lemma entry_colon: "CHR '':'' \<notin> set e \<Longrightarrow> entry_prefix (e @ CHR '':'' # p) = e \<and>
    entry_if (e @ CHR '':'' # p) = \<lparr>if_prefix = e, if_port = atoi p\<rparr>"
  by (simp add: entry_prefix_def entry_if_def)

lemma close_if_entries:
  "CHR '':'' \<notin> set e \<Longrightarrow> close_if (- 1) e ifs = ifs @ map entry_if (filter (\<lambda>e. entry_prefix e \<noteq> []) [e])"
  "CHR '':'' \<notin> set e \<Longrightarrow> close_if (atoi p) e ifs = ifs @ map entry_if (filter (\<lambda>e. entry_prefix e \<noteq> []) [e @ CHR '':'' # p])"
  using entry_plain [of e] entry_colon [of e p] by (auto simp: close_if_def)

lemma length_close_if: "length (close_if p e ifs) \<le> Suc (length ifs)"
  by (simp add: close_if_def)

lemma dropWhile_Cons_split:
  assumes "dropWhile (\<lambda>c. c \<noteq> CHR '','') s = x # rest"
  shows "\<exists>pre. s = pre @ CHR '','' # rest \<and> CHR '','' \<notin> set pre"
proof -
  have "x = CHR '',''" using hd_dropWhile [of "\<lambda>c. c \<noteq> CHR '',''" s] assms by simp
  then have "s = takeWhile (\<lambda>c. c \<noteq> CHR '','') s @ CHR '','' # rest"
    using takeWhile_dropWhile_id [of "\<lambda>c. c \<noteq> CHR '',''" s] assms by simp
  then show ?thesis using set_takeWhileD by fastforce
qed

lemma parse_loop_entries:
  assumes "length ifs < maxList" and "CHR '':'' \<notin> set current" and "CHR '','' \<notin> set current"
  shows "parse_loop maxList ifs current s = take maxList (ifs @ entries (current @ s))"
  using assms
proof (induction maxList ifs current s rule: parse_loop.induct)
  case (1 maxList ifs current)
  then show ?case
    by (simp add: close_if_entries entries_def split_comma_none)
next
  case (2 maxList ifs current c s)
  have continue: "(if length ifs' < maxList then take maxList (ifs' @ es) else ifs') = take maxList (ifs' @ es)"
    if "length ifs' \<le> Suc (length ifs)" for ifs' es
    using that 2(4) by auto
  consider (colon) "c = CHR '':''" | (comma) "c = CHR '',''" | (other) "c \<noteq> CHR '':''" "c \<noteq> CHR '',''" by blast
  then show ?case
  proof cases
    case colon
    show ?thesis
    proof (cases "dropWhile (\<lambda>c. c \<noteq> CHR '','') s")
      case Nil
      then have "CHR '','' \<notin> set s" by (auto simp: dropWhile_eq_Nil_conv)
      then have "CHR '','' \<notin> set (current @ CHR '':'' # s)" using 2(6) by auto
      then show ?thesis
        using colon Nil 2(4) length_close_if [of "atoi s" current ifs]
        by (simp add: close_if_entries(2) [OF 2(5)] entries_def split_comma_none)
    next
      case (Cons x rest)
      from dropWhile_Cons_split [OF this] obtain pre where pre: "s = pre @ CHR '','' # rest" "CHR '','' \<notin> set pre" by blast
      let ?ifs = "close_if (atoi s) current ifs"
      have ifs: "?ifs = ifs @ map entry_if (filter (\<lambda>e. entry_prefix e \<noteq> []) [current @ CHR '':'' # pre])"
        using close_if_entries(2) [OF 2(5), of pre] by (simp only: pre(1) atoi_comma)
      have "split_comma (current @ c # s) = (current @ CHR '':'' # pre) # split_comma rest"
        using split_comma_comma [of "current @ CHR '':'' # pre" rest] pre 2(6) colon by simp
      then have "ifs @ entries (current @ c # s) = ?ifs @ entries rest"
        unfolding ifs entries_def by simp
      moreover have "parse_loop maxList ifs current (c # s) =
          (if length ?ifs < maxList then take maxList (?ifs @ entries rest) else ?ifs)"
        using colon Cons 2(1) [OF colon refl Cons] by (simp add: Let_def)
      ultimately show ?thesis using continue [OF length_close_if] by simp
    qed
  next
    case comma
    let ?ifs = "close_if (- 1) current ifs"
    have "ifs @ entries (current @ c # s) = ?ifs @ entries s"
      using comma 2(6) close_if_entries(1) [OF 2(5), of ifs] by (simp add: entries_def split_comma_comma)
    moreover have "parse_loop maxList ifs current (c # s) =
        (if length ?ifs < maxList then take maxList (?ifs @ entries s) else ?ifs)"
      using comma 2(2) by (simp add: Let_def)
    ultimately show ?thesis using continue [OF length_close_if] by simp
  next
    case other
    then show ?thesis using 2(3) [OF other] 2(4-6) by simp
  qed
qed

lemma parse_loop_zero: "parse_loop 0 [] [] s = []"
  by (cases s) (auto simp: close_if_def Let_def split: list.splits)

lemma matchIf_iff:
  assumes "CHR 0x00 \<notin> set string" and "CHR 0x00 \<notin> set ref"
  shows "matchIf string ref exact \<longleftrightarrow> (if exact then string = ref else prefix ref string)"
proof (cases exact)
  case True
  have "take (length string + 1) (ref @ [CHR 0x00]) = string @ [CHR 0x00] \<longleftrightarrow> ref = string"
  proof
    assume a: "take (length string + 1) (ref @ [CHR 0x00]) = string @ [CHR 0x00]"
    show "ref = string"
    proof (cases "length string < length ref")
      case True
      then have "set (take (length string + 1) ref) = set (string @ [CHR 0x00])" using a by simp
      then have "CHR 0x00 \<in> set ref" using set_take_subset by fastforce
      then show ?thesis using assms(2) by simp
    next
      case False
      then show ?thesis using a by (simp add: take_all)
    qed
  qed simp
  then show ?thesis using True by (auto simp: matchIf_def strncmp_eq_def)
next
  case False
  have "take (length ref) (string @ [CHR 0x00]) = ref \<longleftrightarrow> prefix ref string"
  proof (cases "length ref \<le> length string")
    case True
    then show ?thesis by (auto simp: prefix_def) (metis append_take_drop_id)
  next
    case False
    then have "take (length ref) (string @ [CHR 0x00]) = string @ [CHR 0x00]" by simp
    moreover have "\<not> prefix ref string" using False prefix_length_le by fastforce
    ultimately show ?thesis using assms(2) by auto
  qed
  then show ?thesis using False by (simp add: matchIf_def strncmp_eq_def)
qed

section \<open>What the choice of interfaces computes\<close>

fun first_named :: "(string \<times> 'a) list \<Rightarrow> (string \<times> 'a) list" where
  "first_named [] = []"
| "first_named (x # xs) = x # filter (\<lambda>y. fst y \<noteq> fst x) (first_named xs)"

lemma collect_spec:
  assumes "\<forall>i \<in> set is. length (ifa_name i) < n"
  shows "collect accept n m found is =
    (if length found \<ge> m then found
     else take m (found @ filter (\<lambda>y. fst y \<notin> fst ` set found)
       (first_named (map (\<lambda>i. (ifa_name i, the (ifa_addr i))) (filter accept is)))))"
  using assms
proof (induction "is" arbitrary: found)
  case (Cons i "is")
  let ?x = "(ifa_name i, the (ifa_addr i))"
  let ?rest = "first_named (map (\<lambda>i. (ifa_name i, the (ifa_addr i))) (filter accept is))"
  have name: "take n (ifa_name i) = ifa_name i" using Cons.prems by simp
  have seen: "list_ex (\<lambda>(name, _). name = ifa_name i) found \<longleftrightarrow> ifa_name i \<in> fst ` set found"
    by (force simp: list_ex_iff)
  consider "length found \<ge> m" | "length found < m" "\<not> accept i"
    | "length found < m" "accept i" "ifa_name i \<in> fst ` set found"
    | "length found < m" "accept i" "ifa_name i \<notin> fst ` set found" by linarith
  then show ?case
  proof cases
    case 3
    have "filter (\<lambda>y. fst y \<noteq> ifa_name i \<and> fst y \<notin> fst ` set found) ?rest = filter (\<lambda>y. fst y \<notin> fst ` set found) ?rest"
      using 3(3) by (intro filter_cong) metis+
    then show ?thesis using 3 Cons by (simp add: seen)
  next
    case 4
    then have "filter (\<lambda>y. fst y \<notin> fst ` set found \<and> fst y \<noteq> ifa_name i) ?rest =
        filter (\<lambda>y. fst y \<notin> fst ` set (found @ [?x])) ?rest"
      by (intro filter_cong) auto
    moreover obtain d where "m = Suc (length found + d)" using 4(1) by (auto simp: less_iff_Suc_add)
    ultimately show ?thesis using 4 Cons.IH [of "found @ [?x]"] Cons.prems
      by (cases d) (auto simp: seen name image_iff)
  qed (use Cons in auto)
qed simp


section \<open>One message over a TCP socket\<close>

text \<open>
  Two ends that transfer a message in calls of \<^verbatim>\<open>socketProgressOpt\<close>: the bytes between them and a schedule that
  says how the next calls of the system turn out, a limit on the bytes moved or a failure.
\<close>

type_synonym tcp_wire = "u8 list \<times> nat option list"

definition wire_recv :: "nat \<Rightarrow> tcp_wire \<Rightarrow> u8 list io \<times> tcp_wire" where
  "wire_recv n = (\<lambda>(wire, sched).
     case sched of
       [] \<Rightarrow> if take n wire = [] then (WouldBlock, wire, []) else (Transferred (take n wire), drop n wire, [])
     | None # sched \<Rightarrow> (IoFailed, wire, sched)
     | Some k # sched \<Rightarrow>
         if take (min k n) wire = [] then (WouldBlock, wire, sched)
         else (Transferred (take (min k n) wire), drop (min k n) wire, sched))"

definition wire_send :: "u8 list \<Rightarrow> tcp_wire \<Rightarrow> nat io \<times> tcp_wire" where
  "wire_send bytes = (\<lambda>(wire, sched).
     case sched of
       [] \<Rightarrow> (Transferred (length bytes), wire @ bytes, [])
     | None # sched \<Rightarrow> (IoFailed, wire, sched)
     | Some k # sched \<Rightarrow>
         if k = 0 then (WouldBlock, wire, sched) else (Transferred (length (take k bytes)), wire @ take k bytes, sched))"

definition wire_sys :: "tcp_wire net_sys" where
  "wire_sys = \<lparr>sys_socket = (\<lambda>_ w. (Inl kUnavailable, w)), sys_setsockopt = (\<lambda>_ _ w. (kOk, w)), sys_bind = (\<lambda>_ _ w. (kOk, w)),
     sys_getsockname = (\<lambda>_ w. (Inl kUnavailable, w)), sys_listen = (\<lambda>_ _ w. (kOk, w)), sys_connect = (\<lambda>_ _ w. (ConnFailed, w)),
     sys_usleep = (\<lambda>_ w. w), sys_receive = (\<lambda>_ n _. wire_recv n), sys_sendto = (\<lambda>_ bytes _. wire_send bytes)\<rparr>"

inductive tcp_transfer :: "u8 list \<Rightarrow> nat \<Rightarrow> u8 list \<Rightarrow> u8 list \<Rightarrow> nat \<Rightarrow> bool" for msg where
    start: "length buffer = length msg \<Longrightarrow> tcp_transfer msg 0 [] buffer 0"
  | send: "tcp_transfer msg sent wire buffer got \<Longrightarrow> sent < length msg \<Longrightarrow>
      socketProgressOpt wire_sys NCCL_SOCKET_SEND fd msg (length msg) sent block (wire, sched) = (r, msg', sent', wire', sched') \<Longrightarrow>
      tcp_transfer msg sent' wire' buffer got"
  | receive: "tcp_transfer msg sent wire buffer got \<Longrightarrow> got < length msg \<Longrightarrow>
      socketProgressOpt wire_sys NCCL_SOCKET_RECV fd buffer (length msg) got block (wire, sched) = (r, buffer', got', wire', sched') \<Longrightarrow>
      tcp_transfer msg sent wire' buffer' got'"

definition transfer_ok :: "u8 list \<Rightarrow> nat \<Rightarrow> u8 list \<Rightarrow> u8 list \<Rightarrow> nat \<Rightarrow> bool" where
  "transfer_ok msg sent wire buffer got \<longleftrightarrow> got \<le> sent \<and> sent \<le> length msg \<and> length buffer = length msg \<and>
     take got buffer = take got msg \<and> take got msg @ wire = take sent msg"

lemma progress_send:
  assumes "progress_round wire_sys NCCL_SOCKET_SEND fd msg (length msg) sent block (wire, sched) = (r, wire', sched')"
  shows "case r of None \<Rightarrow> wire' = wire
    | Some (n, msg') \<Rightarrow> msg' = msg \<and> n \<le> length msg - sent \<and> wire' = wire @ take n (drop sent msg)"
  using assms
  by (auto simp: progress_round_def wire_sys_def wire_send_def min_def split: list.splits option.splits if_splits)

lemma wire_recv_result:
  assumes "wire_recv n (wire, sched) = (x, wire', sched')"
  shows "case x of Transferred bytes \<Rightarrow> bytes \<noteq> [] \<and> wire = bytes @ wire' \<and> length bytes \<le> n | _ \<Rightarrow> wire' = wire"
  using assms by (auto simp: wire_recv_def split: list.splits option.splits if_splits)

lemma progress_recv:
  assumes "progress_round wire_sys NCCL_SOCKET_RECV fd buffer n got block (wire, sched) = (r, wire', sched')"
  shows "case r of None \<Rightarrow> wire' = wire
    | Some (k, buffer') \<Rightarrow> \<exists>bytes. wire = bytes @ wire' \<and> k = length bytes \<and> k \<le> n - got \<and> buffer' = write_at got bytes buffer"
proof -
  obtain x wire1 sched1 where x: "wire_recv (n - got) (wire, sched) = (x, wire1, sched1)" by (metis surj_pair)
  from wire_recv_result [OF x] x assms show ?thesis
    by (cases x) (auto simp: progress_round_def wire_sys_def split: if_splits)
qed

lemma transfer_send_round:
  assumes "transfer_ok msg sent wire buffer got" and "n \<le> length msg - sent"
  shows "transfer_ok msg (sent + n) (wire @ take n (drop sent msg)) buffer got"
proof -
  have "take got msg @ wire @ take n (drop sent msg) = take sent msg @ take n (drop sent msg)"
    using assms(1) by (simp add: transfer_ok_def flip: append_assoc)
  then show ?thesis using assms by (auto simp: transfer_ok_def take_add)
qed

lemma transfer_recv_round:
  assumes "transfer_ok msg sent (bytes @ wire) buffer got"
  shows "transfer_ok msg sent wire (write_at got bytes buffer) (got + length bytes)"
proof -
  have eq: "(take got msg @ bytes) @ wire = take sent msg" using assms by (simp add: transfer_ok_def)
  have length: "min (length msg) got + length bytes + length wire = min (length msg) sent"
    using arg_cong [OF eq, where f = length] by simp
  have len: "got + length bytes \<le> sent" "sent \<le> length msg" "length buffer = length msg" "got \<le> length msg"
    using assms length by (auto simp: transfer_ok_def min_def split: if_splits)
  have msg: "take (got + length bytes) msg = take got msg @ bytes"
    using arg_cong [OF eq, of "take (got + length bytes)"] len by (simp add: min_def split: if_splits)
  have "take (got + length bytes) (write_at got bytes buffer) = take got buffer @ bytes"
    using len by (simp add: write_at_def)
  then show ?thesis using assms len eq msg by (simp add: transfer_ok_def)
qed

lemma send_progress_ok:
  assumes "transfer_ok msg sent wire buffer got" 
    and "socketProgressOpt wire_sys NCCL_SOCKET_SEND fd msg (length msg) sent block (wire, sched) = (r, msg', sent', wire', sched')"
  shows "transfer_ok msg sent' wire' buffer got"
  using assms
proof (induction "length msg - sent" arbitrary: sent wire sched rule: less_induct)
  case less
  obtain p wire1 sched1 where p: "progress_round wire_sys NCCL_SOCKET_SEND fd msg (length msg) sent block (wire, sched) = (p, wire1, sched1)"
    by (metis surj_pair)
  note round = progress_send [OF p]
  show ?case
  proof (cases p)
    case None
    then show ?thesis using less.prems p round by (subst (asm) socketProgressOpt.simps) auto
  next
    case (Some q)
    then obtain n where q: "q = (n, msg)" "n \<le> length msg - sent" "wire1 = wire @ take n (drop sent msg)"
      using round by (cases q) auto
    have ok: "transfer_ok msg (sent + n) wire1 buffer got"
      using transfer_send_round [OF less.prems(1) q(2)] q(3) by simp
    show ?thesis
    proof (cases "n > 0 \<and> sent + n < length msg")
      case True
      then have "socketProgressOpt wire_sys NCCL_SOCKET_SEND fd msg (length msg) (sent + n) block (wire1, sched1) = (r, msg', sent', wire', sched')"
        using less.prems(2) p Some q(1) by (subst (asm) socketProgressOpt.simps) simp
      then show ?thesis using True ok less.hyps [of "sent + n" wire1 sched1] by linarith
    next
      case False
      then have "sent' = sent + n \<and> wire' = wire1"
        using less.prems(2) p Some q(1) by (subst (asm) socketProgressOpt.simps) auto
      then show ?thesis using ok by simp
    qed
  qed
qed

lemma recv_progress_ok:
  assumes "transfer_ok msg sent wire buffer got"
    and "socketProgressOpt wire_sys NCCL_SOCKET_RECV fd buffer (length msg) got block (wire, sched) = (r, buffer', got', wire', sched')"
  shows "transfer_ok msg sent wire' buffer' got'"
  using assms
proof (induction "length msg - got" arbitrary: got wire buffer sched rule: less_induct)
  case less
  obtain p wire1 sched1 where p: "progress_round wire_sys NCCL_SOCKET_RECV fd buffer (length msg) got block (wire, sched) = (p, wire1, sched1)"
    by (metis surj_pair)
  note round = progress_recv [OF p]
  show ?case
  proof (cases p)
    case None
    then show ?thesis using less.prems p round by (subst (asm) socketProgressOpt.simps) auto
  next
    case (Some q)
    then obtain bytes where q: "q = (length bytes, write_at got bytes buffer)" "wire = bytes @ wire1"
      using round by (cases q) auto
    have ok: "transfer_ok msg sent wire1 (write_at got bytes buffer) (got + length bytes)"
      using transfer_recv_round less.prems(1) q(2) by blast
    show ?thesis
    proof (cases "length bytes > 0 \<and> got + length bytes < length msg")
      case True
      then have "socketProgressOpt wire_sys NCCL_SOCKET_RECV fd (write_at got bytes buffer) (length msg) (got + length bytes) block (wire1, sched1)
          = (r, buffer', got', wire', sched')"
        using less.prems(2) p Some q(1) by (subst (asm) socketProgressOpt.simps) simp
      then show ?thesis using True ok less.hyps [of "got + length bytes" wire1 "write_at got bytes buffer" sched1] by linarith
    next
      case False
      then have "got' = got + length bytes \<and> wire' = wire1 \<and> buffer' = write_at got bytes buffer"
        using less.prems(2) p Some q(1) by (subst (asm) socketProgressOpt.simps) auto
      then show ?thesis using ok by simp
    qed
  qed
qed

lemma tcp_transfer_ok: "tcp_transfer msg sent wire buffer got \<Longrightarrow> transfer_ok msg sent wire buffer got"
proof (induction rule: tcp_transfer.induct)
  case (start buffer)
  then show ?case by (simp add: transfer_ok_def)
qed (blast intro: send_progress_ok recv_progress_ok)+

section \<open>Properties\<close>


text \<open>
  C18: the interfaces found are the ones the user's list accepts, in the order of the system, the first address of
  each name only, and at most \<open>maxIfs\<close>. Names are shorter than the space for them.
\<close>

theorem findInterfaces_first_accepted:
  assumes "\<forall>i \<in> set interfaces. length (ifa_name i) < maxIfNameSize"
  shows "findInterfaces interfaces prefixList sock_family maxIfNameSize maxIfs =
    take maxIfs (first_named (map (\<lambda>i. (ifa_name i, the (ifa_addr i))) (filter (accepts prefixList sock_family) interfaces)))"
  using collect_spec [OF assms, of "accepts prefixList sock_family" maxIfs "[]"] by (auto simp: findInterfaces_def)

text \<open>
  C10: a message transferred over a TCP socket in any number of calls on both ends, with short transfers and failures,
  is received as it was sent: when the receiver has counted all its bytes, its buffer is the message.
\<close>

theorem tcp_transfer_complete:
  assumes "tcp_transfer msg sent wire buffer got" and "got = length msg"
  shows "buffer = msg"
  using tcp_transfer_ok [OF assms(1)] assms(2) by (auto simp: transfer_ok_def)

text \<open>Two addresses of one interface, a second interface and the loopback.\<close>

definition demo_ifs :: "ifaddrs list" where
  "demo_ifs = [\<lparr>ifa_name = ''lo'', ifa_addr = Some (Sin 0 1), ifa_netmask = None\<rparr>,
     \<lparr>ifa_name = ''eth1'', ifa_addr = Some (Sin 0 2), ifa_netmask = None\<rparr>,
     \<lparr>ifa_name = ''eth1'', ifa_addr = Some (Sin 0 3), ifa_netmask = None\<rparr>,
     \<lparr>ifa_name = ''eth2'', ifa_addr = Some (Sin 0 4), ifa_netmask = None\<rparr>]"

lemma demo_accepts:
  "filter (accepts (Some ''^lo'') (- 1)) demo_ifs = tl demo_ifs"
  by (simp add: demo_ifs_def accepts_def user_list_def parseStringList_def MAX_IFS_def close_if_def usable_def sa_family_def
      matchIfList_def matchIf_def strncmp_eq_def matchPort_def AF_INET_def AF_INET6_def)

theorem findInterfaces_first_accepted_witness:
  "findInterfaces demo_ifs (Some ''^lo'') (- 1) 16 17 = [(''eth1'', Sin 0 2), (''eth2'', Sin 0 4)]"
proof -
  have "\<forall>i \<in> set demo_ifs. length (ifa_name i) < 16" by (simp add: demo_ifs_def)
  from findInterfaces_first_accepted [OF this, of "Some ''^lo''" "- 1" 17] show ?thesis
    unfolding demo_accepts by (simp add: demo_ifs_def)
qed

lemma demo_transfer: "tcp_transfer [1, 2, 3] 3 [] [1, 2, 3] 3"
proof -
  have t: "tcp_transfer [1, 2, 3] 0 [] [0, 0, 0] 0" by (rule tcp_transfer.start) simp
  have p: "socketProgressOpt wire_sys NCCL_SOCKET_SEND 5 [1, 2, 3] (length [1, 2, 3 :: u8]) 0 False ([], [Some 2, Some 0]) =
      (ncclSuccess, [1, 2, 3], 2, [1, 2], [])"
    by (simp add: socketProgressOpt.simps progress_round_def wire_sys_def wire_send_def)
  have t: "tcp_transfer [1, 2, 3] 2 [1, 2] [0, 0, 0] 0" using tcp_transfer.send [OF t _ p] by simp
  have p: "socketProgressOpt wire_sys NCCL_SOCKET_RECV 6 [0, 0, 0] (length [1, 2, 3 :: u8]) 0 False ([1, 2], []) =
      (ncclSuccess, [1, 2, 0], 2, [], [])"
    by (simp add: socketProgressOpt.simps progress_round_def wire_sys_def wire_recv_def write_at_def)
  have t: "tcp_transfer [1, 2, 3] 2 [] [1, 2, 0] 2" using tcp_transfer.receive [OF t _ p] by simp
  have p: "socketProgressOpt wire_sys NCCL_SOCKET_SEND 5 [1, 2, 3] (length [1, 2, 3 :: u8]) 2 False ([], []) =
      (ncclSuccess, [1, 2, 3], 3, [3], [])"
    by (simp add: socketProgressOpt.simps progress_round_def wire_sys_def wire_send_def)
  have t: "tcp_transfer [1, 2, 3] 3 [3] [1, 2, 0] 2" using tcp_transfer.send [OF t _ p] by simp
  have p: "socketProgressOpt wire_sys NCCL_SOCKET_RECV 6 [1, 2, 0] (length [1, 2, 3 :: u8]) 2 False ([3], []) =
      (ncclSuccess, [1, 2, 3], 3, [], [])"
    by (simp add: socketProgressOpt.simps progress_round_def wire_sys_def wire_recv_def write_at_def)
  show ?thesis using tcp_transfer.receive [OF t _ p] by simp
qed

theorem tcp_transfer_complete_witness: "[1, 2, 3] = ([1, 2, 3] :: u8 list) \<and> tcp_transfer [1, 2, 3] 3 [] [1, 2, 3] 3"
  using tcp_transfer_complete [OF demo_transfer] demo_transfer by simp

end
