(* ===== verification/Pci_Utils.thy ===== *)
theory Pci_Utils
  imports Net_Utilities "HOL-Library.Char_ord" "HOL-Library.List_Lexorder" "HOL-Library.Product_Lexorder"
begin

text \<open>
  PCI addresses and devices, \<^verbatim>\<open>buffer_mgmt_daemon/pci_utils.cc\<close>. The directory of the devices in \<^verbatim>\<open>sysfs\<close> is a
  tree; strings are ordered as \<^verbatim>\<open>std::string\<close> orders them.
\<close>

section \<open>Characters\<close>

definition to_lower :: "char \<Rightarrow> char" where
  "to_lower c = (if 65 \<le> (of_char c :: nat) \<and> (of_char c :: nat) \<le> 90 then char_of ((of_char c :: nat) + 32) else c)"

definition AsciiStrToLower :: "string \<Rightarrow> string" where
  "AsciiStrToLower s = map to_lower s"

definition hex_value :: "char \<Rightarrow> nat option" where
  "hex_value c =
     (let n = of_char c
      in if 48 \<le> n \<and> n \<le> 57 then Some (n - 48)
         else if 97 \<le> n \<and> n \<le> 102 then Some (n - 87)
         else if 65 \<le> n \<and> n \<le> 70 then Some (n - 55)
         else None)"

section \<open>Addresses\<close>

text \<open>
  \<^verbatim>\<open>%hx\<close> of \<^verbatim>\<open>sscanf\<close>: spaces, a sign, \<^verbatim>\<open>0x\<close> and at least one hexadecimal digit; the value is cut to 16 bits.
\<close>

definition scan_hx :: "string \<Rightarrow> (u16 \<times> string) option" where
  "scan_hx s =
     (let s = dropWhile is_space s;
          neg = (case s of c # _ \<Rightarrow> c = CHR ''-'' | [] \<Rightarrow> False);
          s = (case s of c # cs \<Rightarrow> if c = CHR ''-'' \<or> c = CHR ''+'' then cs else s | [] \<Rightarrow> []);
          s = (case s of a # x # cs \<Rightarrow> if a = CHR ''0'' \<and> (x = CHR ''x'' \<or> x = CHR ''X'') then cs else s | _ \<Rightarrow> s);
          digits = takeWhile (\<lambda>c. hex_value c \<noteq> None) s;
          v = foldl (\<lambda>n d. 16 * n + the (hex_value d)) 0 digits
      in if digits = [] then None
         else Some (if neg then - of_nat v else of_nat v, drop (length digits) s))"

definition expect :: "char \<Rightarrow> string \<Rightarrow> string option" where
  "expect c s = (case s of d # ds \<Rightarrow> if d = c then Some ds else None | [] \<Rightarrow> None)"

definition parse_pci_addr :: "string \<Rightarrow> (u16 \<times> u16 \<times> u16 \<times> u16) option" where
  "parse_pci_addr pci_addr =
     Option.bind (scan_hx pci_addr) (\<lambda>(domain, s).
     Option.bind (Option.bind (expect (CHR '':'') s) scan_hx) (\<lambda>(bus, s).
     Option.bind (Option.bind (expect (CHR '':'') s) scan_hx) (\<lambda>(device, s).
     Option.bind (Option.bind (expect (CHR ''.'') s) scan_hx) (\<lambda>(func, s).
       Some (domain, bus, device, func)))))"

section \<open>Devices\<close>

text \<open>An entry of a directory: its name, the files \<^verbatim>\<open>vendor\<close> and \<^verbatim>\<open>device\<close> in it, and its entries if it is a directory.\<close>

datatype pci_entry = Pci_Entry (d_name: string) (vendor_file: "string option") (device_file: "string option")
  (d_entries: "pci_entry list option")

definition PCI_ID_LEN :: nat where "PCI_ID_LEN = 6"

definition read_pci_id :: "string option \<Rightarrow> string" where
  "read_pci_id file = (case file of None \<Rightarrow> [] | Some t \<Rightarrow> takeWhile (\<lambda>c. c \<noteq> CHR 0x00) (take PCI_ID_LEN t))"

definition pci_match :: "string \<Rightarrow> string option \<Rightarrow> pci_entry \<Rightarrow> bool" where
  "pci_match vendor_id device_id e \<longleftrightarrow> read_pci_id (vendor_file e) = vendor_id \<and>
     (case device_id of None \<Rightarrow> True | Some d \<Rightarrow> read_pci_id (device_file e) = d)"

fun list_entries :: "string \<Rightarrow> string option \<Rightarrow> pci_entry list \<Rightarrow> string list" where
  "list_entries vendor_id device_id [] = []"
| "list_entries vendor_id device_id (Pci_Entry name v d content # es) =
     (if parse_pci_addr name = None then []
      else (if pci_match vendor_id device_id (Pci_Entry name v d content) then [name] else []) @
           (case content of None \<Rightarrow> [] | Some sub \<Rightarrow> list_entries vendor_id device_id sub)) @
     list_entries vendor_id device_id es"

definition list_vendor_devices :: "pci_entry list option \<Rightarrow> string \<Rightarrow> string option \<Rightarrow> string list option" where
  "list_vendor_devices dir vendor_id device_id = map_option (list_entries vendor_id device_id) dir"

text \<open>The nodes below a directory that have addresses all the way down.\<close>

fun pci_nodes :: "pci_entry list \<Rightarrow> pci_entry list" where
  "pci_nodes [] = []"
| "pci_nodes (Pci_Entry name v d content # es) =
     (if parse_pci_addr name = None then []
      else Pci_Entry name v d content # (case content of None \<Rightarrow> [] | Some sub \<Rightarrow> pci_nodes sub)) @ pci_nodes es"

lemma list_entries_nodes: "list_entries vendor_id device_id es = map d_name (filter (pci_match vendor_id device_id) (pci_nodes es))"
  by (induction vendor_id device_id es rule: list_entries.induct) (auto split: option.splits)

text \<open>\<open>inet_ntop\<close> is the conversion of the system.\<close>

definition get_ip_from_sockaddr :: "(socketAddress \<Rightarrow> string option) \<Rightarrow> socketAddress \<Rightarrow> string" where
  "get_ip_from_sockaddr inet_ntop sa =
     (case sa of
        Sin _ _ \<Rightarrow> (case inet_ntop sa of None \<Rightarrow> [] | Some host \<Rightarrow> host)
      | Sin6 _ _ _ \<Rightarrow> (case inet_ntop sa of None \<Rightarrow> [] | Some host \<Rightarrow> host)
      | OtherFamily _ \<Rightarrow> [])"

lemma to_lower_idem [simp]: "to_lower (to_lower c) = to_lower c"
proof -
  have "to_lower c = char_of ((of_char c :: nat) + 32) \<and> 97 \<le> (of_char (to_lower c) :: nat) \<or> to_lower c = c \<and> \<not> (65 \<le> (of_char c :: nat) \<and> (of_char c :: nat) \<le> 90)"
    by (auto simp: to_lower_def)
  then show ?thesis by (auto simp: to_lower_def)
qed

lemma AsciiStrToLower_idem [simp]: "AsciiStrToLower (AsciiStrToLower s) = AsciiStrToLower s"
  by (simp add: AsciiStrToLower_def)

end
