(* ===== verification/Net_Ifs.thy ===== *)
theory Net_Ifs
  imports Pci_Utils Mr_Cache
begin

text \<open>
  The network devices of the plugin, \<^verbatim>\<open>tcpdirect_plugin/fastrak_offload/common.cc\<close>: the devices found at start-up,
  the device closest to a GPU, the speed of a device and the numbering of the GPUs.
\<close>

section \<open>Devices\<close>

record ncclSocketDev =
  dev_addr :: socketAddress
  dev_ip_addr :: string
  dev_name :: string
  pci_path :: "string option"
  dev_mr_cache :: ncclMrCache

text \<open>\<^verbatim>\<open>kNcclNetIfs\<close>, \<^verbatim>\<open>kNcclSocketDevs\<close> and \<^verbatim>\<open>kNcclCtrlSocketDev\<close>.\<close>

record net_globals =
  net_ifs :: int
  socket_devs :: "ncclSocketDev list"
  ctrl_dev :: "(string \<times> socketAddress) option"

definition new_net_globals :: net_globals where
  "new_net_globals = \<lparr>net_ifs = - 1, socket_devs = [], ctrl_dev = None\<rparr>"

text \<open>The system: environment variables, interfaces, resolver, \<^verbatim>\<open>getnameinfo\<close> for addresses and \<^verbatim>\<open>realpath\<close>.\<close>

record net_env =
  env_getenv :: "string \<Rightarrow> string option"
  env_interfaces :: "ifaddrs list"
  env_resolver :: resolver
  env_stale :: "u8 list"
  env_uninit :: socketAddress
  env_ip_string :: "socketAddress \<Rightarrow> string"
  env_realpath :: "string \<Rightarrow> string option"

definition MAX_IF_NAME_SIZE :: nat where "MAX_IF_NAME_SIZE = 16"

definition ncclFasTrakGetPciPath :: "net_env \<Rightarrow> string \<Rightarrow> string option" where
  "ncclFasTrakGetPciPath env devName = env_realpath env (''/sys/class/net/'' @ devName @ ''/device'')"

definition make_dev :: "net_env \<Rightarrow> string \<times> socketAddress \<Rightarrow> ncclSocketDev" where
  "make_dev env = (\<lambda>(name, addr).
     \<lparr>dev_addr = addr, dev_ip_addr = take (kIpAddrMaxLen - 1) (env_ip_string env addr), dev_name = name,
      pci_path = ncclFasTrakGetPciPath env name, dev_mr_cache = new_ncclMrCache\<rparr>)"

text \<open>
  The order of the devices: the ones without a PCI path first, by name; the others by the last part of their path.
  \<^verbatim>\<open>std::sort\<close> leaves the order of equal keys open.
\<close>

definition dev_key :: "ncclSocketDev \<Rightarrow> bool \<times> string" where
  "dev_key dev =
     (case pci_path dev of
        None \<Rightarrow> (False, dev_name dev)
      | Some path \<Rightarrow> (True, rev (takeWhile (\<lambda>c. c \<noteq> CHR ''/'') (rev path))))"

definition found_interfaces :: "net_env \<Rightarrow> (string \<times> socketAddress) list option" where
  "found_interfaces env =
     (if env_getenv env ''LOOPBACK_ONLY'' \<noteq> None
      then Some (findInterfaces (env_interfaces env) (Some ''lo'') (- 1) MAX_IF_NAME_SIZE MAX_IFS)
      else case env_getenv env ''NCCL_FASTRAK_IFNAME'' of
             Some ifname \<Rightarrow> Some (findInterfaces (env_interfaces env) (Some ifname) (- 1) MAX_IF_NAME_SIZE MAX_IFS)
           | None \<Rightarrow>
               findInterfaces_auto (env_interfaces env) (env_resolver env) (env_stale env) (env_uninit env) (env_getenv env)
                 MAX_IF_NAME_SIZE MAX_IFS)"

definition initializeNetIfs :: "net_env \<Rightarrow> net_globals \<Rightarrow> (ncclResult \<times> net_globals) option" where
  "initializeNetIfs env g =
     (if net_ifs g \<noteq> - 1 then Some (ncclSuccess, g)
      else case found_interfaces env of
             None \<Rightarrow> None
           | Some found \<Rightarrow>
               let g = g\<lparr>net_ifs := int (length found)\<rparr>
               in if found = [] then Some (ncclSystemError, g)
                  else let ctrl = (case env_getenv env ''NCCL_FASTRAK_CTRL_DEV'' of None \<Rightarrow> ''eth0'' | Some c \<Rightarrow> c)
                       in case findInterfaces (env_interfaces env) (Some ctrl) (- 1) MAX_IF_NAME_SIZE 1 of
                            [] \<Rightarrow> Some (ncclSystemError, g)
                          | c # _ \<Rightarrow>
                              Some (ncclSuccess,
                                g\<lparr>ctrl_dev := Some c, socket_devs := sort_key dev_key (map (make_dev env) found)\<rparr>))"

fun discovered_at :: "(socketAddress \<Rightarrow> string) \<Rightarrow> string \<Rightarrow> nat \<Rightarrow> ncclSocketDev list \<Rightarrow> nat option" where
  "discovered_at ip_string ip_addr i [] = None"
| "discovered_at ip_string ip_addr i (d # ds) =
     (if ip_addr = ip_string (dev_addr d) then Some i else discovered_at ip_string ip_addr (Suc i) ds)"

definition ipAddrDiscovered :: "net_env \<Rightarrow> net_globals \<Rightarrow> string \<Rightarrow> nat option" where
  "ipAddrDiscovered env g ip_addr = discovered_at (env_ip_string env) ip_addr 0 (socket_devs g)"

text \<open>The mapping of the daemon from GPUs to the addresses of their closest NICs; \<open>None\<close> when it cannot be obtained.\<close>

definition GetGpuNicMapping :: "net_env \<Rightarrow> net_globals \<Rightarrow> (string \<times> string list) list option \<Rightarrow> string \<rightharpoonup> nat" where
  "GetGpuNicMapping env g nic_mapping_resp =
     (case nic_mapping_resp of
        None \<Rightarrow> Map.empty
      | Some pci_nic_map \<Rightarrow>
          foldl (\<lambda>m (gpu_pci, ips).
              case ipAddrDiscovered env g (hd ips) of
                None \<Rightarrow> m
              | Some net_dev \<Rightarrow> m(AsciiStrToLower gpu_pci \<mapsto> net_dev)) Map.empty pci_nic_map)"

text \<open>The mapping is computed at the first call; \<open>cached\<close> is the static variable.\<close>

definition getClosestNetdev ::
    "net_env \<Rightarrow> net_globals \<Rightarrow> (string \<times> string list) list option \<Rightarrow> (string \<rightharpoonup> nat) option \<Rightarrow> string
      \<Rightarrow> nat StatusOr \<times> (string \<rightharpoonup> nat) option" where
  "getClosestNetdev env g nic_mapping_resp cached gpu_pci =
     (let mapping = (case cached of None \<Rightarrow> GetGpuNicMapping env g nic_mapping_resp | Some m \<Rightarrow> m)
      in (case mapping (AsciiStrToLower gpu_pci) of None \<Rightarrow> Inl kInternal | Some d \<Rightarrow> Inr d, Some mapping))"

text \<open>\<^verbatim>\<open>strtol\<close> with base 0, and the speed from the file of the device, of which at most 8 bytes are read.\<close>

definition radix_digits :: "nat \<Rightarrow> string \<Rightarrow> int" where
  "radix_digits radix s =
     int (foldl (\<lambda>n d. radix * n + the (hex_value d)) 0
       (takeWhile (\<lambda>c. case hex_value c of None \<Rightarrow> False | Some v \<Rightarrow> v < radix) s))"

definition strtol0 :: "string \<Rightarrow> int" where
  "strtol0 s =
     (let s = dropWhile is_space s;
          (neg, s) = (case s of c # cs \<Rightarrow> if c = CHR ''-'' then (True, cs) else if c = CHR ''+'' then (False, cs) else (False, s)
                              | [] \<Rightarrow> (False, []));
          v = (case s of
                 z # x # cs \<Rightarrow>
                   if z = CHR ''0'' \<and> (x = CHR ''x'' \<or> x = CHR ''X'') then radix_digits 16 cs
                   else if z = CHR ''0'' then radix_digits 8 (x # cs)
                   else radix_digits 10 s
               | _ \<Rightarrow> radix_digits 10 s)
      in if neg then - v else v)"

definition GetSpeed :: "string option \<Rightarrow> int" where
  "GetSpeed speed_file =
     (let speed = (case speed_file of
                     None \<Rightarrow> 0
                   | Some t \<Rightarrow> if t = [] then 0 else sint (word_of_int (strtol0 (take 8 t @ drop (length t) ''        '')) :: 32 word))
      in if speed \<le> 0 then 10000 else speed)"

section \<open>Numbers of GPUs\<close>

text \<open>\<^verbatim>\<open>insert\<close> of a hash map keeps an entry that is there. The indices are bytes.\<close>

fun number_gpus :: "nat \<Rightarrow> string list \<Rightarrow> (string \<times> u8) list \<Rightarrow> (string \<times> u8) list" where
  "number_gpus idx [] m = m"
| "number_gpus idx (gpu # gpus) m =
     (let bdf = AsciiStrToLower gpu
      in number_gpus (Suc idx) gpus (if map_of m bdf = None then m @ [(bdf, of_nat idx)] else m))"

definition GetPciAddrToFastrakIdxMap :: "string list option \<Rightarrow> (string \<times> u8) list" where
  "GetPciAddrToFastrakIdxMap gpus =
     (case gpus of None \<Rightarrow> [] | Some gs \<Rightarrow> number_gpus 0 (remdups_adj (sort gs)) [])"

definition GetFastrakIdxFromPci :: "(string \<times> u8) list \<Rightarrow> string \<Rightarrow> u8 StatusOr" where
  "GetFastrakIdxFromPci m pci_addr =
     (case map_of m (AsciiStrToLower pci_addr) of None \<Rightarrow> Inl kNotFound | Some idx \<Rightarrow> Inr idx)"

definition GetPciFromFastrakIdx :: "(string \<times> u8) list \<Rightarrow> u8 \<Rightarrow> string StatusOr" where
  "GetPciFromFastrakIdx m fastrak_idx =
     (case find (\<lambda>(addr, idx). idx = fastrak_idx) m of None \<Rightarrow> Inl kNotFound | Some (addr, idx) \<Rightarrow> Inr addr)"

text \<open>The numbering is injective as long as the indices fit in a byte.\<close>

definition numbered :: "nat \<Rightarrow> (string \<times> u8) list \<Rightarrow> bool" where
  "numbered n m \<longleftrightarrow> distinct (map fst m) \<and> distinct (map snd m) \<and> (\<forall>i \<in> set (map snd m). unat i < n)"

lemma number_gpus_numbered:
  "numbered idx m \<Longrightarrow> idx + length gpus \<le> 256 \<Longrightarrow> numbered (idx + length gpus) (number_gpus idx gpus m)"
proof (induction gpus arbitrary: idx m)
  case (Cons gpu gpus)
  let ?bdf = "AsciiStrToLower gpu"
  let ?m = "if map_of m ?bdf = None then m @ [(?bdf, of_nat idx)] else m"
  have idx: "unat (of_nat idx :: u8) = idx" using Cons.prems(2) by (simp add: unat_of_nat)
  have "of_nat idx \<notin> snd ` set m"
  proof
    assume "of_nat idx \<in> snd ` set m"
    then have "unat (of_nat idx :: u8) < idx" using Cons.prems(1) by (auto simp: numbered_def)
    then show False using idx by simp
  qed
  then have "numbered (Suc idx) ?m"
    using Cons.prems(1) idx by (auto simp: numbered_def map_of_eq_None_iff less_SucI)
  from Cons.IH [OF this] Cons.prems(2) show ?case by (simp add: Let_def)
qed simp

lemma number_gpus_covers: "AsciiStrToLower g \<in> fst ` set m \<or> g \<in> set gpus \<Longrightarrow> AsciiStrToLower g \<in> fst ` set (number_gpus idx gpus m)"
proof (induction gpus arbitrary: idx m)
  case (Cons gpu gpus)
  let ?m = "if map_of m (AsciiStrToLower gpu) = None then m @ [(AsciiStrToLower gpu, of_nat idx)] else m"
  have "AsciiStrToLower g \<in> fst ` set ?m \<or> g \<in> set gpus"
    using Cons.prems by (force simp: map_of_eq_None_iff)
  from Cons.IH [OF this, of "Suc idx"] show ?case by (simp add: Let_def)
qed simp

lemma find_snd:
  assumes "distinct (map snd m)" and "(a, i) \<in> set m"
  shows "find (\<lambda>(addr, idx). idx = i) m = Some (a, i)"
  using assms by (induction m) (auto simp: image_iff)

section \<open>Properties\<close>

text \<open>
  After a successful start-up the devices are the found interfaces in the order of their PCI addresses, the ones
  without an address first by name, and there is a control device.
\<close>

theorem initializeNetIfs_sorted:
  assumes "initializeNetIfs env new_net_globals = Some (ncclSuccess, g)"
  shows "\<exists>found. found_interfaces env = Some found \<and> found \<noteq> [] \<and> mset (socket_devs g) = mset (map (make_dev env) found) \<and>
    sorted (map dev_key (socket_devs g)) \<and> net_ifs g = int (length (socket_devs g)) \<and> ctrl_dev g \<noteq> None"
  using assms
  by (auto simp: initializeNetIfs_def new_net_globals_def Let_def split: option.splits if_splits list.splits)

text \<open>
  When start-up fails, calling it again succeeds although no device was set up.
\<close>

theorem initializeNetIfs_after_failure:
  assumes "initializeNetIfs env new_net_globals = Some (ncclSystemError, g)"
  shows "initializeNetIfs env g = Some (ncclSuccess, g) \<and> socket_devs g = []"
  using assms
  by (auto simp: initializeNetIfs_def new_net_globals_def Let_def split: option.splits if_splits list.splits)

text \<open>
  Every GPU of the list has an index, and the index gives back its address in lower case, for up to 256 GPUs.
\<close>

theorem fastrak_idx_roundtrip:
  assumes "length gpus \<le> 256" and "gpu \<in> set gpus"
  shows "\<exists>idx. GetFastrakIdxFromPci (GetPciAddrToFastrakIdxMap (Some gpus)) gpu = Inr idx \<and>
    GetPciFromFastrakIdx (GetPciAddrToFastrakIdxMap (Some gpus)) idx = Inr (AsciiStrToLower gpu)"
proof -
  let ?gs = "remdups_adj (sort gpus)"
  let ?m = "GetPciAddrToFastrakIdxMap (Some gpus)"
  have "length ?gs \<le> 256" using remdups_adj_length [of "sort gpus"] assms(1) by simp
  then have num: "numbered (length ?gs) ?m"
    using number_gpus_numbered [of 0 "[]" ?gs] by (simp add: GetPciAddrToFastrakIdxMap_def numbered_def)
  have "AsciiStrToLower gpu \<in> fst ` set ?m"
    using number_gpus_covers [of gpu "[]" ?gs 0] assms(2) by (simp add: GetPciAddrToFastrakIdxMap_def)
  then obtain idx where idx: "(AsciiStrToLower gpu, idx) \<in> set ?m" by auto
  then have "map_of ?m (AsciiStrToLower gpu) = Some idx" using num by (simp add: numbered_def)
  moreover have "find (\<lambda>(addr, i). i = idx) ?m = Some (AsciiStrToLower gpu, idx)"
    using num idx by (intro find_snd) (auto simp: numbered_def)
  ultimately show ?thesis by (simp add: GetFastrakIdxFromPci_def GetPciFromFastrakIdx_def)
qed

text \<open>A machine with two interfaces and the loopback, and one without interfaces.\<close>

definition demo_net :: "ifaddrs list \<Rightarrow> net_env" where
  "demo_net ifs = \<lparr>env_getenv = [''NCCL_FASTRAK_IFNAME'' \<mapsto> ''eth'', ''NCCL_FASTRAK_CTRL_DEV'' \<mapsto> ''lo''],
     env_interfaces = ifs, env_resolver = \<lparr>getaddrinfo = (\<lambda>_. None), inet_pton6 = (\<lambda>_. None), inet_pton4 = (\<lambda>_. None),
     if_nametoindex = (\<lambda>_. 0)\<rparr>, env_stale = [], env_uninit = OtherFamily 0, env_ip_string = (\<lambda>_. ''10.0.0.1''),
     env_realpath = (\<lambda>_. None)\<rparr>"

definition demo_globals :: net_globals where
  "demo_globals = \<lparr>net_ifs = 2, socket_devs = map (make_dev (demo_net demo_ifs)) [(''eth1'', Sin 0 2), (''eth2'', Sin 0 4)],
     ctrl_dev = Some (''lo'', Sin 0 1)\<rparr>"

lemmas demo_net_defs = demo_net_def demo_ifs_def findInterfaces_def accepts_def user_list_def parseStringList_def
  MAX_IFS_def MAX_IF_NAME_SIZE_def close_if_def usable_def sa_family_def matchIfList_def matchIf_def strncmp_eq_def
  matchPort_def AF_INET_def AF_INET6_def

lemma demo_found: "found_interfaces (demo_net demo_ifs) = Some [(''eth1'', Sin 0 2), (''eth2'', Sin 0 4)]"
  by (simp add: found_interfaces_def demo_net_defs)

lemma demo_initialize: "initializeNetIfs (demo_net demo_ifs) new_net_globals = Some (ncclSuccess, demo_globals)"
proof -
  have ctrl: "findInterfaces demo_ifs (Some ''lo'') (- 1) MAX_IF_NAME_SIZE 1 = [(''lo'', Sin 0 1)]"
    by (simp add: demo_net_defs)
  have env: "env_interfaces (demo_net demo_ifs) = demo_ifs" "env_getenv (demo_net demo_ifs) ''NCCL_FASTRAK_CTRL_DEV'' = Some ''lo''"
    by (simp_all add: demo_net_def)
  have "dev_key (make_dev (demo_net demo_ifs) (''eth1'', Sin 0 2)) \<le> dev_key (make_dev (demo_net demo_ifs) (''eth2'', Sin 0 4))"
    by (simp add: make_dev_def ncclFasTrakGetPciPath_def demo_net_def dev_key_def less_eq_char_def)
  then show ?thesis
    by (simp add: initializeNetIfs_def new_net_globals_def demo_found env ctrl [simplified] demo_globals_def Let_def)
qed

theorem initializeNetIfs_sorted_witness: "sorted (map dev_key (socket_devs demo_globals)) \<and> length (socket_devs demo_globals) = 2"
  using initializeNetIfs_sorted [OF demo_initialize] by (auto simp: demo_globals_def)

lemma demo_failure: "initializeNetIfs (demo_net []) new_net_globals = Some (ncclSystemError, new_net_globals\<lparr>net_ifs := 0\<rparr>)"
  by (simp add: initializeNetIfs_def new_net_globals_def found_interfaces_def demo_net_def findInterfaces_def)

theorem initializeNetIfs_after_failure_witness:
  "initializeNetIfs (demo_net []) (new_net_globals\<lparr>net_ifs := 0\<rparr>) = Some (ncclSuccess, new_net_globals\<lparr>net_ifs := 0\<rparr>)"
  using initializeNetIfs_after_failure [OF demo_failure] by simp

theorem fastrak_idx_roundtrip_witness:
  "\<exists>idx. GetFastrakIdxFromPci (GetPciAddrToFastrakIdxMap (Some [''0000:0B:00.0'', ''0000:04:00.0''])) ''0000:0B:00.0'' = Inr idx \<and>
    GetPciFromFastrakIdx (GetPciAddrToFastrakIdxMap (Some [''0000:0B:00.0'', ''0000:04:00.0''])) idx =
      Inr (AsciiStrToLower ''0000:0B:00.0'')"
  by (rule fastrak_idx_roundtrip) simp_all

end
