(* ===== verification/Rxdm_Daemon.thy ===== *)
theory Rxdm_Daemon
  imports Pci_Utils
begin

text \<open>
  The receive data path manager as a process: the pairing of GPUs and NICs (\<^verbatim>\<open>a3_gpu_rxq_configurator.cc\<close>), the
  servers that tell clients the NIC of a GPU (\<^verbatim>\<open>gpu_ip_server.cc\<close>), the health of the process
  (\<^verbatim>\<open>fastrak_gpumem_manager_cloud.cc\<close>) and its start-up and main loop (\<^verbatim>\<open>fastrak_gpumem_manager.cc\<close>,
  \<^verbatim>\<open>fastrak_gpumem_manager_startup.cc\<close>). \<open>None\<close> is the end of the process by a crash.
\<close>

section \<open>Pairing of GPUs and NICs\<close>

record GpuRxqConfiguration =
  gpu_pci_addr :: string
  nic_pci_addr :: string
  ifname :: string
  ip_addr :: string

record A3GpuRxqConfigurator =
  netdev_pci_to_netdev :: "(string \<times> string \<times> string) list"
  parent_switches :: "string list"
  nic_vendor_id :: string
  nic_device_id :: string

definition new_A3GpuRxqConfigurator :: A3GpuRxqConfigurator where
  "new_A3GpuRxqConfigurator = \<lparr>netdev_pci_to_netdev = [], parent_switches = [], nic_vendor_id = [], nic_device_id = []\<rparr>"

text \<open>The file system: \<^verbatim>\<open>realpath\<close>, the identifiers in a directory and the entries of a directory.\<close>

record sysfs =
  fs_realpath :: "string \<Rightarrow> string option"
  fs_file :: "string \<Rightarrow> string option"
  fs_dir :: "string \<Rightarrow> pci_entry list option"
  fs_ntop :: "socketAddress \<Rightarrow> string option"

definition strstr :: "string \<Rightarrow> string \<Rightarrow> bool" where
  "strstr hay needle = list_ex (prefix needle) (suffixes hay)"

definition drop_slash :: "string \<Rightarrow> string" where
  "drop_slash path = (if path \<noteq> [] \<and> last path = CHR ''/'' then butlast path else path)"

definition before_slash :: "string \<Rightarrow> string" where
  "before_slash path = rev (tl (dropWhile (\<lambda>c. c \<noteq> CHR ''/'') (rev path)))"

definition after_slash :: "string \<Rightarrow> string" where
  "after_slash path = rev (takeWhile (\<lambda>c. c \<noteq> CHR ''/'') (rev path))"

text \<open>Cutting a path at its last slash so many times; \<open>None\<close> when there is no slash left.\<close>

fun up_hops :: "nat \<Rightarrow> string \<Rightarrow> string option" where
  "up_hops 0 path = Some path"
| "up_hops (Suc n) path = (if CHR ''/'' \<in> set path then up_hops n (before_slash path) else None)"

definition MAX_HOPS :: nat where "MAX_HOPS = 4"

definition DiscoverNic ::
    "sysfs \<Rightarrow> nat \<Rightarrow> ifaddrs \<Rightarrow> A3GpuRxqConfigurator \<Rightarrow> A3GpuRxqConfigurator option" where
  "DiscoverNic fs num_hops i c =
     (case ifa_addr i of
        None \<Rightarrow> Some c
      | Some a \<Rightarrow>
          if sa_family a \<noteq> AF_INET \<and> sa_family a \<noteq> AF_INET6 then Some c
          else let if_sysfs_path = ''/sys/class/net/'' @ ifa_name i @ ''/device/''
               in case fs_realpath fs if_sysfs_path of
                    None \<Rightarrow> Some c
                  | Some real \<Rightarrow>
                      if strstr real ''/virtual'' then Some c
                      else let c = c\<lparr>nic_vendor_id := read_pci_id (fs_file fs (if_sysfs_path @ ''/vendor'')),
                                     nic_device_id := read_pci_id (fs_file fs (if_sysfs_path @ ''/device''))\<rparr>;
                               path = drop_slash real
                           in if num_hops = 0 then None
                              else case up_hops num_hops path of
                                     None \<Rightarrow> None
                                   | Some switch \<Rightarrow>
                                       let pci_addr = after_slash path; ip = get_ip_from_sockaddr (fs_ntop fs) a
                                       in if parse_pci_addr pci_addr = None then Some c
                                          else if ip = [] then Some c
                                          else if map_of (netdev_pci_to_netdev c) (AsciiStrToLower pci_addr) \<noteq> None then Some c
                                          else Some (c\<lparr>netdev_pci_to_netdev := netdev_pci_to_netdev c @
                                                         [(AsciiStrToLower pci_addr, ifa_name i, ip)],
                                                       parent_switches := List.insert switch (parent_switches c)\<rparr>))"

fun discover_ifs :: "sysfs \<Rightarrow> nat \<Rightarrow> ifaddrs list \<Rightarrow> A3GpuRxqConfigurator \<Rightarrow> A3GpuRxqConfigurator option" where
  "discover_ifs fs num_hops [] c = Some c"
| "discover_ifs fs num_hops (i # is) c =
     (case DiscoverNic fs num_hops i c of None \<Rightarrow> None | Some c \<Rightarrow> discover_ifs fs num_hops is c)"

text \<open>\<open>ifs\<close> is \<open>None\<close> when the interfaces cannot be listed, and a negative flag counts as 0.\<close>

definition DiscoverAllNics :: "sysfs \<Rightarrow> int \<Rightarrow> ifaddrs list option \<Rightarrow> A3GpuRxqConfigurator \<Rightarrow> A3GpuRxqConfigurator option" where
  "DiscoverAllNics fs hops_flag ifs c =
     (case ifs of
        None \<Rightarrow> Some c
      | Some [] \<Rightarrow> Some c
      | Some is \<Rightarrow> discover_ifs fs (nat (min hops_flag (int MAX_HOPS))) is c)"

text \<open>
  The GPUs below one switch, sorted, go to its NICs, sorted, in runs of equal length. Dividing by a length of 0 and
  reading past the last NIC end the process.
\<close>

fun pair_from :: "(string \<times> string \<times> string) list \<Rightarrow> string list \<Rightarrow> nat \<Rightarrow> nat \<Rightarrow> string list \<Rightarrow> GpuRxqConfiguration list option" where
  "pair_from netdevs nics gpus_per_nic i [] = Some []"
| "pair_from netdevs nics gpus_per_nic i (gpu # gpus) =
     (if gpus_per_nic = 0 then None
      else if i div gpus_per_nic \<ge> length nics then None
      else let netdev_pci = AsciiStrToLower (nics ! (i div gpus_per_nic))
           in case pair_from netdevs nics gpus_per_nic (Suc i) gpus of
                None \<Rightarrow> None
              | Some cs \<Rightarrow>
                  (case map_of netdevs netdev_pci of
                     None \<Rightarrow> Some cs
                   | Some (name, ip) \<Rightarrow>
                       Some (\<lparr>gpu_pci_addr = AsciiStrToLower gpu, nic_pci_addr = netdev_pci, ifname = name, ip_addr = ip\<rparr> # cs)))"

definition pair_gpus :: "(string \<times> string \<times> string) list \<Rightarrow> string list \<Rightarrow> string list \<Rightarrow> GpuRxqConfiguration list option" where
  "pair_gpus netdevs gpus nics =
     (if nics = [] \<or> gpus = [] then Some []
      else pair_from netdevs (sort nics) (length gpus div length nics) 0 (sort gpus))"

text \<open>The code visits the switches in the order of a hash set; here they are in the order of their discovery.\<close>

definition config_key :: "GpuRxqConfiguration \<Rightarrow> string \<times> string" where
  "config_key c = (nic_pci_addr c, gpu_pci_addr c)"

definition kNvidiaVendorId :: string where "kNvidiaVendorId = ''0x10de''"
definition kH100DeviceId :: string where "kH100DeviceId = ''0x2330''"

fun configure_switches ::
    "sysfs \<Rightarrow> A3GpuRxqConfigurator \<Rightarrow> string list \<Rightarrow> GpuRxqConfiguration list \<Rightarrow> GpuRxqConfiguration list option" where
  "configure_switches fs c [] configs = Some configs"
| "configure_switches fs c (switch # switches) configs =
     (case list_vendor_devices (fs_dir fs switch) kNvidiaVendorId (Some kH100DeviceId) of
        None \<Rightarrow> configure_switches fs c switches configs
      | Some gpus \<Rightarrow>
          (case list_vendor_devices (fs_dir fs switch) (nic_vendor_id c) (Some (nic_device_id c)) of
             None \<Rightarrow> configure_switches fs c switches configs
           | Some nics \<Rightarrow>
               if nics = [] \<or> gpus = [] then configure_switches fs c switches configs
               else case pair_gpus (netdev_pci_to_netdev c) gpus nics of
                      None \<Rightarrow> None
                    | Some new \<Rightarrow> configure_switches fs c switches (sort_key config_key (configs @ new))))"

definition GetConfigurations ::
    "sysfs \<Rightarrow> int \<Rightarrow> ifaddrs list option \<Rightarrow> A3GpuRxqConfigurator \<Rightarrow> (GpuRxqConfiguration list \<times> A3GpuRxqConfigurator) option" where
  "GetConfigurations fs hops_flag ifs c =
     (case DiscoverAllNics fs hops_flag ifs c of
        None \<Rightarrow> None
      | Some c \<Rightarrow> map_option (\<lambda>cs. (cs, c)) (configure_switches fs c (parent_switches c) []))"

section \<open>Servers of NIC addresses\<close>

text \<open>
  A request has an optional text and a file descriptor, 0 when there is none. \<open>parse\<close> reads the message: \<open>None\<close> when
  it is no message, and \<open>Some None\<close> when the address of the GPU is not set. The answer has the status and the address.
\<close>

definition HandleGetNicIp ::
    "(u8 list \<Rightarrow> string option option) \<Rightarrow> GpuRxqConfiguration \<Rightarrow> u8 list option \<Rightarrow> bool \<times> StatusCode \<times> string option" where
  "HandleGetNicIp parse config request =
     (case request of
        None \<Rightarrow> (False, kInvalidArgument, None)
      | Some text \<Rightarrow>
          (case parse text of
             None \<Rightarrow> (False, kInvalidArgument, None)
           | Some None \<Rightarrow> (True, kInvalidArgument, None)
           | Some (Some gpu_pci) \<Rightarrow>
               if gpu_pci \<noteq> gpu_pci_addr config then (True, kInvalidArgument, None)
               else (True, kOk, Some (ip_addr config))))"

definition add_closest_nic_ip :: "string \<Rightarrow> string \<Rightarrow> (string \<times> string list) list \<Rightarrow> (string \<times> string list) list" where
  "add_closest_nic_ip gpu_pci ip m =
     (case map_of m gpu_pci of
        None \<Rightarrow> m @ [(gpu_pci, [ip])]
      | Some _ \<Rightarrow> map (\<lambda>(g, ips). if g = gpu_pci then (g, ips @ [ip]) else (g, ips)) m)"

definition HandleGetNicMapping ::
    "(u8 list \<Rightarrow> bool) \<Rightarrow> GpuRxqConfiguration list \<Rightarrow> u8 list \<Rightarrow> int \<Rightarrow> (string \<times> string list) list option" where
  "HandleGetNicMapping parses configs text fd =
     (if fd \<noteq> 0 then None
      else if \<not> parses text then None
      else Some (foldl (\<lambda>m c. add_closest_nic_ip (gpu_pci_addr c) (ip_addr c) m) [] configs))"

section \<open>Health\<close>

datatype HealthStatus = kInitializing | kHealthy | kUnhealthy

text \<open>Times are integers; \<open>None\<close> is \<^verbatim>\<open>absl::InfinitePast()\<close>.\<close>

record FastrakGpumemManagerCloud =
  health_status :: HealthStatus
  start_time :: int
  init_done_time :: "int option"
  fatal_error_time :: "int option"
  status_message :: string

definition new_FastrakGpumemManagerCloud :: "int \<Rightarrow> FastrakGpumemManagerCloud" where
  "new_FastrakGpumemManagerCloud now =
     \<lparr>health_status = kInitializing, start_time = now, init_done_time = None, fatal_error_time = None, status_message = []\<rparr>"

definition SetHealthStatus ::
    "int \<Rightarrow> HealthStatus \<Rightarrow> string \<Rightarrow> FastrakGpumemManagerCloud \<Rightarrow> FastrakGpumemManagerCloud" where
  "SetHealthStatus now status message h =
     (case health_status h of
        kInitializing \<Rightarrow>
          if status = kHealthy then h\<lparr>init_done_time := Some now, health_status := status, status_message := message\<rparr>
          else if status = kUnhealthy then h\<lparr>fatal_error_time := Some now, health_status := status, status_message := message\<rparr>
          else h
      | kHealthy \<Rightarrow>
          if status = kUnhealthy then h\<lparr>fatal_error_time := Some now, health_status := status, status_message := message\<rparr>
          else h
      | kUnhealthy \<Rightarrow> h)"

datatype json_value = JTime int | JText string

definition time_entry :: "string \<Rightarrow> int option \<Rightarrow> (string \<times> json_value) list" where
  "time_entry name t = (case t of None \<Rightarrow> [] | Some x \<Rightarrow> [(name, JTime x)])"

definition GetHealthCheckResponseJson :: "int \<Rightarrow> FastrakGpumemManagerCloud \<Rightarrow> (string \<times> json_value) list" where
  "GetHealthCheckResponseJson now h =
     (''startup_time'', JTime (start_time h)) #
     (case health_status h of
        kInitializing \<Rightarrow> [(''status'', JText ''initializing'')]
      | kHealthy \<Rightarrow> (''status'', JText ''ok'') # time_entry ''init_done_time'' (init_done_time h)
      | kUnhealthy \<Rightarrow>
          (''status'', JText ''unhealthy'') # time_entry ''init_done_time'' (init_done_time h) @
          time_entry ''fatal_error_time'' (fatal_error_time h) @ [(''error_description'', JText (status_message h))]) @
     [(''current_time'', JTime now)]"

definition health_response_code :: "FastrakGpumemManagerCloud \<Rightarrow> nat" where
  "health_response_code h = (case health_status h of kInitializing \<Rightarrow> 503 | kHealthy \<Rightarrow> 200 | kUnhealthy \<Rightarrow> 500)"

section \<open>Manager\<close>

record FasTrakGpuNicInfo =
  info_gpu_pci_addr :: string
  info_nic_pci_addr :: string
  info_ifname :: string
  info_ip_addr :: string
  info_dxs_ip :: string
  info_dxs_port :: string

definition new_FasTrakGpuNicInfo :: "GpuRxqConfiguration \<Rightarrow> FasTrakGpuNicInfo" where
  "new_FasTrakGpuNicInfo c =
     \<lparr>info_gpu_pci_addr = gpu_pci_addr c, info_nic_pci_addr = nic_pci_addr c, info_ifname = ifname c, info_ip_addr = ip_addr c,
      info_dxs_ip = ''169.254.169.254'', info_dxs_port = ''55555''\<rparr>"

record FasTrakGpuMemManager =
  gpu_rxq_configs :: "GpuRxqConfiguration list"
  nic_infos :: "FasTrakGpuNicInfo list"
  host :: FastrakGpumemManagerCloud
  use_gpu_mem :: bool
  nics_to_use :: "string list option"
  num_gpus_override :: "int option"
  should_stop :: bool

text \<open>
  What the manager calls: the clock, CUDA, the creation of the DXS clients, the servers, the health of a client, and a
  second of sleep that says whether a signal to stop came.
\<close>

record 'w manager_env =
  time_now :: "'w \<Rightarrow> int"
  cu_init_ok :: "'w \<Rightarrow> bool"
  cu_device_count :: "'w \<Rightarrow> int option"
  create_client :: "FasTrakGpuNicInfo \<Rightarrow> 'w \<Rightarrow> bool \<times> 'w"
  importer_initialize :: "'w \<Rightarrow> StatusCode \<times> 'w"
  importer_start :: "'w \<Rightarrow> StatusCode \<times> 'w"
  ip_server_initialize :: "'w \<Rightarrow> StatusCode \<times> 'w"
  ip_server_start :: "'w \<Rightarrow> StatusCode \<times> 'w"
  client_healthy :: "FasTrakGpuNicInfo \<Rightarrow> 'w \<Rightarrow> bool"
  sleep_second :: "'w \<Rightarrow> bool \<times> 'w"

text \<open>A message that is formatted with details is the empty text here.\<close>

definition SetAndLogError :: "int \<Rightarrow> string \<Rightarrow> FasTrakGpuMemManager \<Rightarrow> FasTrakGpuMemManager" where
  "SetAndLogError now message m = m\<lparr>host := SetHealthStatus now kUnhealthy message (host m)\<rparr>"

definition CheckStatus :: "int \<Rightarrow> StatusCode \<Rightarrow> FasTrakGpuMemManager \<Rightarrow> bool \<times> FasTrakGpuMemManager" where
  "CheckStatus now status m = (if status \<noteq> kOk then (False, SetAndLogError now [] m) else (True, m))"

definition DxsClientsHealthCheck :: "'w manager_env \<Rightarrow> FasTrakGpuNicInfo list \<Rightarrow> 'w \<Rightarrow> StatusCode" where
  "DxsClientsHealthCheck env infos w = (if list_all (\<lambda>i. client_healthy env i w) infos then kOk else kInternal)"

definition JoinPath :: "string \<Rightarrow> string \<Rightarrow> string" where
  "JoinPath path1 path2 =
     (if path1 = [] then path2
      else if path2 = [] then path1
      else if last path1 = CHR ''/'' then (if hd path2 = CHR ''/'' then path1 @ tl path2 else path1 @ path2)
      else if hd path2 \<noteq> CHR ''/'' then path1 @ ''/'' @ path2
      else path1 @ path2)"

definition GetNumGPUs :: "int \<Rightarrow> int option \<Rightarrow> int StatusOr" where
  "GetNumGPUs num_gpus_to_use count =
     (case count of
        None \<Rightarrow> Inl kInternal
      | Some n \<Rightarrow>
          if num_gpus_to_use > n then Inl kInternal
          else if num_gpus_to_use > 0 then Inr num_gpus_to_use
          else Inr n)"

definition GetNICsToUse :: "string \<Rightarrow> string list" where
  "GetNICsToUse nics = (if nics = [] then [] else remdups (split_comma nics))"

definition Manager_Init ::
    "bool \<Rightarrow> int \<Rightarrow> GpuRxqConfiguration list \<Rightarrow> StatusCode \<Rightarrow> FasTrakGpuMemManager \<Rightarrow> int \<times> FasTrakGpuMemManager" where
  "Manager_Init keep_eth0 now configs setup m =
     (let configs = (if \<not> use_gpu_mem m \<and> \<not> keep_eth0 then filter (\<lambda>c. ifname c \<noteq> ''eth0'') configs else configs);
          configs = (case nics_to_use m of None \<Rightarrow> configs | Some nics \<Rightarrow> filter (\<lambda>c. ifname c \<in> set nics) configs);
          (ok, m) = CheckStatus now setup (m\<lparr>gpu_rxq_configs := gpu_rxq_configs m @ configs\<rparr>)
      in (if ok then 0 else 1, m))"

text \<open>One client for every address; a client that cannot be created ends the process.\<close>

fun create_clients ::
    "'w manager_env \<Rightarrow> GpuRxqConfiguration list \<Rightarrow> string list \<Rightarrow> FasTrakGpuMemManager \<Rightarrow> 'w
      \<Rightarrow> (FasTrakGpuMemManager \<times> 'w) option" where
  "create_clients env [] ips m w = Some (m, w)"
| "create_clients env (c # cs) ips m w =
     (if ip_addr c \<in> set ips then create_clients env cs ips m w
      else case create_client env (new_FasTrakGpuNicInfo c) w of
             (ok, w) \<Rightarrow>
               if \<not> ok then None
               else create_clients env cs (ip_addr c # ips) (m\<lparr>nic_infos := nic_infos m @ [new_FasTrakGpuNicInfo c]\<rparr>) w)"

definition check_gpus :: "'w manager_env \<Rightarrow> 'w \<Rightarrow> FasTrakGpuMemManager \<Rightarrow> bool \<times> FasTrakGpuMemManager" where
  "check_gpus env w m =
     (if \<not> use_gpu_mem m then (True, m)
      else if \<not> cu_init_ok env w then (False, SetAndLogError (time_now env w) ''CUDA initialization failed'' m)
      else case GetNumGPUs (case num_gpus_override m of None \<Rightarrow> 0 | Some n \<Rightarrow> n) (cu_device_count env w) of
             Inl e \<Rightarrow> (False, snd (CheckStatus (time_now env w) e m))
           | Inr n \<Rightarrow> if int (length (gpu_rxq_configs m)) \<noteq> n then (False, SetAndLogError (time_now env w) [] m) else (True, m))"

text \<open>The servers start one after the other; the address server only with GPU memory.\<close>

fun start_servers :: "'w manager_env \<Rightarrow> ('w \<Rightarrow> StatusCode \<times> 'w) list \<Rightarrow> FasTrakGpuMemManager \<Rightarrow> 'w \<Rightarrow> bool \<times> FasTrakGpuMemManager \<times> 'w" where
  "start_servers env [] m w = (True, m, w)"
| "start_servers env (f # fs) m w =
     (case f w of
        (e, w) \<Rightarrow> (case CheckStatus (time_now env w) e m of (ok, m) \<Rightarrow> if ok then start_servers env fs m w else (False, m, w)))"

definition servers :: "'w manager_env \<Rightarrow> bool \<Rightarrow> ('w \<Rightarrow> StatusCode \<times> 'w) list" where
  "servers env gpu_mem =
     [importer_initialize env, importer_start env] @
     (if gpu_mem then [ip_server_initialize env, ip_server_start env] else [])"

definition StopGpuMemManager :: "FasTrakGpuMemManager \<Rightarrow> FasTrakGpuMemManager" where
  "StopGpuMemManager m = m\<lparr>should_stop := True\<rparr>"

partial_function (option) run_loop :: "'w manager_env \<Rightarrow> FasTrakGpuMemManager \<Rightarrow> 'w \<Rightarrow> (FasTrakGpuMemManager \<times> 'w) option" where
  "run_loop env m w =
     (if should_stop m then Some (m, w)
      else case sleep_second env w of
             (signalled, w) \<Rightarrow>
               let m = (if signalled then StopGpuMemManager m else m);
                   m = (if DxsClientsHealthCheck env (nic_infos m) w \<noteq> kOk
                        then StopGpuMemManager (m\<lparr>host := SetHealthStatus (time_now env w) kUnhealthy [] (host m)\<rparr>) else m)
               in run_loop env m w)"

definition Manager_Run :: "'w manager_env \<Rightarrow> FasTrakGpuMemManager \<Rightarrow> 'w \<Rightarrow> (int \<times> FasTrakGpuMemManager \<times> 'w) option" where
  "Manager_Run env m w =
     (case check_gpus env w m of
        (False, m) \<Rightarrow> Some (1, m, w)
      | (True, m) \<Rightarrow>
          (case create_clients env (gpu_rxq_configs m) [] m w of
             None \<Rightarrow> None
           | Some (m, w) \<Rightarrow>
               if length (nic_infos m) \<noteq> 4 \<and> length (nic_infos m) \<noteq> 8 then Some (1, SetAndLogError (time_now env w) [] m, w)
               else case start_servers env (servers env (use_gpu_mem m)) m w of
                      (False, m, w) \<Rightarrow> Some (1, m, w)
                    | (True, m, w) \<Rightarrow>
                        let m = m\<lparr>host := SetHealthStatus (time_now env w) kHealthy ''Initialization completed.'' (host m),
                                  should_stop := False\<rparr>
                        in map_option (\<lambda>(m, w). (0, m, w)) (run_loop env m w)))"

text \<open>\<open>init\<close> and \<open>run\<close> are the results of \<^verbatim>\<open>Init\<close> and \<^verbatim>\<open>Run\<close>; the process sleeps before it ends in every case.\<close>

definition RunCloudGpuMemManager :: "int \<Rightarrow> int \<Rightarrow> int" where
  "RunCloudGpuMemManager init run = (if init \<noteq> 0 then init else if run \<noteq> 0 then run else 0)"

section \<open>Facts about the operations\<close>

definition config_of :: "(string \<times> string \<times> string) list \<Rightarrow> string \<Rightarrow> string \<Rightarrow> GpuRxqConfiguration" where
  "config_of netdevs gpu nic =
     \<lparr>gpu_pci_addr = AsciiStrToLower gpu, nic_pci_addr = AsciiStrToLower nic,
      ifname = fst (the (map_of netdevs (AsciiStrToLower nic))), ip_addr = snd (the (map_of netdevs (AsciiStrToLower nic)))\<rparr>"

lemma pair_from_runs:
  assumes "i + length gpus \<le> per * length nics" and "\<forall>nic \<in> set nics. map_of netdevs (AsciiStrToLower nic) \<noteq> None"
  shows "pair_from netdevs nics per i gpus =
    Some (map (\<lambda>k. config_of netdevs (gpus ! k) (nics ! ((i + k) div per))) [0..<length gpus])"
  using assms
proof (induction gpus arbitrary: i)
  case (Cons gpu gpus)
  have per: "per \<noteq> 0" "i div per < length nics"
    using Cons.prems(1) by (auto simp: less_mult_imp_div_less mult.commute intro: ccontr)
  have IH: "pair_from netdevs nics per (Suc i) gpus =
      Some (map (\<lambda>k. config_of netdevs (gpus ! k) (nics ! ((Suc i + k) div per))) [0..<length gpus])"
    using Cons.prems by (intro Cons.IH) simp_all
  obtain name ip where net: "map_of netdevs (AsciiStrToLower (nics ! (i div per))) = Some (name, ip)"
    using Cons.prems(2) per(2) by (metis nth_mem option.exhaust surj_pair)
  have shift: "map (\<lambda>k. config_of netdevs ((gpu # gpus) ! k) (nics ! ((i + k) div per))) [0..<length (gpu # gpus)] =
      config_of netdevs gpu (nics ! (i div per)) #
      map (\<lambda>k. config_of netdevs (gpus ! k) (nics ! ((Suc i + k) div per))) [0..<length gpus]"
    by (simp add: upt_conv_Cons map_Suc_upt [symmetric] del: upt_Suc)
  show ?case unfolding shift using per net IH by (simp add: config_of_def)
qed simp

lemma SetHealthStatus_unhealthy [simp]: "health_status (SetHealthStatus now kUnhealthy msg h) = kUnhealthy"
  by (simp add: SetHealthStatus_def split: HealthStatus.splits)

lemma CheckStatus_failed: "CheckStatus now e m = (False, m') \<Longrightarrow> health_status (host m') = kUnhealthy"
  by (auto simp: CheckStatus_def SetAndLogError_def split: if_splits)

lemma check_gpus_failed: "check_gpus env w m = (False, m') \<Longrightarrow> health_status (host m') = kUnhealthy"
  by (auto simp: check_gpus_def SetAndLogError_def CheckStatus_def GetNumGPUs_def split: if_splits option.splits sum.splits)

lemma start_servers_failed: "start_servers env fs m w = (False, m', w') \<Longrightarrow> health_status (host m') = kUnhealthy"
  by (induction env fs m w rule: start_servers.induct) (auto split: prod.splits if_splits dest: CheckStatus_failed)

lemma map_of_add_ip:
  "map_of (add_closest_nic_ip gpu ip m) g =
     (if g = gpu then Some (case map_of m g of None \<Rightarrow> [ip] | Some ips \<Rightarrow> ips @ [ip]) else map_of m g)"
proof -
  have "map_of (map (\<lambda>(h, ips). if h = gpu then (h, ips @ [ip]) else (h, ips)) m) g =
      (if g = gpu then map_option (\<lambda>ips. ips @ [ip]) (map_of m g) else map_of m g)" for m :: "(string \<times> string list) list"
    by (induction m) auto
  then show ?thesis by (auto simp: add_closest_nic_ip_def map_add_def split: option.splits)
qed

definition ips_of :: "GpuRxqConfiguration list \<Rightarrow> string \<Rightarrow> string list" where
  "ips_of configs gpu = map ip_addr (filter (\<lambda>c. gpu_pci_addr c = gpu) configs)"

lemma nic_mapping_fold:
  "map_of (foldl (\<lambda>m c. add_closest_nic_ip (gpu_pci_addr c) (ip_addr c) m) m configs) g =
     (case map_of m g of
        None \<Rightarrow> if ips_of configs g = [] then None else Some (ips_of configs g)
      | Some ips \<Rightarrow> Some (ips @ ips_of configs g))"
  by (induction configs arbitrary: m) (auto simp: map_of_add_ip ips_of_def split: option.splits)

section \<open>Properties\<close>


text \<open>
  With more NICs than GPUs below a switch the process divides by zero.
\<close>

theorem pair_gpus_more_nics:
  assumes "gpus \<noteq> []" and "length gpus < length nics"
  shows "pair_gpus netdevs gpus nics = None"
proof -
  obtain g gs where "sort gpus = g # gs" using assms(1) by (cases "sort gpus") (auto dest: arg_cong [where f = length])
  then show ?thesis using assms by (auto simp: pair_gpus_def)
qed

text \<open>
  The answer to a request for the mapping gives, for every GPU, the addresses of the NICs it is configured with,
  in their order, and nothing for other GPUs.
\<close>

theorem HandleGetNicMapping_complete:
  assumes "HandleGetNicMapping parses configs text fd = Some m"
  shows "map_of m gpu = (if ips_of configs gpu = [] then None else Some (ips_of configs gpu))"
  using assms nic_mapping_fold [of "[]" configs gpu] by (auto simp: HandleGetNicMapping_def split: if_splits)

text \<open>
  C38: when the manager ends with an error, its health is reported as unhealthy.
\<close>

theorem Manager_Run_failure_reported:
  assumes "Manager_Run env m w = Some (r, m', w')" and "r \<noteq> 0"
  shows "health_status (host m') = kUnhealthy"
  using assms
  by (auto simp: Manager_Run_def Let_def SetAndLogError_def split: prod.splits bool.splits option.splits if_splits
      dest: check_gpus_failed start_servers_failed)

text \<open>Two GPUs and a NIC, and a machine whose GPUs cannot be counted.\<close>

definition demo_netdevs :: "(string \<times> string \<times> string) list" where
  "demo_netdevs = [(''0000:06:00.0'', ''eth1'', ''10.0.0.1'')]"


theorem pair_gpus_more_nics_witness: "pair_gpus demo_netdevs [''0000:05:00.0''] [''0000:06:00.0'', ''0000:07:00.0''] = None"
  by (rule pair_gpus_more_nics) simp_all

theorem HandleGetNicMapping_complete_witness:
  "map_of [(''a'', [''10.0.0.1'', ''10.0.0.2''])] ''a'' = Some (ips_of [\<lparr>gpu_pci_addr = ''a'', nic_pci_addr = ''b'', ifname = ''eth1'', ip_addr = ''10.0.0.1''\<rparr>,
     \<lparr>gpu_pci_addr = ''a'', nic_pci_addr = ''c'', ifname = ''eth2'', ip_addr = ''10.0.0.2''\<rparr>] ''a'')"
proof -
  let ?cs = "[\<lparr>gpu_pci_addr = ''a'', nic_pci_addr = ''b'', ifname = ''eth1'', ip_addr = ''10.0.0.1''\<rparr>,
     \<lparr>gpu_pci_addr = ''a'', nic_pci_addr = ''c'', ifname = ''eth2'', ip_addr = ''10.0.0.2''\<rparr>]"
  have "HandleGetNicMapping (\<lambda>_. True) ?cs [] 0 = Some [(''a'', [''10.0.0.1'', ''10.0.0.2''])]"
    by (simp add: HandleGetNicMapping_def add_closest_nic_ip_def)
  from HandleGetNicMapping_complete [OF this, of "''a''"] show ?thesis by (simp add: ips_of_def)
qed

definition demo_manager_env :: "unit manager_env" where
  "demo_manager_env = \<lparr>time_now = (\<lambda>_. 7), cu_init_ok = (\<lambda>_. True), cu_device_count = (\<lambda>_. None),
     create_client = (\<lambda>_ w. (True, w)), importer_initialize = (\<lambda>w. (kOk, w)), importer_start = (\<lambda>w. (kOk, w)),
     ip_server_initialize = (\<lambda>w. (kOk, w)), ip_server_start = (\<lambda>w. (kOk, w)), client_healthy = (\<lambda>_ _. True),
     sleep_second = (\<lambda>w. (True, w))\<rparr>"

definition demo_manager :: FasTrakGpuMemManager where
  "demo_manager = \<lparr>gpu_rxq_configs = [], nic_infos = [], host = new_FastrakGpumemManagerCloud 3, use_gpu_mem = True,
     nics_to_use = None, num_gpus_override = None, should_stop = False\<rparr>"

lemma demo_run_failure: "Manager_Run demo_manager_env demo_manager () = Some (1, SetAndLogError 7 [] demo_manager, ())"
  by (simp add: Manager_Run_def check_gpus_def demo_manager_def demo_manager_env_def GetNumGPUs_def CheckStatus_def)

theorem Manager_Run_failure_reported_witness: "health_status (host (SetAndLogError 7 [] demo_manager)) = kUnhealthy"
  using Manager_Run_failure_reported [OF demo_run_failure] by simp

end
