(* ===== verification/Dxs_Setup.thy ===== *)
theory Dxs_Setup
  imports Dxs_Client Llcm_Handler Pci_Utils
begin

text \<open>
  Setting up a DXS client: addresses (\<^verbatim>\<open>derive_dxs_address.cc\<close>), the search for the low-latency device of a NIC
  (\<^verbatim>\<open>guest-llcm-device.cc\<close>, \<^verbatim>\<open>guest_llcm.cc\<close>), the control channel and the first messages on it (\<^verbatim>\<open>dxs-client.cc\<close>),
  and the table of clients in the plugin (\<^verbatim>\<open>nic_client_router.cc\<close>).
\<close>

section \<open>Addresses\<close>

text \<open>\<open>pton4\<close> and \<open>pton6\<close> are \<^verbatim>\<open>inet_pton\<close>, \<open>ntop4\<close> and \<open>ntop6\<close> are \<^verbatim>\<open>inet_ntop\<close>, on the bytes of an address.\<close>

record ip_text =
  pton4 :: "string \<Rightarrow> u8 list option"
  pton6 :: "string \<Rightarrow> u8 list option"
  ntop4 :: "u8 list \<Rightarrow> string option"
  ntop6 :: "u8 list \<Rightarrow> string option"

definition FromIp4 :: "u8 list \<Rightarrow> u16 \<Rightarrow> WireSocketAddr" where
  "FromIp4 addr port = \<lparr>wsa_is_ipv6 = False, wsa_addr = addr @ replicate 12 0, wsa_port = port\<rparr>"

definition FromIp6 :: "u8 list \<Rightarrow> u16 \<Rightarrow> WireSocketAddr" where
  "FromIp6 addr port = \<lparr>wsa_is_ipv6 = True, wsa_addr = addr, wsa_port = port\<rparr>"

definition PackIpAddress :: "ip_text \<Rightarrow> string \<Rightarrow> u16 \<Rightarrow> WireSocketAddr StatusOr" where
  "PackIpAddress ip dxs_addr port =
     (case pton4 ip dxs_addr of
        Some addr \<Rightarrow> Inr (FromIp4 addr port)
      | None \<Rightarrow> (case pton6 ip dxs_addr of Some addr6 \<Rightarrow> Inr (FromIp6 addr6 port) | None \<Rightarrow> Inl kInvalidArgument))"

definition UnpackIpAddress :: "ip_text \<Rightarrow> WireSocketAddr \<Rightarrow> string StatusOr" where
  "UnpackIpAddress ip addr =
     (case (if wsa_is_ipv6 addr then ntop6 ip (wsa_addr addr) else ntop4 ip (take 4 (wsa_addr addr))) of
        None \<Rightarrow> Inl kInternal
      | Some s \<Rightarrow> Inr s)"

section \<open>The low-latency device of a NIC\<close>

definition kLlcmVendorId :: u32 where "kLlcmVendorId = 0x1AE0"
definition kLlcmDeviceId :: u32 where "kLlcmDeviceId = 0x0084"

text \<open>
  A file is opened, measured and read: the error of the first two, or its contents. \<open>None\<close> for the contents is a
  failed \<^verbatim>\<open>read\<close>, whose negative result is taken for a size, which ends the process.
\<close>

record llcm_fs =
  llcm_glob :: "string \<Rightarrow> string list StatusOr"
  llcm_file :: "string \<Rightarrow> string option StatusOr"
  llcm_bar4 :: "string \<Rightarrow> u8 list StatusOr"

definition GetContents :: "llcm_fs \<Rightarrow> string \<Rightarrow> string StatusOr option" where
  "GetContents fs filename =
     (case llcm_file fs filename of Inl e \<Rightarrow> Some (Inl e) | Inr None \<Rightarrow> None | Inr (Some t) \<Rightarrow> Some (Inr t))"

definition strip_spaces :: "string \<Rightarrow> string" where
  "strip_spaces s = rev (dropWhile is_space (rev (dropWhile is_space s)))"

text \<open>\<^verbatim>\<open>SimpleHexAtoi\<close> for 32 bits: an optional sign and \<^verbatim>\<open>0x\<close>, digits to the end, and no overflow.\<close>

definition SimpleHexAtoi :: "string \<Rightarrow> u32 option" where
  "SimpleHexAtoi s =
     (let s = (case s of c # cs \<Rightarrow> if c = CHR ''+'' then cs else s | [] \<Rightarrow> []);
          s = (case s of a # x # cs \<Rightarrow> if a = CHR ''0'' \<and> (x = CHR ''x'' \<or> x = CHR ''X'') then cs else s | _ \<Rightarrow> s);
          v = foldl (\<lambda>n d. 16 * n + the (hex_value d)) 0 s
      in if s = [] \<or> \<not> list_all (\<lambda>c. hex_value c \<noteq> None) s \<or> v \<ge> 2 ^ 32 then None else Some (of_nat v))"

definition ReadFileAsHexUint32 :: "llcm_fs \<Rightarrow> string \<Rightarrow> u32 StatusOr option" where
  "ReadFileAsHexUint32 fs filename =
     (case GetContents fs filename of
        None \<Rightarrow> None
      | Some (Inl e) \<Rightarrow> Some (Inl e)
      | Some (Inr t) \<Rightarrow>
          (case SimpleHexAtoi (strip_spaces t) of None \<Rightarrow> Some (Inl kInvalidArgument) | Some v \<Rightarrow> Some (Inr v)))"

definition base_name :: "string \<Rightarrow> string" where
  "base_name path = rev (takeWhile (\<lambda>c. c \<noteq> CHR ''/'') (rev path))"

fun llcm_devices :: "llcm_fs \<Rightarrow> string list \<Rightarrow> string list option" where
  "llcm_devices fs [] = Some []"
| "llcm_devices fs (path # paths) =
     (case ReadFileAsHexUint32 fs (path @ ''/vendor'') of
        None \<Rightarrow> None
      | Some (Inl _) \<Rightarrow> llcm_devices fs paths
      | Some (Inr vendor) \<Rightarrow>
          if vendor \<noteq> kLlcmVendorId then llcm_devices fs paths
          else case ReadFileAsHexUint32 fs (path @ ''/device'') of
                 None \<Rightarrow> None
               | Some (Inl _) \<Rightarrow> llcm_devices fs paths
               | Some (Inr device) \<Rightarrow>
                   if device \<noteq> kLlcmDeviceId then llcm_devices fs paths
                   else map_option ((#) (base_name path)) (llcm_devices fs paths))"

definition GetPcieDeviceBdfs :: "llcm_fs \<Rightarrow> string \<Rightarrow> string list StatusOr option" where
  "GetPcieDeviceBdfs fs dir =
     (case llcm_glob fs (dir @ ''/*'') of Inl e \<Rightarrow> Some (Inl e) | Inr paths \<Rightarrow> map_option Inr (llcm_devices fs paths))"

text \<open>\<^verbatim>\<open>fhtonll\<close> and \<^verbatim>\<open>fntohl\<close> on a little-endian machine reverse the bytes.\<close>

definition fhtonll :: "u64 \<Rightarrow> u64" where
  "fhtonll x = of_nat (le_nat (rev (le_bytes 8 (unat x))))"

definition fntohl :: "u32 \<Rightarrow> u32" where
  "fntohl x = of_nat (le_nat (rev (le_bytes 4 (unat x))))"

definition ReadVipForDevice :: "llcm_fs \<Rightarrow> bool \<Rightarrow> string \<Rightarrow> string \<Rightarrow> WireSocketAddr StatusOr" where
  "ReadVipForDevice fs use_ipv6 bdf dir =
     (case llcm_bar4 fs (dir @ ''/'' @ bdf @ ''/resource4'') of
        Inl e \<Rightarrow> Inl e
      | Inr mem \<Rightarrow>
          if use_ipv6 then
            let low_net = fhtonll (of_nat (le_nat (take 8 (drop 8 mem))));
                high_net = fhtonll (of_nat (le_nat (take 8 mem)))
            in Inr \<lparr>wsa_is_ipv6 = True, wsa_addr = le_bytes 8 (unat low_net) @ le_bytes 8 (unat high_net), wsa_port = 0\<rparr>
          else
            let ipv4_address = fntohl (of_nat (le_nat (take 4 mem)))
            in Inr \<lparr>wsa_is_ipv6 = False, wsa_addr = le_bytes 4 (unat ipv4_address) @ replicate 12 0, wsa_port = 0\<rparr>)"

definition clear_host_part :: "WireSocketAddr \<Rightarrow> WireSocketAddr" where
  "clear_host_part address = address\<lparr>wsa_addr := take 8 (wsa_addr address) @ replicate 8 0\<rparr>"

text \<open>The addresses that are only logged are converted too, and a failed conversion ends the search.\<close>

fun find_bdf :: "llcm_fs \<Rightarrow> ip_text \<Rightarrow> bool \<Rightarrow> string \<Rightarrow> WireSocketAddr \<Rightarrow> string list \<Rightarrow> string StatusOr" where
  "find_bdf fs ip use_ipv6 dir address [] =
     (case UnpackIpAddress ip address of Inl e \<Rightarrow> Inl e | Inr _ \<Rightarrow> Inl kNotFound)"
| "find_bdf fs ip use_ipv6 dir address (bdf # bdfs) =
     (case ReadVipForDevice fs use_ipv6 bdf dir of
        Inl _ \<Rightarrow> find_bdf fs ip use_ipv6 dir address bdfs
      | Inr vip \<Rightarrow>
          let rest = (if vip = address then Inr bdf
                      else case UnpackIpAddress ip vip of Inl e \<Rightarrow> Inl e | Inr _ \<Rightarrow> find_bdf fs ip use_ipv6 dir address bdfs)
          in if \<not> wsa_is_ipv6 vip then rest
             else case UnpackIpAddress ip address of
                    Inl e \<Rightarrow> Inl e
                  | Inr _ \<Rightarrow>
                      (case UnpackIpAddress ip vip of
                         Inl e \<Rightarrow> Inl e
                       | Inr _ \<Rightarrow>
                           if vip = clear_host_part address then Inr bdf
                           else case UnpackIpAddress ip (clear_host_part address) of Inl e \<Rightarrow> Inl e | Inr _ \<Rightarrow> rest))"

definition FindLlcmBdfForNic :: "llcm_fs \<Rightarrow> ip_text \<Rightarrow> bool \<Rightarrow> WireSocketAddr \<Rightarrow> string \<Rightarrow> string StatusOr option" where
  "FindLlcmBdfForNic fs ip use_ipv6 address dir =
     (case GetPcieDeviceBdfs fs dir of
        None \<Rightarrow> None
      | Some (Inl e) \<Rightarrow> Some (Inl e)
      | Some (Inr bdfs) \<Rightarrow> Some (find_bdf fs ip use_ipv6 dir address bdfs))"

text \<open>\<^verbatim>\<open>GuestLlcm::Create\<close>: opening, measuring and mapping the two resource files.\<close>

record file_sys =
  fs_open :: "string \<Rightarrow> int StatusOr"
  fs_size :: "int \<Rightarrow> int StatusOr"
  fs_mmap :: "int \<Rightarrow> u64 \<Rightarrow> u64 StatusOr"

definition GuestLlcm_Create :: "file_sys \<Rightarrow> string \<Rightarrow> u64 \<Rightarrow> u64 \<Rightarrow> string \<Rightarrow> (u64 \<times> u64) StatusOr" where
  "GuestLlcm_Create fs domain_bdf llcm_size reverse_llcm_size dir =
     (case fs_open fs (dir @ ''/'' @ domain_bdf @ ''/resource0_wc'') of
        Inl e \<Rightarrow> Inl e
      | Inr fd_0 \<Rightarrow>
          (case fs_open fs (dir @ ''/'' @ domain_bdf @ ''/resource2_wc'') of
             Inl e \<Rightarrow> Inl e
           | Inr fd_2 \<Rightarrow>
               (case fs_size fs fd_0 of
                  Inl e \<Rightarrow> Inl e
                | Inr size0 \<Rightarrow>
                    if size0 < uint llcm_size then Inl kInvalidArgument
                    else case fs_size fs fd_2 of
                           Inl e \<Rightarrow> Inl e
                         | Inr size2 \<Rightarrow>
                             if size2 < uint reverse_llcm_size then Inl kInvalidArgument
                             else case fs_mmap fs fd_0 llcm_size of
                                    Inl e \<Rightarrow> Inl e
                                  | Inr llcm \<Rightarrow>
                                      (case fs_mmap fs fd_2 reverse_llcm_size of
                                         Inl e \<Rightarrow> Inl e
                                       | Inr reverse_llcm \<Rightarrow> Inr (llcm, reverse_llcm)))))"

definition kLlcmBackingSize :: u64 where "kLlcmBackingSize = push_bit 20 8"

definition GuestLlcmDevice_Init ::
    "llcm_fs \<Rightarrow> ip_text \<Rightarrow> bool \<Rightarrow> file_sys \<Rightarrow> WireSocketAddr \<Rightarrow> string \<Rightarrow> (u64 \<times> u64) StatusOr option" where
  "GuestLlcmDevice_Init fs ip use_ipv6 files local_address dir =
     (case FindLlcmBdfForNic fs ip use_ipv6 local_address dir of
        None \<Rightarrow> None
      | Some (Inl e) \<Rightarrow> Some (Inl e)
      | Some (Inr bdf) \<Rightarrow> Some (GuestLlcm_Create files bdf kLlcmBackingSize kLlcmBackingSize dir))"

text \<open>A span is its base and its size.\<close>

definition GetLocalMemory :: "u64 \<times> u64 \<Rightarrow> u64 \<Rightarrow> u64 \<Rightarrow> u64 \<times> u64" where
  "GetLocalMemory = (\<lambda>(llcm, reverse_llcm) offset len. (reverse_llcm + offset, len))"

definition GetRemoteMemory :: "u64 \<times> u64 \<Rightarrow> u64 \<Rightarrow> u64 \<Rightarrow> u64 \<times> u64" where
  "GetRemoteMemory = (\<lambda>(llcm, reverse_llcm) offset len. (llcm + offset, len))"

section \<open>The control channel\<close>

definition IsSockaddrEqual :: "socketAddress \<Rightarrow> socketAddress \<Rightarrow> bool" where
  "IsSockaddrEqual a b =
     (case (a, b) of
        (Sin _ x, Sin _ y) \<Rightarrow> x = y
      | (Sin6 _ x _, Sin6 _ y _) \<Rightarrow> x = y
      | _ \<Rightarrow> False)"

text \<open>The calls on sockets, the resolver and the SCTP handler with its messages.\<close>

datatype resolved = Resolved socketAddress | ResolveErrno StatusCode | ResolveFailed

record 'w channel_sys =
  ch_resolve :: "string \<Rightarrow> string \<Rightarrow> resolved"
  ch_socket :: "int \<Rightarrow> 'w \<Rightarrow> int StatusOr \<times> 'w"
  ch_bind :: "int \<Rightarrow> socketAddress \<Rightarrow> 'w \<Rightarrow> StatusCode \<times> 'w"
  ch_interfaces :: "ifaddrs list"
  ch_bindtodevice :: "int \<Rightarrow> string \<Rightarrow> 'w \<Rightarrow> StatusCode \<times> 'w"
  ch_connect :: "int \<Rightarrow> socketAddress \<Rightarrow> 'w \<Rightarrow> StatusCode \<times> 'w"
  ch_getsockname :: "int \<Rightarrow> 'w \<Rightarrow> u16 StatusOr \<times> 'w"
  ch_sctp_init :: "string \<Rightarrow> int \<Rightarrow> u16 \<Rightarrow> u16 \<Rightarrow> 'w \<Rightarrow> bool \<times> 'w"
  ch_send :: "u8 list \<Rightarrow> 'w \<Rightarrow> StatusCode \<times> 'w"

definition IFNAMSIZ :: nat where "IFNAMSIZ = 16"

definition device_of :: "ifaddrs list \<Rightarrow> socketAddress \<Rightarrow> string" where
  "device_of ifs src =
     (case List.find (\<lambda>i. case ifa_addr i of None \<Rightarrow> False | Some a \<Rightarrow> IsSockaddrEqual a src) ifs of
        None \<Rightarrow> []
      | Some i \<Rightarrow> ifa_name i)"

text \<open>The steps from the socket to its connection; each may fail.\<close>

definition open_channel_socket ::
    "'w channel_sys \<Rightarrow> socketAddress \<Rightarrow> socketAddress \<Rightarrow> 'w \<Rightarrow> (int \<times> u16) StatusOr \<times> 'w" where
  "open_channel_socket sys dest src w =
     (case ch_socket sys (sa_family dest) w of
        (Inl e, w) \<Rightarrow> (Inl e, w)
      | (Inr fd, w) \<Rightarrow>
          (case ch_bind sys fd src w of
             (e, w) \<Rightarrow>
               if e \<noteq> kOk then (Inl e, w)
               else let device_name = device_of (ch_interfaces sys) src
                    in if device_name = [] then (Inl kFailedPrecondition, w)
                       else if length device_name > IFNAMSIZ then (Inl kInternal, w)
                       else case ch_bindtodevice sys fd device_name w of
                              (e, w) \<Rightarrow>
                                if e \<noteq> kOk then (Inl e, w)
                                else case ch_connect sys fd dest w of
                                       (e, w) \<Rightarrow>
                                         if e \<noteq> kOk then (Inl e, w)
                                         else case ch_getsockname sys fd w of
                                                (Inl e, w) \<Rightarrow> (Inl e, w)
                                              | (Inr port, w) \<Rightarrow> (Inr (fd, port), w)))"

definition kBufferManagerType :: i8 where "kBufferManagerType = 0"
definition kSnapClientType :: i8 where "kSnapClientType = 2"

definition build_id :: "string \<Rightarrow> u8 list" where
  "build_id label = (let s = map (of_nat \<circ> of_char) (take 254 label) in s @ replicate (256 - length s) 0)"

definition init_message :: "bool \<Rightarrow> string \<Rightarrow> VersionedInitMessage" where
  "init_message is_buffer_manager label =
     \<lparr>vinit_client_type = (if is_buffer_manager then kBufferManagerType else kSnapClientType),
      vinit_client_build_id = build_id label, vinit_client_version = kWireVersion\<rparr>"

definition send_init :: "'w channel_sys \<Rightarrow> bool \<Rightarrow> bool \<Rightarrow> string \<Rightarrow> 'w \<Rightarrow> StatusCode \<times> 'w" where
  "send_init sys is_buffer_manager enable_llcm label w =
     (case ch_send sys (VersionedInitMessage_bytes (init_message is_buffer_manager label)) w of
        (e, w) \<Rightarrow> if e \<noteq> kOk then (e, w) else if enable_llcm then ch_send sys InitLlcmMessage_bytes w else (kOk, w))"

text \<open>A \<^verbatim>\<open>StatusOr\<close> made from an OK status, which an error number of 0 gives, holds an internal error.\<close>

definition error_code :: "StatusCode \<Rightarrow> StatusCode" where
  "error_code e = (if e = kOk then kInternal else e)"

definition CreateControlMessageHandler ::
    "'w channel_sys \<Rightarrow> string \<Rightarrow> string \<Rightarrow> string \<Rightarrow> string \<Rightarrow> bool \<Rightarrow> bool \<Rightarrow> string \<Rightarrow> 'w \<Rightarrow> int StatusOr \<times> 'w" where
  "CreateControlMessageHandler sys nic_addr dxs_addr dxs_port source_port is_buffer_manager enable_llcm label w =
     (let client_id = source_port @ ''->'' @ dxs_addr @ '':'' @ dxs_port
      in case ch_resolve sys dxs_addr dxs_port of
           Resolved dest \<Rightarrow>
             (case ch_resolve sys nic_addr source_port of
                Resolved src \<Rightarrow>
                  (case open_channel_socket sys dest src w of
                     (Inl e, w) \<Rightarrow> (Inl (error_code e), w)
                   | (Inr (fd, port), w) \<Rightarrow>
                       (case ch_sctp_init sys client_id fd port (socketToPort dest) w of
                          (ok, w) \<Rightarrow>
                            if \<not> ok then (Inl kInternal, w)
                            else case send_init sys is_buffer_manager enable_llcm label w of
                                   (e, w) \<Rightarrow> if e \<noteq> kOk then (Inl e, w) else (Inr fd, w)))
              | ResolveErrno e \<Rightarrow> (Inl (error_code e), w)
              | ResolveFailed \<Rightarrow> (Inl kInternal, w))
         | _ \<Rightarrow> (Inl kInternal, w))"

section \<open>Client\<close>

text \<open>What arrives on the channel while \<^verbatim>\<open>Init\<close> waits; \<open>None\<close> when the wait does not end.\<close>

fun deliver :: "int \<Rightarrow> receiver_event \<Rightarrow> DxsClient \<Rightarrow> DxsClient" where
  "deliver now (ReceiveControlMessage packet) c = DxsClient_ReceiveControlMessage now packet c"
| "deliver now OnControlChannelFailure c = DxsClient_OnControlChannelFailure c"

fun await_init :: "bool \<Rightarrow> (int \<times> receiver_event) list \<Rightarrow> DxsClient \<Rightarrow> DxsClient option" where
  "await_init enable_llcm [] c = (if Init_done enable_llcm c then Some c else None)"
| "await_init enable_llcm ((now, e) # es) c = (if Init_done enable_llcm c then Some c else await_init enable_llcm es (deliver now e c))"

text \<open>\<open>llcm_init\<close> sets up the low-latency handler on the areas the server announced.\<close>

definition DxsClient_Init ::
    "'w channel_sys \<Rightarrow> (u64 \<times> u64 \<Rightarrow> u64 \<times> u64 \<Rightarrow> StatusCode) \<Rightarrow> (u64 \<times> u64) option \<Rightarrow> string \<Rightarrow> string \<Rightarrow> string \<Rightarrow> string
      \<Rightarrow> string \<Rightarrow> (int \<times> receiver_event) list \<Rightarrow> DxsClient \<Rightarrow> 'w \<Rightarrow> (StatusCode \<times> DxsClient \<times> 'w) option" where
  "DxsClient_Init sys llcm_init llcm_memory nic_addr dxs_addr dxs_port source_port label events c w =
     (let enable_llcm = (llcm_memory \<noteq> None)
      in case CreateControlMessageHandler sys nic_addr dxs_addr dxs_port source_port False enable_llcm label w of
           (Inl e, w) \<Rightarrow> Some (e, c, w)
         | (Inr _, w) \<Rightarrow>
             (case await_init enable_llcm events c of
                None \<Rightarrow> None
              | Some c \<Rightarrow>
                  if failed c then Some (kInternal, c, w)
                  else case (llcm_memory, llcm_info c) of
                         (Some memory, Some info) \<Rightarrow>
                           Some (llcm_init
                                   (GetLocalMemory memory (li_reverse_llcm_queue_offset info) (li_reverse_llcm_queue_size info))
                                   (GetRemoteMemory memory (li_llcm_queue_offset info) (li_llcm_queue_size info)), c, w)
                       | _ \<Rightarrow> Some (kOk, c, w)))"

text \<open>\<^verbatim>\<open>Create\<close>: the device first, if it is asked for, then the client.\<close>

definition DxsClient_Create ::
    "'w channel_sys \<Rightarrow> (u64 \<times> u64 \<Rightarrow> u64 \<times> u64 \<Rightarrow> StatusCode) \<Rightarrow> llcm_fs \<Rightarrow> ip_text \<Rightarrow> bool \<Rightarrow> file_sys \<Rightarrow> bool \<Rightarrow> string
      \<Rightarrow> bool \<Rightarrow> string \<Rightarrow> string \<Rightarrow> string \<Rightarrow> string \<Rightarrow> string \<Rightarrow> (int \<times> receiver_event) list \<Rightarrow> 'w
      \<Rightarrow> (DxsClient StatusOr \<times> 'w) option" where
  "DxsClient_Create sys llcm_init fs ip use_ipv6 files enable_llcm dir close_on_teardown nic_addr dxs_addr dxs_port source_port
      label events w =
     (let start = (\<lambda>memory.
            case DxsClient_Init sys llcm_init memory nic_addr dxs_addr dxs_port source_port label events
                   (new_DxsClient close_on_teardown) w of
              None \<Rightarrow> None
            | Some (e, c, w) \<Rightarrow> Some (if e \<noteq> kOk then Inl e else Inr c, w))
      in if \<not> enable_llcm then start None
         else case PackIpAddress ip nic_addr 0 of
                Inl e \<Rightarrow> Some (Inl e, w)
              | Inr local_address \<Rightarrow>
                  (case GuestLlcmDevice_Init fs ip use_ipv6 files local_address dir of
                     None \<Rightarrow> None
                   | Some (Inl e) \<Rightarrow> Some (Inl e, w)
                   | Some (Inr memory) \<Rightarrow> start (Some memory)))"

section \<open>Table of clients\<close>

text \<open>\<open>create\<close> makes the two clients of a NIC; the router keeps them by address.\<close>

type_synonym 'c router = "string \<rightharpoonup> 'c"

definition trimString :: "string \<Rightarrow> string" where
  "trimString str = filter (\<lambda>c. \<not> is_space c) str"

definition llcm_directory :: "bool \<Rightarrow> string option \<Rightarrow> string" where
  "llcm_directory use_llcm env_dir =
     (if use_llcm then
        let dir = trimString (case env_dir of None \<Rightarrow> [] | Some d \<Rightarrow> d)
        in if dir \<noteq> [] then dir else ''/sys/bus/pci/devices''
      else [])"

definition GetOrInitClient ::
    "(string \<Rightarrow> 'w \<Rightarrow> StatusCode \<times> 'w) \<Rightarrow> (string \<Rightarrow> string \<Rightarrow> 'w \<Rightarrow> 'c StatusOr \<times> 'w) \<Rightarrow> bool \<Rightarrow> string option \<Rightarrow> string
      \<Rightarrow> 'c router \<Rightarrow> 'w \<Rightarrow> 'c StatusOr \<times> 'c router \<times> 'w" where
  "GetOrInitClient create_buffer_client create_dxs_client use_llcm env_dir dxs_addr r w =
     (case r dxs_addr of
        Some c \<Rightarrow> (Inr c, r, w)
      | None \<Rightarrow>
          (case create_buffer_client dxs_addr w of
             (e, w) \<Rightarrow>
               if e \<noteq> kOk then (Inl e, r, w)
               else case create_dxs_client dxs_addr (llcm_directory use_llcm env_dir) w of
                      (Inl e, w) \<Rightarrow> (Inl e, r, w)
                    | (Inr c, w) \<Rightarrow> (Inr c, r(dxs_addr \<mapsto> c), w)))"

section \<open>Facts about the operations\<close>

text \<open>The address in the device is the one in the register with its bytes reversed.\<close>

lemma le_nat_bound: "length bs = n \<Longrightarrow> le_nat bs < 256 ^ n"
  using le_nat_less by blast

lemma bytes_fhtonll: "length bs = 8 \<Longrightarrow> le_bytes 8 (unat (fhtonll (of_nat (le_nat bs)))) = rev bs"
proof -
  assume len: "length bs = 8"
  have "unat (of_nat (le_nat xs) :: u64) = le_nat xs" if "length xs = 8" for xs
    using le_nat_bound [OF that] by (simp add: unat_of_nat)
  then show ?thesis using len le_bytes_le_nat [of bs] le_bytes_le_nat [of "rev bs"] by (simp add: fhtonll_def)
qed

lemma bytes_fntohl: "length bs = 4 \<Longrightarrow> le_bytes 4 (unat (fntohl (of_nat (le_nat bs)))) = rev bs"
proof -
  assume len: "length bs = 4"
  have "unat (of_nat (le_nat xs) :: u32) = le_nat xs" if "length xs = 4" for xs
    using le_nat_bound [OF that] by (simp add: unat_of_nat)
  then show ?thesis using len le_bytes_le_nat [of bs] le_bytes_le_nat [of "rev bs"] by (simp add: fntohl_def)
qed

lemma ReadVipForDevice_reversed:
  assumes "llcm_bar4 fs (dir @ ''/'' @ bdf @ ''/resource4'') = Inr mem" and "length mem = 16"
  shows "ReadVipForDevice fs True bdf dir = Inr (FromIp6 (rev mem) 0)"
    and "ReadVipForDevice fs False bdf dir = Inr (FromIp4 (rev (take 4 mem)) 0)"
proof -
  have "rev mem = rev (take 8 (drop 8 mem)) @ rev (take 8 mem)"
    using assms(2) by (metis append_take_drop_id diff_le_self length_drop numeral_plus_numeral rev_append take_all
        add_diff_cancel_left' semiring_norm(2) order_refl numeral_Bit0)
  then show "ReadVipForDevice fs True bdf dir = Inr (FromIp6 (rev mem) 0)"
    using assms bytes_fhtonll [of "take 8 (drop 8 mem)"] bytes_fhtonll [of "take 8 mem"]
    by (simp add: ReadVipForDevice_def FromIp6_def Let_def)
  show "ReadVipForDevice fs False bdf dir = Inr (FromIp4 (rev (take 4 mem)) 0)"
    using assms bytes_fntohl [of "take 4 mem"] by (simp add: ReadVipForDevice_def FromIp4_def Let_def)
qed

lemma find_bdf_sound:
  "find_bdf fs ip use_ipv6 dir address bdfs = Inr bdf \<Longrightarrow> bdf \<in> set bdfs \<and>
     (\<exists>vip. ReadVipForDevice fs use_ipv6 bdf dir = Inr vip \<and> (vip = address \<or> wsa_is_ipv6 vip \<and> vip = clear_host_part address))"
  by (induction bdfs) (auto simp: Let_def split: sum.splits if_splits)

lemma llcm_devices_ids:
  "llcm_devices fs paths = Some bdfs \<Longrightarrow> bdf \<in> set bdfs \<Longrightarrow>
     \<exists>path \<in> set paths. bdf = base_name path \<and> ReadFileAsHexUint32 fs (path @ ''/vendor'') = Some (Inr kLlcmVendorId) \<and>
       ReadFileAsHexUint32 fs (path @ ''/device'') = Some (Inr kLlcmDeviceId)"
  by (induction paths arbitrary: bdfs) (auto split: option.splits sum.splits if_splits)

lemma await_init_done: "await_init enable_llcm events c = Some c' \<Longrightarrow> Init_done enable_llcm c'"
  by (induction enable_llcm events c rule: await_init.induct) (auto split: if_splits)

text \<open>Calls on the table, one after the other.\<close>

inductive router_run ::
    "(string \<Rightarrow> 'w \<Rightarrow> StatusCode \<times> 'w) \<Rightarrow> (string \<Rightarrow> string \<Rightarrow> 'w \<Rightarrow> 'c StatusOr \<times> 'w) \<Rightarrow> bool \<Rightarrow> string option
      \<Rightarrow> 'c router \<times> 'w \<Rightarrow> 'c router \<times> 'w \<Rightarrow> bool" for cb cd use_llcm env_dir s where
    stay: "router_run cb cd use_llcm env_dir s s"
  | call: "router_run cb cd use_llcm env_dir s (r, w) \<Longrightarrow>
      GetOrInitClient cb cd use_llcm env_dir addr r w = (res, r', w') \<Longrightarrow> router_run cb cd use_llcm env_dir s (r', w')"

lemma GetOrInitClient_keeps:
  "GetOrInitClient cb cd use_llcm env_dir addr r w = (res, r', w') \<Longrightarrow> r a = Some c \<Longrightarrow> r' a = Some c"
  by (auto simp: GetOrInitClient_def split: option.splits prod.splits sum.splits if_splits)

lemma GetOrInitClient_stored:
  "GetOrInitClient cb cd use_llcm env_dir addr r w = (Inr c, r', w') \<Longrightarrow> r' addr = Some c"
  by (auto simp: GetOrInitClient_def split: option.splits prod.splits sum.splits if_splits)

lemma CreateControlMessageHandler_error:
  "CreateControlMessageHandler sys nic_addr dxs_addr dxs_port source_port is_bm enable_llcm label w \<noteq> (Inl kOk, w')"
  by (auto simp: CreateControlMessageHandler_def Let_def error_code_def split: resolved.splits prod.splits sum.splits if_splits)

lemma router_run_keeps: "router_run cb cd use_llcm env_dir s t \<Longrightarrow> fst s a = Some c \<Longrightarrow> fst t a = Some c"
  by (induction rule: router_run.induct) (auto dest: GetOrInitClient_keeps)

section \<open>Properties\<close>

text \<open>
  A client that was set up successfully has got the server's acknowledgement, its channel has not failed, and it
  knows the areas of the low-latency queues when it uses them.
\<close>

theorem DxsClient_Create_ready:
  assumes "DxsClient_Create sys llcm_init fs ip use_ipv6 files enable_llcm dir close_on_teardown nic_addr dxs_addr dxs_port
      source_port label events w = Some (Inr c, w')"
  shows "initialized c \<and> \<not> failed c \<and> (enable_llcm \<longrightarrow> llcm_info c \<noteq> None)"
proof -
  have init: "initialized c' \<and> \<not> failed c' \<and> (memory \<noteq> None \<longrightarrow> llcm_info c' \<noteq> None)"
    if "DxsClient_Init sys llcm_init memory nic_addr dxs_addr dxs_port source_port label events c0 w = Some (kOk, c', w'')"
    for memory c0 c' w''
    using that by (auto simp: DxsClient_Init_def Init_done_def Let_def CreateControlMessageHandler_error dest!: await_init_done
        split: prod.splits sum.splits option.splits if_splits)
  show ?thesis
    using assms by (auto simp: DxsClient_Create_def Let_def dest!: init split: if_splits option.splits sum.splits)
qed

text \<open>
  The device chosen for a NIC is a low-latency device of the directory, and the address in it is the address of the
  NIC or, for IPv6, its network part.
\<close>

theorem FindLlcmBdfForNic_sound:
  assumes "FindLlcmBdfForNic fs ip use_ipv6 address dir = Some (Inr bdf)"
  shows "\<exists>paths path vip. llcm_glob fs (dir @ ''/*'') = Inr paths \<and> path \<in> set paths \<and> bdf = base_name path \<and>
    ReadFileAsHexUint32 fs (path @ ''/vendor'') = Some (Inr kLlcmVendorId) \<and>
    ReadFileAsHexUint32 fs (path @ ''/device'') = Some (Inr kLlcmDeviceId) \<and>
    ReadVipForDevice fs use_ipv6 bdf dir = Inr vip \<and> (vip = address \<or> vip = clear_host_part address)"
proof -
  from assms obtain paths bdfs where "llcm_glob fs (dir @ ''/*'') = Inr paths" "llcm_devices fs paths = Some bdfs"
    "find_bdf fs ip use_ipv6 dir address bdfs = Inr bdf"
    by (auto simp: FindLlcmBdfForNic_def GetPcieDeviceBdfs_def split: option.splits sum.splits)
  then show ?thesis using find_bdf_sound llcm_devices_ids by blast
qed

text \<open>
  Once a client for an address was handed out, every later request for the address gets the same client, whatever
  requests for other addresses come in between.
\<close>

theorem router_same_client:
  assumes "GetOrInitClient cb cd use_llcm env_dir addr r w = (Inr c, r1, w1)"
    and "router_run cb cd use_llcm env_dir (r1, w1) (r2, w2)"
  shows "GetOrInitClient cb cd use_llcm env_dir addr r2 w2 = (Inr c, r2, w2)"
  using GetOrInitClient_stored [OF assms(1)] router_run_keeps [OF assms(2), of addr c]
  by (simp add: GetOrInitClient_def)

text \<open>A table whose clients are numbers, and a server that acknowledges at once.\<close>

lemma demo_router:
  "GetOrInitClient (\<lambda>_ n. (kOk, n)) (\<lambda>_ _ n. (Inr n, Suc n)) False None ''a'' Map.empty 0 = (Inr 0, [''a'' \<mapsto> 0], 1)"
  "GetOrInitClient (\<lambda>_ n. (kOk, n)) (\<lambda>_ _ n. (Inr n, Suc n)) False None ''b'' [''a'' \<mapsto> 0] 1 =
    (Inr 1, [''a'' \<mapsto> 0, ''b'' \<mapsto> 1], 2)"
  by (simp_all add: GetOrInitClient_def)

theorem router_same_client_witness:
  "GetOrInitClient (\<lambda>_ n. (kOk, n)) (\<lambda>_ _ n. (Inr n, Suc n)) False None ''a'' [''a'' \<mapsto> (0 :: nat), ''b'' \<mapsto> 1] 2 =
    (Inr 0, [''a'' \<mapsto> 0, ''b'' \<mapsto> 1], 2)"
  using router_same_client [OF demo_router(1) router_run.call [OF router_run.stay demo_router(2)]] .

definition demo_ack :: "u8 list" where
  "demo_ack = VersionedInitAckMessage_bytes
     \<lparr>vinit_ack_status = 0, vinit_ack_server_build_id = replicate 256 0, vinit_ack_server_version = 7\<rparr>"

definition demo_client :: DxsClient where
  "demo_client = deliver 0 (ReceiveControlMessage demo_ack) (new_DxsClient True)"

definition demo_sys :: "unit channel_sys" where
  "demo_sys = \<lparr>ch_resolve = (\<lambda>_ _. Resolved (Sin 1 1)), ch_socket = (\<lambda>_ w. (Inr 3, w)), ch_bind = (\<lambda>_ _ w. (kOk, w)),
     ch_interfaces = [\<lparr>ifa_name = ''eth1'', ifa_addr = Some (Sin 0 1), ifa_netmask = None\<rparr>],
     ch_bindtodevice = (\<lambda>_ _ w. (kOk, w)), ch_connect = (\<lambda>_ _ w. (kOk, w)), ch_getsockname = (\<lambda>_ w. (Inr 9, w)),
     ch_sctp_init = (\<lambda>_ _ _ _ w. (True, w)), ch_send = (\<lambda>_ w. (kOk, w))\<rparr>"

lemma demo_await: "Init_done False demo_client" "\<not> failed demo_client" "\<not> Init_done False (new_DxsClient True)"
  by code_simp+

definition no_llcm_fs :: llcm_fs where
  "no_llcm_fs = \<lparr>llcm_glob = (\<lambda>_. Inl kNotFound), llcm_file = (\<lambda>_. Inl kNotFound), llcm_bar4 = (\<lambda>_. Inl kNotFound)\<rparr>"

definition no_ip_text :: ip_text where
  "no_ip_text = \<lparr>pton4 = (\<lambda>_. None), pton6 = (\<lambda>_. None), ntop4 = (\<lambda>_. None), ntop6 = (\<lambda>_. None)\<rparr>"

definition no_files :: file_sys where
  "no_files = \<lparr>fs_open = (\<lambda>_. Inl kNotFound), fs_size = (\<lambda>_. Inl kNotFound), fs_mmap = (\<lambda>_ _. Inl kNotFound)\<rparr>"

lemma demo_create:
  "DxsClient_Create demo_sys (\<lambda>_ _. kOk) no_llcm_fs no_ip_text False no_files False [] True ''10.0.0.1'' ''169.254.169.254'' ''55555''
    ''0'' ''label'' [(0, ReceiveControlMessage demo_ack)] () = Some (Inr demo_client, ())"
proof -
  have "CreateControlMessageHandler demo_sys ''10.0.0.1'' ''169.254.169.254'' ''55555'' ''0'' False False ''label'' () = (Inr 3, ())"
    by (simp add: CreateControlMessageHandler_def demo_sys_def open_channel_socket_def device_of_def IsSockaddrEqual_def
        IFNAMSIZ_def send_init_def)
  moreover have "await_init False [(0, ReceiveControlMessage demo_ack)] (new_DxsClient True) = Some demo_client"
    using demo_await by (simp add: demo_client_def)
  ultimately show ?thesis
    using demo_await(2) by (simp add: DxsClient_Create_def DxsClient_Init_def)
qed

theorem DxsClient_Create_ready_witness: "initialized demo_client \<and> \<not> failed demo_client"
  using DxsClient_Create_ready [OF demo_create] by simp

definition demo_llcm_fs :: llcm_fs where
  "demo_llcm_fs = \<lparr>llcm_glob = (\<lambda>_. Inr [''/d/0000:05:00.0'']),
     llcm_file = (\<lambda>f. if f = ''/d/0000:05:00.0/vendor'' then Inr (Some ''0x1ae0'') else Inr (Some ''0x0084'')),
     llcm_bar4 = (\<lambda>_. Inr [1, 0, 0, 10, 0, 0, 0, 0, 0, 0, 0, 0, 0, 0, 0, 0])\<rparr>"

lemma demo_find: "FindLlcmBdfForNic demo_llcm_fs no_ip_text False (FromIp4 [10, 0, 0, 1] 0) ''/d'' = Some (Inr ''0000:05:00.0'')"
proof -
  have ids: "ReadFileAsHexUint32 demo_llcm_fs (''/d/0000:05:00.0'' @ ''/vendor'') = Some (Inr kLlcmVendorId)"
    "ReadFileAsHexUint32 demo_llcm_fs (''/d/0000:05:00.0'' @ ''/device'') = Some (Inr kLlcmDeviceId)"
    by (simp_all add: ReadFileAsHexUint32_def GetContents_def demo_llcm_fs_def strip_spaces_def is_space_def SimpleHexAtoi_def
        hex_value_def kLlcmVendorId_def kLlcmDeviceId_def)
  have "base_name ''/d/0000:05:00.0'' = ''0000:05:00.0''" by (simp add: base_name_def)
  with ids have bdfs: "GetPcieDeviceBdfs demo_llcm_fs ''/d'' = Some (Inr [''0000:05:00.0''])"
    by (simp add: GetPcieDeviceBdfs_def demo_llcm_fs_def)
  have "llcm_bar4 demo_llcm_fs (''/d'' @ ''/'' @ ''0000:05:00.0'' @ ''/resource4'') = Inr [1, 0, 0, 10, 0, 0, 0, 0, 0, 0, 0, 0, 0, 0, 0, 0]"
    by (simp add: demo_llcm_fs_def)
  from ReadVipForDevice_reversed(2) [OF this] have "ReadVipForDevice demo_llcm_fs False ''0000:05:00.0'' ''/d'' = Inr (FromIp4 [10, 0, 0, 1] 0)"
    by simp
  then show ?thesis by (simp add: FindLlcmBdfForNic_def bdfs FromIp4_def)
qed

theorem FindLlcmBdfForNic_sound_witness:
  "\<exists>vip. ReadVipForDevice demo_llcm_fs False ''0000:05:00.0'' ''/d'' = Inr vip \<and>
    (vip = FromIp4 [10, 0, 0, 1] 0 \<or> vip = clear_host_part (FromIp4 [10, 0, 0, 1] 0))"
  using FindLlcmBdfForNic_sound [OF demo_find] by blast

end
