(* ===== verification/Gpu_Mem.thy ===== *)
theory Gpu_Mem
  imports Tcpxo_Prelude "HOL-Library.Multiset"
begin

text \<open>
  GPU memory of the prober (\<^verbatim>\<open>cuda_helpers.cu\<close>): buffers on the GPU and their release, and the kernels that compare,
  gather and unpack buffers, run by threads in any order. The CUDA driver and the export of DMA buffers are parameters.
\<close>

section \<open>Driver\<close>

text \<open>Every call has a result code; 0 is success. Values that a failed call leaves behind are arbitrary.\<close>

record 'w cuda_driver =
  cuInit :: "'w \<Rightarrow> int \<times> 'w"
  cuDeviceGetByPCIBusId :: "string \<Rightarrow> 'w \<Rightarrow> (int \<times> int) \<times> 'w"
  cuDevicePrimaryCtxRetain :: "int \<Rightarrow> 'w \<Rightarrow> (int \<times> u64) \<times> 'w"
  cuCtxPushCurrent :: "u64 \<Rightarrow> 'w \<Rightarrow> int \<times> 'w"
  cuCtxPopCurrent :: "'w \<Rightarrow> 'w"
  cuMemImportFromShareableHandle :: "int \<Rightarrow> 'w \<Rightarrow> (int \<times> u64) \<times> 'w"
  cuMemAddressReserve :: "u64 \<Rightarrow> u64 \<Rightarrow> 'w \<Rightarrow> (int \<times> u64) \<times> 'w"
  cuMemMap :: "u64 \<Rightarrow> u64 \<Rightarrow> u64 \<Rightarrow> 'w \<Rightarrow> int \<times> 'w"
  cuMemSetAccess :: "u64 \<Rightarrow> u64 \<Rightarrow> int \<Rightarrow> 'w \<Rightarrow> int \<times> 'w"
  cuMemGetHandleForAddressRange :: "u64 \<Rightarrow> u64 \<Rightarrow> 'w \<Rightarrow> int \<times> 'w"
  cuMemUnmap :: "u64 \<Rightarrow> u64 \<Rightarrow> 'w \<Rightarrow> 'w"
  cuMemRelease :: "u64 \<Rightarrow> 'w \<Rightarrow> 'w"
  cuMemAddressFree :: "u64 \<Rightarrow> u64 \<Rightarrow> 'w \<Rightarrow> 'w"
  cuMemAlloc :: "u64 \<Rightarrow> 'w \<Rightarrow> (int \<times> u64) \<times> 'w"
  cuMemFree :: "u64 \<Rightarrow> 'w \<Rightarrow> 'w"
  cuMemcpyHtoD :: "u64 \<Rightarrow> u8 list \<Rightarrow> 'w \<Rightarrow> int \<times> 'w"
  cuMemcpyDtoH :: "u64 \<Rightarrow> u64 \<Rightarrow> 'w \<Rightarrow> (int \<times> u8 list) \<times> 'w"
  GetDmabuf :: "string \<Rightarrow> u64 \<Rightarrow> u64 \<Rightarrow> 'w \<Rightarrow> int StatusOr \<times> 'w"
  cu_close_fd :: "int \<Rightarrow> 'w \<Rightarrow> 'w"
  cuMemHostAlloc :: "u64 \<Rightarrow> 'w \<Rightarrow> (int \<times> u64) \<times> 'w"
  cuMemHostGetDevicePointer :: "u64 \<Rightarrow> 'w \<Rightarrow> (int \<times> u64) \<times> 'w"
  cuMemFreeHost :: "u64 \<Rightarrow> 'w \<Rightarrow> 'w"
  cudaStreamSynchronize :: "'w \<Rightarrow> int \<times> 'w"
  cudaDeviceSynchronize :: "'w \<Rightarrow> int \<times> 'w"
  cuCtxCreate :: "int \<Rightarrow> 'w \<Rightarrow> (int \<times> u64) \<times> 'w"
  cuCtxDestroy :: "u64 \<Rightarrow> 'w \<Rightarrow> 'w"
  cuDevicePrimaryCtxRelease :: "int \<Rightarrow> 'w \<Rightarrow> 'w"
  cudaStreamCreateWithFlags :: "'w \<Rightarrow> (int \<times> u64) \<times> 'w"
  cudaStreamDestroy :: "u64 \<Rightarrow> 'w \<Rightarrow> 'w"
  cuDeviceGetCount :: "'w \<Rightarrow> (int \<times> int) \<times> 'w"
  cuDeviceGet :: "int \<Rightarrow> 'w \<Rightarrow> (int \<times> int) \<times> 'w"
  cuDeviceGetPCIBusId :: "int \<Rightarrow> 'w \<Rightarrow> (int \<times> string) \<times> 'w"

definition CUDA_SUCCESS :: int where "CUDA_SUCCESS = 0"

definition cu_call_success :: "int \<Rightarrow> StatusCode" where
  "cu_call_success err = (if err \<noteq> CUDA_SUCCESS then kInternal else kOk)"

definition InitCuda :: "'w cuda_driver \<Rightarrow> 'w \<Rightarrow> StatusCode \<times> 'w" where
  "InitCuda d w = (case cuInit d w of (err, w) \<Rightarrow> (cu_call_success err, w))"

section \<open>Buffers\<close>

datatype AllocationType = BOUNCE_BUFFER | TX_BUFFER | TX_BUFFER_WITH_SHIM

record GpuMemInfo =
  allocation_type :: AllocationType
  mi_ptr :: u64
  mi_handle :: u64
  mi_fd :: int
  mi_size :: u64

record GpuMemHelper =
  gpu_pci :: string
  gh_dev :: int
  gh_ctx :: u64
  next_id :: u64
  mem_infos :: "u64 \<rightharpoonup> GpuMemInfo"

definition new_GpuMemHelper :: "string \<Rightarrow> GpuMemHelper" where
  "new_GpuMemHelper pci = \<lparr>gpu_pci = pci, gh_dev = 0, gh_ctx = 0, next_id = 0, mem_infos = Map.empty\<rparr>"

definition GpuMemHelper_Init :: "'w cuda_driver \<Rightarrow> GpuMemHelper \<Rightarrow> 'w \<Rightarrow> StatusCode \<times> GpuMemHelper \<times> 'w" where
  "GpuMemHelper_Init d h w =
     (case cuDeviceGetByPCIBusId d (gpu_pci h) w of
        ((err, dev), w) \<Rightarrow>
          let h = h\<lparr>gh_dev := dev\<rparr>
          in if cu_call_success err \<noteq> kOk then (cu_call_success err, h, w)
             else case cuDevicePrimaryCtxRetain d dev w of
                    ((err, ctx), w) \<Rightarrow>
                      let h = h\<lparr>gh_ctx := ctx\<rparr>
                      in if cu_call_success err \<noteq> kOk then (cu_call_success err, h, w)
                         else case cuCtxPushCurrent d ctx w of
                                (err, w) \<Rightarrow>
                                  if cu_call_success err \<noteq> kOk then (cu_call_success err, h, w)
                                  else (kOk, h, cuCtxPopCurrent d w))"

text \<open>Most operations run between a push of the context and the pop of a cleanup.\<close>

definition with_ctx :: "'w cuda_driver \<Rightarrow> u64 \<Rightarrow> 'r \<Rightarrow> ('w \<Rightarrow> 'r \<times> 'w) \<Rightarrow> 'w \<Rightarrow> 'r \<times> 'w" where
  "with_ctx d ctx failed body w =
     (case cuCtxPushCurrent d ctx w of
        (err, w) \<Rightarrow> if cu_call_success err \<noteq> kOk then (failed, w) else case body w of (r, w) \<Rightarrow> (r, cuCtxPopCurrent d w))"

definition add_info :: "GpuMemInfo \<Rightarrow> GpuMemHelper \<Rightarrow> u64 StatusOr \<times> GpuMemHelper" where
  "add_info info h = (Inr (next_id h), h\<lparr>mem_infos := (mem_infos h)(next_id h \<mapsto> info), next_id := next_id h + 1\<rparr>)"

text \<open>The arguments are the fields of the handle; \<open>is_gpu_fd\<close> tells whether its type is \<^verbatim>\<open>MEM_GPU_FD\<close>.\<close>

definition map_bounce_buffer :: "'w cuda_driver \<Rightarrow> int \<Rightarrow> int \<Rightarrow> u64 \<Rightarrow> u64 \<Rightarrow> 'w \<Rightarrow> GpuMemInfo StatusOr \<times> 'w" where
  "map_bounce_buffer d dev fd len align w =
     (case cuMemImportFromShareableHandle d fd w of
        ((err, handle), w) \<Rightarrow>
          if cu_call_success err \<noteq> kOk then (Inl kInternal, w)
          else case cuMemAddressReserve d len align w of
                 ((err, p), w) \<Rightarrow>
                   if cu_call_success err \<noteq> kOk then (Inl kInternal, cuMemRelease d handle w)
                   else case cuMemMap d p len handle w of
                          (err, w) \<Rightarrow>
                            if cu_call_success err \<noteq> kOk
                            then (Inl kInternal, cuMemRelease d handle (cuMemAddressFree d p len w))
                            else case cuMemSetAccess d p len dev w of
                                   (err, w) \<Rightarrow>
                                     if cu_call_success err \<noteq> kOk
                                     then (Inl kInternal,
                                           cuMemRelease d handle (cuMemAddressFree d p len (cuMemUnmap d p len w)))
                                     else case cuMemGetHandleForAddressRange d p len w of
                                            (dma_fd, w) \<Rightarrow>
                                              (Inr \<lparr>allocation_type = BOUNCE_BUFFER, mi_ptr = p, mi_handle = handle,
                                                    mi_fd = dma_fd, mi_size = len\<rparr>, w))"

definition ImportBounceBuffer ::
    "'w cuda_driver \<Rightarrow> bool \<Rightarrow> int \<Rightarrow> u64 \<Rightarrow> u64 \<Rightarrow> GpuMemHelper \<Rightarrow> 'w \<Rightarrow> (u64 StatusOr \<times> GpuMemHelper) \<times> 'w" where
  "ImportBounceBuffer d is_gpu_fd fd len align h w =
     (if \<not> is_gpu_fd then ((Inl kUnimplemented, h), w)
      else with_ctx d (gh_ctx h) (Inl kInternal, h)
             (\<lambda>w. case map_bounce_buffer d (gh_dev h) fd len align w of
                    (Inl e, w) \<Rightarrow> ((Inl e, h), w)
                  | (Inr info, w) \<Rightarrow> (add_info info h, w)) w)"

definition AllocateGpuMem :: "'w cuda_driver \<Rightarrow> u64 \<Rightarrow> 'w \<Rightarrow> u64 StatusOr \<times> 'w" where
  "AllocateGpuMem d len w =
     (case cuMemAlloc d len w of ((err, p), w) \<Rightarrow> (if cu_call_success err \<noteq> kOk then Inl kInternal else Inr p, w))"

definition CreateBuffer :: "'w cuda_driver \<Rightarrow> u64 \<Rightarrow> GpuMemHelper \<Rightarrow> 'w \<Rightarrow> (u64 StatusOr \<times> GpuMemHelper) \<times> 'w" where
  "CreateBuffer d len h w =
     with_ctx d (gh_ctx h) (Inl kInternal, h)
       (\<lambda>w. case AllocateGpuMem d len w of
              (Inl e, w) \<Rightarrow> ((Inl e, h), w)
            | (Inr p, w) \<Rightarrow>
                (case GetDmabuf d (gpu_pci h) p len w of
                   (Inl _, w) \<Rightarrow> ((Inl kInternal, h), cuMemFree d p w)
                 | (Inr dma_fd, w) \<Rightarrow>
                     (add_info \<lparr>allocation_type = TX_BUFFER, mi_ptr = p, mi_handle = 0, mi_fd = dma_fd, mi_size = len\<rparr> h, w))) w"

definition GetFd :: "GpuMemHelper \<Rightarrow> u64 \<Rightarrow> int StatusOr" where
  "GetFd h i = (case mem_infos h i of None \<Rightarrow> Inl kInvalidArgument | Some info \<Rightarrow> Inr (mi_fd info))"

definition GetMem :: "GpuMemHelper \<Rightarrow> u64 \<Rightarrow> u64 StatusOr" where
  "GetMem h i = (case mem_infos h i of None \<Rightarrow> Inl kInvalidArgument | Some info \<Rightarrow> Inr (mi_ptr info))"

definition WriteBuffer :: "'w cuda_driver \<Rightarrow> u64 \<Rightarrow> u8 list \<Rightarrow> u64 \<Rightarrow> GpuMemHelper \<Rightarrow> 'w \<Rightarrow> StatusCode \<times> 'w" where
  "WriteBuffer d i src offset h w =
     (case mem_infos h i of
        None \<Rightarrow> (kInvalidArgument, w)
      | Some info \<Rightarrow>
          with_ctx d (gh_ctx h) kInternal
            (\<lambda>w. case cuMemcpyHtoD d (mi_ptr info + offset) src w of
                   (err, w) \<Rightarrow> (if cu_call_success err \<noteq> kOk then kInternal else kOk, w)) w)"

definition ReadBuffer :: "'w cuda_driver \<Rightarrow> u64 \<Rightarrow> u64 \<Rightarrow> u64 \<Rightarrow> GpuMemHelper \<Rightarrow> 'w \<Rightarrow> u8 list StatusOr \<times> 'w" where
  "ReadBuffer d i offset len h w =
     (case mem_infos h i of
        None \<Rightarrow> (Inl kInvalidArgument, w)
      | Some info \<Rightarrow>
          with_ctx d (gh_ctx h) (Inl kInternal)
            (\<lambda>w. case cuMemcpyDtoH d (mi_ptr info + offset) len w of
                   ((err, bs), w) \<Rightarrow> (if cu_call_success err \<noteq> kOk then Inl kInternal else Inr bs, w)) w)"

definition release_info :: "'w cuda_driver \<Rightarrow> GpuMemInfo \<Rightarrow> 'w \<Rightarrow> 'w" where
  "release_info d info w =
     (let w = (if mi_fd info > 0 then cu_close_fd d (mi_fd info) w else w)
      in case allocation_type info of
           TX_BUFFER \<Rightarrow> cuMemFree d (mi_ptr info) w
         | _ \<Rightarrow>
             cuMemAddressFree d (mi_ptr info) (mi_size info)
               (cuMemRelease d (mi_handle info) (cuMemUnmap d (mi_ptr info) (mi_size info) w)))"

definition FreeBuffer :: "'w cuda_driver \<Rightarrow> u64 \<Rightarrow> GpuMemHelper \<Rightarrow> 'w \<Rightarrow> GpuMemHelper \<times> 'w" where
  "FreeBuffer d i h w =
     (case mem_infos h i of
        None \<Rightarrow> (h, w)
      | Some info \<Rightarrow>
          with_ctx d (gh_ctx h) h (\<lambda>w. (h\<lparr>mem_infos := (mem_infos h)(i := None)\<rparr>, release_info d info w)) w)"

section \<open>Resources of the driver\<close>

datatype cu_resource = Allocated u64 | Imported u64 | Reserved u64 | Mapped u64

text \<open>
  What the documentation of the driver says of the calls, in terms of the resources it has handed out and the stack of
  contexts: a successful call adds what it returns, a release takes back what was handed out, and all other calls keep both.
\<close>

definition driver_ledger :: "'w cuda_driver \<Rightarrow> ('w \<Rightarrow> cu_resource multiset) \<Rightarrow> ('w \<Rightarrow> u64 list) \<Rightarrow> bool" where
  "driver_ledger d live ctxs \<longleftrightarrow>
     (\<forall>c w. live (snd (cuCtxPushCurrent d c w)) = live w
        \<and> ctxs (snd (cuCtxPushCurrent d c w)) = (if fst (cuCtxPushCurrent d c w) = 0 then c # ctxs w else ctxs w))
   \<and> (\<forall>w. live (cuCtxPopCurrent d w) = live w \<and> ctxs (cuCtxPopCurrent d w) = tl (ctxs w))
   \<and> (\<forall>fd w e h w'. cuMemImportFromShareableHandle d fd w = ((e, h), w') \<longrightarrow>
        live w' = (if e = 0 then add_mset (Imported h) (live w) else live w) \<and> ctxs w' = ctxs w)
   \<and> (\<forall>n a w e p w'. cuMemAddressReserve d n a w = ((e, p), w') \<longrightarrow>
        live w' = (if e = 0 then add_mset (Reserved p) (live w) else live w) \<and> ctxs w' = ctxs w)
   \<and> (\<forall>p n h w e w'. cuMemMap d p n h w = (e, w') \<longrightarrow>
        live w' = (if e = 0 then add_mset (Mapped p) (live w) else live w) \<and> ctxs w' = ctxs w)
   \<and> (\<forall>p n dev w. live (snd (cuMemSetAccess d p n dev w)) = live w \<and> ctxs (snd (cuMemSetAccess d p n dev w)) = ctxs w)
   \<and> (\<forall>p n w. live (snd (cuMemGetHandleForAddressRange d p n w)) = live w
        \<and> ctxs (snd (cuMemGetHandleForAddressRange d p n w)) = ctxs w)
   \<and> (\<forall>p n w. Mapped p \<in># live w \<longrightarrow> live (cuMemUnmap d p n w) = live w - {#Mapped p#} \<and> ctxs (cuMemUnmap d p n w) = ctxs w)
   \<and> (\<forall>h w. Imported h \<in># live w \<longrightarrow> live (cuMemRelease d h w) = live w - {#Imported h#} \<and> ctxs (cuMemRelease d h w) = ctxs w)
   \<and> (\<forall>p n w. Reserved p \<in># live w \<longrightarrow>
        live (cuMemAddressFree d p n w) = live w - {#Reserved p#} \<and> ctxs (cuMemAddressFree d p n w) = ctxs w)
   \<and> (\<forall>n w e p w'. cuMemAlloc d n w = ((e, p), w') \<longrightarrow>
        live w' = (if e = 0 then add_mset (Allocated p) (live w) else live w) \<and> ctxs w' = ctxs w)
   \<and> (\<forall>p w. Allocated p \<in># live w \<longrightarrow> live (cuMemFree d p w) = live w - {#Allocated p#} \<and> ctxs (cuMemFree d p w) = ctxs w)
   \<and> (\<forall>p bs w. live (snd (cuMemcpyHtoD d p bs w)) = live w \<and> ctxs (snd (cuMemcpyHtoD d p bs w)) = ctxs w)
   \<and> (\<forall>p n w. live (snd (cuMemcpyDtoH d p n w)) = live w \<and> ctxs (snd (cuMemcpyDtoH d p n w)) = ctxs w)
   \<and> (\<forall>pci p n w. live (snd (GetDmabuf d pci p n w)) = live w \<and> ctxs (snd (GetDmabuf d pci p n w)) = ctxs w)
   \<and> (\<forall>fd w. live (cu_close_fd d fd w) = live w \<and> ctxs (cu_close_fd d fd w) = ctxs w)"

definition info_resources :: "GpuMemInfo \<Rightarrow> cu_resource multiset" where
  "info_resources info =
     (case allocation_type info of
        TX_BUFFER \<Rightarrow> {#Allocated (mi_ptr info)#}
      | _ \<Rightarrow> {#Mapped (mi_ptr info), Imported (mi_handle info), Reserved (mi_ptr info)#})"

definition held_resources :: "GpuMemHelper \<Rightarrow> cu_resource multiset" where
  "held_resources h = (\<Sum>i\<in>dom (mem_infos h). info_resources (the (mem_infos h i)))"

datatype mem_op = CreateOp u64 | ImportOp bool int u64 u64 | FreeOp u64 | WriteOp u64 "u8 list" u64 | ReadOp u64 u64 u64

fun mem_step :: "'w cuda_driver \<Rightarrow> mem_op \<Rightarrow> GpuMemHelper \<times> 'w \<Rightarrow> GpuMemHelper \<times> 'w" where
  "mem_step d (CreateOp len) (h, w) = (case CreateBuffer d len h w of ((_, h), w) \<Rightarrow> (h, w))"
| "mem_step d (ImportOp gpu fd len align) (h, w) = (case ImportBounceBuffer d gpu fd len align h w of ((_, h), w) \<Rightarrow> (h, w))"
| "mem_step d (FreeOp i) (h, w) = FreeBuffer d i h w"
| "mem_step d (WriteOp i src offset) (h, w) = (h, snd (WriteBuffer d i src offset h w))"
| "mem_step d (ReadOp i offset len) (h, w) = (h, snd (ReadBuffer d i offset len h w))"

definition mem_run :: "'w cuda_driver \<Rightarrow> mem_op list \<Rightarrow> GpuMemHelper \<times> 'w \<Rightarrow> GpuMemHelper \<times> 'w" where
  "mem_run d ops s = fold (mem_step d) ops s"

text \<open>Between operations the driver holds what it held before, and what the entries stand for.\<close>

definition ledger_inv ::
    "('w \<Rightarrow> cu_resource multiset) \<Rightarrow> ('w \<Rightarrow> u64 list) \<Rightarrow> cu_resource multiset \<Rightarrow> u64 list \<Rightarrow> nat \<Rightarrow> GpuMemHelper \<times> 'w \<Rightarrow> bool" where
  "ledger_inv live ctxs base stack n = (\<lambda>(h, w).
     finite (dom (mem_infos h)) \<and> unat (next_id h) \<le> n \<and> (\<forall>i\<in>dom (mem_infos h). i < next_id h)
     \<and> live w = base + held_resources h \<and> ctxs w = stack)"


lemma cu_call_success_ok [simp]: "cu_call_success e = kOk \<longleftrightarrow> e = 0"
  by (simp add: cu_call_success_def CUDA_SUCCESS_def)

text \<open>The laws, one by one.\<close>

lemmas ledger_push = driver_ledger_def [THEN iffD1, THEN conjunct1, rule_format]
lemmas ledger_pop = driver_ledger_def [THEN iffD1, THEN conjunct2, THEN conjunct1, rule_format]
lemmas ledger_import = driver_ledger_def [THEN iffD1, THEN conjunct2, THEN conjunct2, THEN conjunct1, rule_format]
lemmas ledger_reserve = driver_ledger_def [THEN iffD1, THEN conjunct2, THEN conjunct2, THEN conjunct2, THEN conjunct1, rule_format]
lemmas ledger_map = driver_ledger_def [THEN iffD1, THEN conjunct2, THEN conjunct2, THEN conjunct2, THEN conjunct2, THEN conjunct1, rule_format]
lemmas ledger_set_access = driver_ledger_def [THEN iffD1, THEN conjunct2, THEN conjunct2, THEN conjunct2, THEN conjunct2, THEN conjunct2, THEN conjunct1, rule_format]
lemmas ledger_get_handle = driver_ledger_def [THEN iffD1, THEN conjunct2, THEN conjunct2, THEN conjunct2, THEN conjunct2, THEN conjunct2, THEN conjunct2, THEN conjunct1, rule_format]
lemmas ledger_unmap = driver_ledger_def [THEN iffD1, THEN conjunct2, THEN conjunct2, THEN conjunct2, THEN conjunct2, THEN conjunct2, THEN conjunct2, THEN conjunct2, THEN conjunct1, rule_format]
lemmas ledger_release = driver_ledger_def [THEN iffD1, THEN conjunct2, THEN conjunct2, THEN conjunct2, THEN conjunct2, THEN conjunct2, THEN conjunct2, THEN conjunct2, THEN conjunct2, THEN conjunct1, rule_format]
lemmas ledger_address_free = driver_ledger_def [THEN iffD1, THEN conjunct2, THEN conjunct2, THEN conjunct2, THEN conjunct2, THEN conjunct2, THEN conjunct2, THEN conjunct2, THEN conjunct2, THEN conjunct2, THEN conjunct1, rule_format]
lemmas ledger_alloc = driver_ledger_def [THEN iffD1, THEN conjunct2, THEN conjunct2, THEN conjunct2, THEN conjunct2, THEN conjunct2, THEN conjunct2, THEN conjunct2, THEN conjunct2, THEN conjunct2, THEN conjunct2, THEN conjunct1, rule_format]
lemmas ledger_free = driver_ledger_def [THEN iffD1, THEN conjunct2, THEN conjunct2, THEN conjunct2, THEN conjunct2, THEN conjunct2, THEN conjunct2, THEN conjunct2, THEN conjunct2, THEN conjunct2, THEN conjunct2, THEN conjunct2, THEN conjunct1, rule_format]
lemmas ledger_htod = driver_ledger_def [THEN iffD1, THEN conjunct2, THEN conjunct2, THEN conjunct2, THEN conjunct2, THEN conjunct2, THEN conjunct2, THEN conjunct2, THEN conjunct2, THEN conjunct2, THEN conjunct2, THEN conjunct2, THEN conjunct2, THEN conjunct1, rule_format]
lemmas ledger_dtoh = driver_ledger_def [THEN iffD1, THEN conjunct2, THEN conjunct2, THEN conjunct2, THEN conjunct2, THEN conjunct2, THEN conjunct2, THEN conjunct2, THEN conjunct2, THEN conjunct2, THEN conjunct2, THEN conjunct2, THEN conjunct2, THEN conjunct2, THEN conjunct1, rule_format]
lemmas ledger_dmabuf = driver_ledger_def [THEN iffD1, THEN conjunct2, THEN conjunct2, THEN conjunct2, THEN conjunct2, THEN conjunct2, THEN conjunct2, THEN conjunct2, THEN conjunct2, THEN conjunct2, THEN conjunct2, THEN conjunct2, THEN conjunct2, THEN conjunct2, THEN conjunct2, THEN conjunct1, rule_format]
lemmas ledger_close = driver_ledger_def [THEN iffD1, THEN conjunct2, THEN conjunct2, THEN conjunct2, THEN conjunct2, THEN conjunct2, THEN conjunct2, THEN conjunct2, THEN conjunct2, THEN conjunct2, THEN conjunct2, THEN conjunct2, THEN conjunct2, THEN conjunct2, THEN conjunct2, THEN conjunct2, rule_format]

lemma with_ctx_result:
  assumes "driver_ledger d live ctxs" and "with_ctx d c f body w = (r, w')"
  obtains "r = f" "live w' = live w" "ctxs w' = ctxs w"
  | w1 w2 where "body w1 = (r, w2)" "live w1 = live w" "ctxs w1 = c # ctxs w" "live w' = live w2" "ctxs w' = tl (ctxs w2)"
proof -
  obtain e w1 where push: "cuCtxPushCurrent d c w = (e, w1)" by fastforce
  have law: "live w1 = live w" "ctxs w1 = (if e = 0 then c # ctxs w else ctxs w)"
    using ledger_push [OF assms(1), of c w] push by simp_all
  have pop: "live (cuCtxPopCurrent d w) = live w" "ctxs (cuCtxPopCurrent d w) = tl (ctxs w)" for w
    using ledger_pop [OF assms(1)] by simp_all
  obtain r2 w2 where body: "body w1 = (r2, w2)" by fastforce
  show thesis
  proof (cases "e = 0")
    case True
    then show thesis using assms(2) push law pop body that(2) [of w1 w2] by (auto simp: with_ctx_def)
  next
    case False
    then show thesis using assms(2) push law that(1) by (auto simp: with_ctx_def)
  qed
qed

lemma map_bounce_buffer_ledger:
  assumes "driver_ledger d live ctxs" and "map_bounce_buffer d dev fd len align w = (r, w')"
  shows "ctxs w' = ctxs w \<and> live w' = live w + (case r of Inl _ \<Rightarrow> {#} | Inr info \<Rightarrow> info_resources info)"
proof -
  obtain e1 h w1 where c1: "cuMemImportFromShareableHandle d fd w = ((e1, h), w1)" by (metis surj_pair)
  obtain e2 p w2 where c2: "cuMemAddressReserve d len align w1 = ((e2, p), w2)" by (metis surj_pair)
  obtain e3 w3 where c3: "cuMemMap d p len h w2 = (e3, w3)" by (metis surj_pair)
  obtain e4 w4 where c4: "cuMemSetAccess d p len dev w3 = (e4, w4)" by (metis surj_pair)
  obtain fd5 w5 where c5: "cuMemGetHandleForAddressRange d p len w4 = (fd5, w5)" by (metis surj_pair)
  have l1: "live w1 = (if e1 = 0 then add_mset (Imported h) (live w) else live w)" "ctxs w1 = ctxs w" using ledger_import [OF assms(1) c1] by simp_all
  have l2: "live w2 = (if e2 = 0 then add_mset (Reserved p) (live w1) else live w1)" "ctxs w2 = ctxs w1" using ledger_reserve [OF assms(1) c2] by simp_all
  have l3: "live w3 = (if e3 = 0 then add_mset (Mapped p) (live w2) else live w2)" "ctxs w3 = ctxs w2" using ledger_map [OF assms(1) c3] by simp_all
  have l4: "live w4 = live w3" "ctxs w4 = ctxs w3" using ledger_set_access [OF assms(1), of p len dev w3] c4 by simp_all
  have l5: "live w5 = live w4" "ctxs w5 = ctxs w4" using ledger_get_handle [OF assms(1), of p len w4] c5 by simp_all
  note unmap = ledger_unmap [OF assms(1)] and release = ledger_release [OF assms(1)]
    and free = ledger_address_free [OF assms(1)] and mfree = ledger_free [OF assms(1)]
  note calls = c1 c2 c3 c4 c5
  consider "e1 \<noteq> 0" | "e1 = 0" "e2 \<noteq> 0" | "e1 = 0" "e2 = 0" "e3 \<noteq> 0" | "e1 = 0" "e2 = 0" "e3 = 0" "e4 \<noteq> 0"
    | "e1 = 0" "e2 = 0" "e3 = 0" "e4 = 0" by blast
  then show ?thesis
  proof cases
    case 1
    then show ?thesis using assms(2) calls l1 by (auto simp: map_bounce_buffer_def)
  next
    case 2
    then have "live w2 = add_mset (Imported h) (live w)" "ctxs w2 = ctxs w" using l1 l2 by auto
    then show ?thesis using 2 assms(2) calls release [of h w2] by (auto simp: map_bounce_buffer_def)
  next
    case 3
    then have "live w3 = {#Reserved p, Imported h#} + live w" "ctxs w3 = ctxs w" using l1 l2 l3 by auto
    then show ?thesis using 3 assms(2) calls free [of p w3 len] release [of h "cuMemAddressFree d p len w3"]
      by (auto simp: map_bounce_buffer_def)
  next
    case 4
    then have "live w4 = {#Mapped p, Reserved p, Imported h#} + live w" "ctxs w4 = ctxs w" using l1 l2 l3 l4 by auto
    then show ?thesis
      using 4 assms(2) calls unmap [of p w4 len] free [of p "cuMemUnmap d p len w4" len]
        release [of h "cuMemAddressFree d p len (cuMemUnmap d p len w4)"]
      by (auto simp: map_bounce_buffer_def)
  next
    case 5
    then have "live w5 = {#Mapped p, Reserved p, Imported h#} + live w" "ctxs w5 = ctxs w" using l1 l2 l3 l4 l5 by auto
    then show ?thesis using 5 assms(2) calls by (auto simp: map_bounce_buffer_def info_resources_def)
  qed
qed

lemma release_info_ledger:
  assumes "driver_ledger d live ctxs" and "info_resources info \<subseteq># live w"
  shows "live (release_info d info w) = live w - info_resources info \<and> ctxs (release_info d info w) = ctxs w"
proof -
  define w1 where "w1 = (if mi_fd info > 0 then cu_close_fd d (mi_fd info) w else w)"
  have l1: "live w1 = live w" "ctxs w1 = ctxs w" using ledger_close [OF assms(1)] by (auto simp: w1_def)
  have in1: "info_resources info \<subseteq># live w1" using assms(2) l1 by simp
  note unmap = ledger_unmap [OF assms(1)] and release = ledger_release [OF assms(1)]
    and free = ledger_address_free [OF assms(1)] and mfree = ledger_free [OF assms(1)]
  obtain m where m: "live w1 = info_resources info + m" using in1 by (metis subset_mset.add_diff_inverse)
  show ?thesis
  proof (cases "allocation_type info = TX_BUFFER")
    case True
    then show ?thesis using mfree [of "mi_ptr info" w1] m l1 by (simp add: release_info_def w1_def [symmetric] info_resources_def)
  next
    case False
    let ?p = "mi_ptr info" and ?n = "mi_size info" and ?h = "mi_handle info"
    have r: "info_resources info = {#Mapped ?p, Imported ?h, Reserved ?p#}"
      using False by (cases "allocation_type info") (simp_all add: info_resources_def)
    have "release_info d info w = cuMemAddressFree d ?p ?n (cuMemRelease d ?h (cuMemUnmap d ?p ?n w1))"
      using False by (cases "allocation_type info") (simp_all add: release_info_def w1_def [symmetric])
    then show ?thesis
      using m l1 r unmap [of ?p w1 ?n] release [of ?h "cuMemUnmap d ?p ?n w1"]
        free [of ?p "cuMemRelease d ?h (cuMemUnmap d ?p ?n w1)" ?n]
      by simp
  qed
qed

lemma held_add_info:
  assumes "finite (dom (mem_infos h))" and "mem_infos h (next_id h) = None"
  shows "held_resources (snd (add_info info h)) = held_resources h + info_resources info"
proof -
  have "next_id h \<notin> dom (mem_infos h)" using assms(2) by auto
  moreover have "(\<Sum>i\<in>dom (mem_infos h). info_resources (the (((mem_infos h)(next_id h \<mapsto> info)) i)))
      = (\<Sum>i\<in>dom (mem_infos h). info_resources (the (mem_infos h i)))"
    by (rule sum.cong) (use assms(2) in auto)
  ultimately show ?thesis using assms(1) by (simp add: held_resources_def add_info_def)
qed

lemma held_remove:
  assumes "finite (dom (mem_infos h))" and "mem_infos h i = Some info"
  shows "held_resources h = info_resources info + held_resources (h\<lparr>mem_infos := (mem_infos h)(i := None)\<rparr>)"
proof -
  have i: "i \<in> dom (mem_infos h)" using assms(2) by auto
  have "(\<Sum>j\<in>dom (mem_infos h) - {i}. info_resources (the (mem_infos h j)))
      = (\<Sum>j\<in>dom (mem_infos h) - {i}. info_resources (the (((mem_infos h)(i := None)) j)))"
    by (rule sum.cong) auto
  then show ?thesis using sum.remove [OF assms(1) i, of "\<lambda>j. info_resources (the (mem_infos h j))"] assms(2)
    by (simp add: held_resources_def)
qed

lemma ledger_add_info:
  assumes "ledger_inv live ctxs base stack n (h, w)" and "n < 2 ^ 64 - 1"
    and "live w' = live w + info_resources info" and "ctxs w' = ctxs w"
  shows "ledger_inv live ctxs base stack (Suc n) (snd (add_info info h), w')"
proof -
  have inv: "finite (dom (mem_infos h))" "unat (next_id h) \<le> n" "\<forall>i\<in>dom (mem_infos h). i < next_id h"
      "live w = base + held_resources h" "ctxs w = stack"
    using assms(1) by (auto simp: ledger_inv_def)
  have "mem_infos h (next_id h) = None" using inv(3) by (metis domIff less_irrefl)
  note held = held_add_info [OF inv(1) this, of info]
  have nxt: "unat (next_id h + 1) = unat (next_id h) + 1"
    using inv(2) assms(2) by (subst unat_plus_simple [THEN iffD1]) (auto simp: word_le_nat_alt unat_word_ariths)
  then have lt: "next_id h < next_id h + 1" by (simp add: word_less_nat_alt)
  have "\<forall>i\<in>dom (mem_infos (snd (add_info info h))). i < next_id h + 1"
    using inv(3) lt by (auto simp: add_info_def intro: less_trans)
  then show ?thesis using inv held nxt assms by (simp add: ledger_inv_def add_info_def)
qed

lemma ledger_inv_mono: "ledger_inv live ctxs base stack n s \<Longrightarrow> n \<le> m \<Longrightarrow> ledger_inv live ctxs base stack m s"
  by (auto simp: ledger_inv_def)

lemma ledger_inv_world:
  "ledger_inv live ctxs base stack n (h, w) \<Longrightarrow> live w' = live w \<Longrightarrow> ctxs w' = ctxs w \<Longrightarrow> ledger_inv live ctxs base stack n (h, w')"
  by (simp add: ledger_inv_def)


lemma CreateBuffer_inv:
  assumes "driver_ledger d live ctxs" and inv: "ledger_inv live ctxs base stack n (h, w)" and n: "n < 2 ^ 64 - 1"
    and "CreateBuffer d len h w = ((r, h'), w')"
  shows "ledger_inv live ctxs base stack (Suc n) (h', w')"
  using assms(1) assms(4) [unfolded CreateBuffer_def]
proof (rule with_ctx_result)
  assume "(r, h') = (Inl kInternal, h)" "live w' = live w" "ctxs w' = ctxs w"
  then show ?thesis using ledger_inv_mono [OF ledger_inv_world [OF inv], of w' "Suc n"] by simp
next
  fix w1 w2
  assume body: "(case AllocateGpuMem d len w1 of
            (Inl e, w) \<Rightarrow> ((Inl e, h), w)
          | (Inr p, w) \<Rightarrow>
              (case GetDmabuf d (gpu_pci h) p len w of
                 (Inl _, w) \<Rightarrow> ((Inl kInternal, h), cuMemFree d p w)
               | (Inr dma_fd, w) \<Rightarrow>
                   (add_info \<lparr>allocation_type = TX_BUFFER, mi_ptr = p, mi_handle = 0, mi_fd = dma_fd, mi_size = len\<rparr> h, w)))
        = ((r, h'), w2)"
    and w1: "live w1 = live w" "ctxs w1 = gh_ctx h # ctxs w" and w': "live w' = live w2" "ctxs w' = tl (ctxs w2)"
  obtain e p w3 where alloc: "cuMemAlloc d len w1 = ((e, p), w3)" by (metis surj_pair)
  note l3 = ledger_alloc [OF assms(1) alloc]
  obtain q w4 where dma: "GetDmabuf d (gpu_pci h) p len w3 = (q, w4)" by (metis surj_pair)
  have l4: "live w4 = live w3" "ctxs w4 = ctxs w3" using ledger_dmabuf [OF assms(1), of "gpu_pci h" p len w3] dma by simp_all
  show ?thesis
  proof (cases "e = 0 \<and> \<not> isl q")
    case True
    then obtain fd where q: "q = Inr fd" by (cases q) auto
    let ?info = "\<lparr>allocation_type = TX_BUFFER, mi_ptr = p, mi_handle = 0, mi_fd = fd, mi_size = len\<rparr>"
    have "h' = snd (add_info ?info h)" "w2 = w4" using body alloc dma q True by (auto simp: AllocateGpuMem_def add_info_def)
    then show ?thesis using ledger_add_info [OF inv n, of w' ?info] l3 l4 w1 w' True by (simp add: info_resources_def)
  next
    case False
    then have "h' = h \<and> live w2 = live w1 \<and> ctxs w2 = ctxs w1"
      using body alloc dma l3 l4 ledger_free [OF assms(1), of p w4] by (cases q) (auto simp: AllocateGpuMem_def split: if_splits)
    then show ?thesis using ledger_inv_mono [OF ledger_inv_world [OF inv], of w' "Suc n"] w1 w' by simp
  qed
qed

lemma ImportBounceBuffer_inv:
  assumes "driver_ledger d live ctxs" and inv: "ledger_inv live ctxs base stack n (h, w)" and n: "n < 2 ^ 64 - 1"
    and "ImportBounceBuffer d gpu fd len align h w = ((r, h'), w')"
  shows "ledger_inv live ctxs base stack (Suc n) (h', w')"
proof (cases gpu)
  case False
  then show ?thesis using assms(4) ledger_inv_mono [OF inv, of "Suc n"] by (simp add: ImportBounceBuffer_def)
next
  case True
  show ?thesis
    using assms(1) assms(4) [unfolded ImportBounceBuffer_def, simplified True not_True_eq_False if_False]
  proof (rule with_ctx_result)
    assume "(r, h') = (Inl kInternal, h)" "live w' = live w" "ctxs w' = ctxs w"
    then show ?thesis using ledger_inv_mono [OF ledger_inv_world [OF inv], of w' "Suc n"] by simp
  next
    fix w1 w2
    assume body: "(case map_bounce_buffer d (gh_dev h) fd len align w1 of
              (Inl e, w) \<Rightarrow> ((Inl e, h), w)
            | (Inr info, w) \<Rightarrow> (add_info info h, w)) = ((r, h'), w2)"
      and w1: "live w1 = live w" "ctxs w1 = gh_ctx h # ctxs w" and w': "live w' = live w2" "ctxs w' = tl (ctxs w2)"
    obtain q w3 where m: "map_bounce_buffer d (gh_dev h) fd len align w1 = (q, w3)" by (metis surj_pair)
    note l3 = map_bounce_buffer_ledger [OF assms(1) m]
    show ?thesis
    proof (cases q)
      case (Inl e)
      then have "h' = h \<and> w2 = w3" using body m by simp
      then show ?thesis using ledger_inv_mono [OF ledger_inv_world [OF inv], of w' "Suc n"] l3 w1 w' Inl by simp
    next
      case (Inr info)
      then have "h' = snd (add_info info h) \<and> w2 = w3" using body m by auto
      then show ?thesis using ledger_add_info [OF inv n, of w' info] l3 w1 w' Inr by simp
    qed
  qed
qed

lemma FreeBuffer_inv:
  assumes "driver_ledger d live ctxs" and inv: "ledger_inv live ctxs base stack n (h, w)"
    and "FreeBuffer d i h w = (h', w')"
  shows "ledger_inv live ctxs base stack n (h', w')"
proof (cases "mem_infos h i")
  case None
  then show ?thesis using assms(3) inv by (simp add: FreeBuffer_def)
next
  case (Some info)
  have fin: "finite (dom (mem_infos h))" and held: "live w = base + held_resources h"
    using inv by (auto simp: ledger_inv_def)
  note rem = held_remove [OF fin Some]
  show ?thesis
    using assms(1) assms(3) [unfolded FreeBuffer_def Some, simplified]
  proof (rule with_ctx_result)
    assume "h' = h" "live w' = live w" "ctxs w' = ctxs w"
    then show ?thesis using ledger_inv_world [OF inv, of w'] by simp
  next
    fix w1 w2
    assume body: "(h\<lparr>mem_infos := (mem_infos h)(i := None)\<rparr>, release_info d info w1) = (h', w2)"
      and w1: "live w1 = live w" "ctxs w1 = gh_ctx h # ctxs w" and w': "live w' = live w2" "ctxs w' = tl (ctxs w2)"
    have "info_resources info \<subseteq># live w1" using w1 held rem by simp
    note rel = release_info_ledger [OF assms(1) this]
    then have "live w' = base + held_resources h'" using rem held w1 w' body by auto
    then show ?thesis using inv rel body w1 w' by (auto simp: ledger_inv_def split: if_splits)
  qed
qed

lemma with_ctx_neutral:
  assumes "driver_ledger d live ctxs" and "\<And>w. live (snd (body w)) = live w" and "\<And>w. ctxs (snd (body w)) = ctxs w"
  shows "live (snd (with_ctx d c f body w)) = live w \<and> ctxs (snd (with_ctx d c f body w)) = ctxs w"
proof -
  obtain r w' where run: "with_ctx d c f body w = (r, w')" by fastforce
  from assms(1) run have "live w' = live w \<and> ctxs w' = ctxs w"
  proof (rule with_ctx_result)
    fix w1 w2
    assume b: "body w1 = (r, w2)" and w: "live w1 = live w" "ctxs w1 = c # ctxs w" "live w' = live w2" "ctxs w' = tl (ctxs w2)"
    show ?thesis using assms(2) [of w1] assms(3) [of w1] w unfolding b by simp
  qed simp
  then show ?thesis using run by simp
qed

lemma WriteBuffer_neutral:
  assumes "driver_ledger d live ctxs"
  shows "live (snd (WriteBuffer d i src offset h w)) = live w \<and> ctxs (snd (WriteBuffer d i src offset h w)) = ctxs w"
proof (cases "mem_infos h i")
  case (Some info)
  then show ?thesis using ledger_htod [OF assms]
    by (simp add: WriteBuffer_def) (rule with_ctx_neutral [OF assms]; simp add: split_beta)
qed (simp add: WriteBuffer_def)

lemma ReadBuffer_neutral:
  assumes "driver_ledger d live ctxs"
  shows "live (snd (ReadBuffer d i offset len h w)) = live w \<and> ctxs (snd (ReadBuffer d i offset len h w)) = ctxs w"
proof (cases "mem_infos h i")
  case (Some info)
  then show ?thesis using ledger_dtoh [OF assms]
    by (simp add: ReadBuffer_def) (rule with_ctx_neutral [OF assms]; simp add: split_beta)
qed (simp add: ReadBuffer_def)

lemma mem_step_inv:
  assumes "driver_ledger d live ctxs" and "ledger_inv live ctxs base stack n s" and "n < 2 ^ 64 - 1"
  shows "ledger_inv live ctxs base stack (Suc n) (mem_step d op s)"
proof -
  obtain h w where s: "s = (h, w)" by fastforce
  note inv = assms(2) [unfolded s]
  show ?thesis
  proof (cases op)
    case (CreateOp len)
    then show ?thesis using CreateBuffer_inv [OF assms(1) inv assms(3)] s by (auto split: prod.split)
  next
    case (ImportOp gpu fd len align)
    then show ?thesis using ImportBounceBuffer_inv [OF assms(1) inv assms(3)] s by (auto split: prod.split)
  next
    case (FreeOp i)
    then show ?thesis using FreeBuffer_inv [OF assms(1) inv] ledger_inv_mono s by (metis le_SucI order_refl mem_step.simps(3) surj_pair)
  next
    case (WriteOp i src offset)
    then show ?thesis
      using ledger_inv_mono [OF ledger_inv_world [OF inv], of _ "Suc n"] WriteBuffer_neutral [OF assms(1)] s by simp
  next
    case (ReadOp i offset len)
    then show ?thesis
      using ledger_inv_mono [OF ledger_inv_world [OF inv], of _ "Suc n"] ReadBuffer_neutral [OF assms(1)] s by simp
  qed
qed

lemma mem_run_inv:
  assumes "driver_ledger d live ctxs" and "ledger_inv live ctxs base stack n s" and "n + length ops < 2 ^ 64"
  shows "ledger_inv live ctxs base stack (n + length ops) (mem_run d ops s)"
  using assms(2,3)
proof (induction ops arbitrary: s n)
  case (Cons op ops)
  have "ledger_inv live ctxs base stack (Suc n) (mem_step d op s)"
    using mem_step_inv [OF assms(1) Cons.prems(1)] Cons.prems(2) by simp
  from Cons.IH [OF this] Cons.prems(2) show ?case by (simp add: mem_run_def)
qed (simp add: mem_run_def)



text \<open>A driver that uses the size of a buffer as its address and refuses access to buffers of a page.\<close>

definition sample_driver :: "(cu_resource multiset \<times> u64 list) cuda_driver" where
  "sample_driver =
     \<lparr>cuInit = (\<lambda>w. (0, w)), cuDeviceGetByPCIBusId = (\<lambda>_ w. ((0, 0), w)), cuDevicePrimaryCtxRetain = (\<lambda>_ w. ((0, 5), w)),
      cuCtxPushCurrent = (\<lambda>c (l, cs). (0, l, c # cs)), cuCtxPopCurrent = (\<lambda>(l, cs). (l, tl cs)),
      cuMemImportFromShareableHandle = (\<lambda>fd (l, cs). ((0, of_int fd), add_mset (Imported (of_int fd)) l, cs)),
      cuMemAddressReserve = (\<lambda>n _ (l, cs). ((0, n), add_mset (Reserved n) l, cs)),
      cuMemMap = (\<lambda>p _ _ (l, cs). (0, add_mset (Mapped p) l, cs)),
      cuMemSetAccess = (\<lambda>p _ _ w. (if p = 4096 then 1 else 0, w)),
      cuMemGetHandleForAddressRange = (\<lambda>_ _ w. (3, w)),
      cuMemUnmap = (\<lambda>p _ (l, cs). (l - {#Mapped p#}, cs)), cuMemRelease = (\<lambda>h (l, cs). (l - {#Imported h#}, cs)),
      cuMemAddressFree = (\<lambda>p _ (l, cs). (l - {#Reserved p#}, cs)),
      cuMemAlloc = (\<lambda>n (l, cs). ((0, n), add_mset (Allocated n) l, cs)), cuMemFree = (\<lambda>p (l, cs). (l - {#Allocated p#}, cs)),
      cuMemcpyHtoD = (\<lambda>_ _ w. (0, w)), cuMemcpyDtoH = (\<lambda>_ _ w. ((0, []), w)), GetDmabuf = (\<lambda>_ _ _ w. (Inr 4, w)),
      cu_close_fd = (\<lambda>_ w. w),
      cuMemHostAlloc = (\<lambda>_ w. ((0, 1), w)), cuMemHostGetDevicePointer = (\<lambda>p w. ((0, p), w)), cuMemFreeHost = (\<lambda>_ w. w),
      cudaStreamSynchronize = (\<lambda>w. (0, w)), cudaDeviceSynchronize = (\<lambda>w. (0, w)),
      cuCtxCreate = (\<lambda>_ w. ((0, 5), w)), cuCtxDestroy = (\<lambda>_ w. w),
      cuDevicePrimaryCtxRelease = (\<lambda>_ w. w), cudaStreamCreateWithFlags = (\<lambda>w. ((0, 6), w)), cudaStreamDestroy = (\<lambda>_ w. w),
      cuDeviceGetCount = (\<lambda>w. ((0, 2), w)), cuDeviceGet = (\<lambda>i w. ((0, i), w)),
      cuDeviceGetPCIBusId = (\<lambda>dev w. ((0, if dev = 0 then ''0000:0A:00.0'' else ''0000:0B:00.0''), w))\<rparr>"

lemma sample_driver_ledger: "driver_ledger sample_driver fst snd"
  by (simp add: driver_ledger_def sample_driver_def split_beta)


end
