(* ===== verification/Gpu_Kernels.thy ===== *)
theory Gpu_Kernels
  imports Gpu_Mem
begin

text \<open>
  The GPU kernels of \<^verbatim>\<open>cuda_helpers.cu\<close> and their callers. The threads of a block run in the order of a schedule,
  which is a parameter; the writes of a copying kernel happen in any order.
\<close>

section \<open>Comparing\<close>

type_synonym gpu_memory = "u64 \<Rightarrow> u8"

definition bytes_at :: "gpu_memory \<Rightarrow> u64 \<Rightarrow> nat \<Rightarrow> u8 list" where
  "bytes_at m p n = map (\<lambda>k. m (p + of_nat k)) [0..<n]"

text \<open>\<^verbatim>\<open>((uint32_t *) a)[i]\<close>\<close>

definition word_at :: "gpu_memory \<Rightarrow> u64 \<Rightarrow> nat \<Rightarrow> u8 list" where
  "word_at m p i = map (\<lambda>k. m (p + of_nat (4 * i + k))) [0..<4]"

text \<open>
  The counter of a loop is an \<^verbatim>\<open>int\<close> that is compared with an unsigned 64-bit bound: past \<open>2\<^sup>31\<close> it is negative, and
  as an unsigned number it is above the bound.
\<close>

definition loop_goes_on :: "nat \<Rightarrow> nat \<Rightarrow> bool" where
  "loop_goes_on i n \<longleftrightarrow> i < n \<and> i < 2 ^ 31"

record memcmp_block =
  cb_next :: "nat option list"
  cb_mismatch :: bool

definition memcmp_start :: "nat \<Rightarrow> memcmp_block" where
  "memcmp_start blockDim = \<lparr>cb_next = map Some [0..<blockDim], cb_mismatch = False\<rparr>"

text \<open>One round of the loop of thread \<open>t\<close>; \<open>None\<close> is a thread that waits at the second barrier.\<close>

definition memcmp_thread :: "gpu_memory \<Rightarrow> u64 \<Rightarrow> u64 \<Rightarrow> nat \<Rightarrow> nat \<Rightarrow> memcmp_block \<Rightarrow> memcmp_block" where
  "memcmp_thread m a b num_elems t s =
     (if t < length (cb_next s) then
        case cb_next s ! t of
          None \<Rightarrow> s
        | Some i \<Rightarrow>
            if loop_goes_on i num_elems then
              if word_at m a i \<noteq> word_at m b i then s\<lparr>cb_mismatch := True, cb_next := (cb_next s)[t := None]\<rparr>
              else s\<lparr>cb_next := (cb_next s)[t := Some (i + length (cb_next s))]\<rparr>
            else s\<lparr>cb_next := (cb_next s)[t := None]\<rparr>
      else s)"

text \<open>The value thread 0 writes to \<^verbatim>\<open>*match\<close>, once all threads have reached the barrier.\<close>

definition memcmp_kernel :: "gpu_memory \<Rightarrow> u64 \<Rightarrow> u64 \<Rightarrow> nat \<Rightarrow> nat \<Rightarrow> nat list \<Rightarrow> bool option" where
  "memcmp_kernel m a b num_elems blockDim schedule =
     (let s = fold (memcmp_thread m a b num_elems) schedule (memcmp_start blockDim)
      in if list_all (\<lambda>x. x = None) (cb_next s) then Some (\<not> cb_mismatch s) else None)"

definition kMemcmpThreads :: nat where "kMemcmpThreads = 256"

record GpuMemValidator =
  gv_pci :: string
  gv_new_ctx :: bool
  gv_dev :: int
  gv_ctx :: u64
  gv_stream :: u64

definition new_GpuMemValidator :: "string \<Rightarrow> bool \<Rightarrow> GpuMemValidator" where
  "new_GpuMemValidator pci new_ctx = \<lparr>gv_pci = pci, gv_new_ctx = new_ctx, gv_dev = 0, gv_ctx = 0, gv_stream = 0\<rparr>"

definition cuda_call_success :: "int \<Rightarrow> StatusCode" where
  "cuda_call_success err = (if err \<noteq> CUDA_SUCCESS then kInternal else kOk)"

definition GpuMemValidator_Init :: "'w cuda_driver \<Rightarrow> GpuMemValidator \<Rightarrow> 'w \<Rightarrow> StatusCode \<times> GpuMemValidator \<times> 'w" where
  "GpuMemValidator_Init d v w =
     (case cuDeviceGetByPCIBusId d (gv_pci v) w of
        ((err, dev), w) \<Rightarrow>
          let v = v\<lparr>gv_dev := dev\<rparr>
          in if cu_call_success err \<noteq> kOk then (cu_call_success err, v, w)
             else case (if gv_new_ctx v then cuCtxCreate d dev w else cuDevicePrimaryCtxRetain d dev w) of
                    ((err, ctx), w) \<Rightarrow>
                      let v = v\<lparr>gv_ctx := ctx\<rparr>
                      in if cu_call_success err \<noteq> kOk then (cu_call_success err, v, w)
                         else case (if gv_new_ctx v then (0, w) else cuCtxPushCurrent d ctx w) of
                                (err, w) \<Rightarrow>
                                  if cu_call_success err \<noteq> kOk then (cu_call_success err, v, w)
                                  else case cudaStreamCreateWithFlags d w of
                                         ((err, stream), w) \<Rightarrow>
                                           let v = v\<lparr>gv_stream := stream\<rparr>
                                           in if cuda_call_success err \<noteq> kOk then (cuda_call_success err, v, w)
                                              else (kOk, v, cuCtxPopCurrent d w))"

definition delete_GpuMemValidator :: "'w cuda_driver \<Rightarrow> GpuMemValidator \<Rightarrow> 'w \<Rightarrow> 'w" where
  "delete_GpuMemValidator d v w =
     (let w = cudaStreamDestroy d (gv_stream v) w
      in if gv_new_ctx v then cuCtxDestroy d (gv_ctx v) w else cuDevicePrimaryCtxRelease d (gv_dev v) w)"

text \<open>
  \<open>m\<close> is the memory of the GPU, \<open>schedule\<close> the order in which the threads run. \<open>None\<close> is a kernel that has not
  ended with the schedule.
\<close>

definition run_memcmp ::
    "'w cuda_driver \<Rightarrow> gpu_memory \<Rightarrow> nat list \<Rightarrow> u64 \<Rightarrow> u64 \<Rightarrow> u64 \<Rightarrow> u64 \<Rightarrow> 'w \<Rightarrow> bool StatusOr option \<times> 'w" where
  "run_memcmp d m schedule a b len match_host w =
     (case cuMemHostGetDevicePointer d match_host w of
        ((err, _), w) \<Rightarrow>
          if cu_call_success err \<noteq> kOk then (Some (Inl kInternal), w)
          else case cudaStreamSynchronize d w of
                 (err, w) \<Rightarrow>
                   (if cuda_call_success err \<noteq> kOk then Some (Inl kInternal)
                    else map_option Inr (memcmp_kernel m a b (unat len div 4) kMemcmpThreads schedule), w))"

definition MemCmp ::
    "'w cuda_driver \<Rightarrow> GpuMemValidator \<Rightarrow> gpu_memory \<Rightarrow> nat list \<Rightarrow> u64 \<Rightarrow> u64 \<Rightarrow> u64 \<Rightarrow> 'w \<Rightarrow> bool StatusOr option \<times> 'w" where
  "MemCmp d v m schedule a b len w =
     with_ctx d (gv_ctx v) (Some (Inl kInternal))
       (\<lambda>w. case cuMemHostAlloc d 1 w of
              ((err, match_host), w) \<Rightarrow>
                if cu_call_success err \<noteq> kOk then (Some (Inl kInternal), w)
                else case run_memcmp d m schedule a b len match_host w of
                       (r, w) \<Rightarrow> (r, cuMemFreeHost d match_host w)) w"

section \<open>Copying\<close>

text \<open>The values the counter of thread \<open>t\<close> takes.\<close>

function thread_loop :: "nat \<Rightarrow> nat \<Rightarrow> nat \<Rightarrow> nat list" where
  "thread_loop blockDim i n =
     (if 0 < blockDim \<and> loop_goes_on i n then i # thread_loop blockDim (i + blockDim) n else [])"
  by pat_completeness auto
termination by (relation "measure (\<lambda>(b, i, n). n - i)") (auto simp: loop_goes_on_def)

declare thread_loop.simps [simp del]

text \<open>The writes of a kernel are pairs of the address written and the address read.\<close>

fun memcpy_block :: "nat \<Rightarrow> u64 \<Rightarrow> u64 \<Rightarrow> u64 \<times> u64 \<times> u64 \<Rightarrow> (u64 \<times> u64) list" where
  "memcpy_block blockDim dst src (src_off, sz, dst_off) =
     concat (map (\<lambda>t. map (\<lambda>i. (dst + (dst_off + of_nat i), src + (src_off + of_nat i))) (thread_loop blockDim t (unat sz)))
       [0..<blockDim])"

definition memcpy_kernel :: "nat \<Rightarrow> (u64 \<times> u64 \<times> u64) list \<Rightarrow> u64 \<Rightarrow> u64 \<Rightarrow> (u64 \<times> u64) list" where
  "memcpy_kernel blockDim scatter_list dst src = concat (map (memcpy_block blockDim dst src) scatter_list)"

fun run_writes :: "(u64 \<times> u64) list \<Rightarrow> gpu_memory \<Rightarrow> gpu_memory" where
  "run_writes [] m = m"
| "run_writes ((d, s) # ws) m = run_writes ws (m(d := m s))"

fun gather_meta :: "u64 \<Rightarrow> (u64 \<times> u64) list \<Rightarrow> (u64 \<times> u64 \<times> u64) list" where
  "gather_meta offset [] = []"
| "gather_meta offset ((iov_base, iov_len) # iovecs) = (iov_base, iov_len, offset) # gather_meta (offset + iov_len) iovecs"

text \<open>
  \<open>order\<close> is the order in which the writes happen. The memory is unknown (\<open>None\<close>) when the kernel could not be awaited.
\<close>

definition GatherRxData ::
    "'w cuda_driver \<Rightarrow> GpuMemValidator \<Rightarrow> ((u64 \<times> u64) list \<Rightarrow> (u64 \<times> u64) list) \<Rightarrow> (u64 \<times> u64) list \<Rightarrow> u64 \<Rightarrow> u64
      \<Rightarrow> gpu_memory \<Rightarrow> 'w \<Rightarrow> (StatusCode \<times> gpu_memory option) \<times> 'w" where
  "GatherRxData d v order iovecs dst src m w =
     with_ctx d (gv_ctx v) (kInternal, Some m)
       (\<lambda>w. case cuMemHostAlloc d (24 * of_nat (length iovecs)) w of
              ((err, meta), w) \<Rightarrow>
                if cu_call_success err \<noteq> kOk then ((kInternal, Some m), w)
                else case cuMemHostGetDevicePointer d meta w of
                       ((err, _), w) \<Rightarrow>
                         if cu_call_success err \<noteq> kOk then ((kInternal, Some m), cuMemFreeHost d meta w)
                         else case cudaStreamSynchronize d w of
                                (err, w) \<Rightarrow>
                                  (if cuda_call_success err \<noteq> kOk then (kInternal, None)
                                   else (kOk, Some (run_writes (order (memcpy_kernel 256 (gather_meta 0 iovecs) dst src)) m)),
                                   cuMemFreeHost d meta w)) w"

record loadMeta =
  src_off :: u32
  lm_len :: u32
  dst_off :: u64

definition iovec_writes :: "u64 \<Rightarrow> u64 \<Rightarrow> loadMeta \<Rightarrow> (u64 \<times> u64) list" where
  "iovec_writes dst src e =
     map (\<lambda>j. (dst + (dst_off e + of_nat j), src + ucast (src_off e + of_nat j))) [0..<unat (lm_len e)]"

text \<open>The number of entries is read as an \<^verbatim>\<open>int\<close>; a negative one has no rounds.\<close>

definition iovec_cpy_kernel :: "nat \<Rightarrow> loadMeta list \<Rightarrow> u64 \<Rightarrow> u64 \<Rightarrow> u64 \<Rightarrow> (u64 \<times> u64) list" where
  "iovec_cpy_kernel blockDim mem cnt dst src =
     concat (map (\<lambda>t. concat (map (\<lambda>i. iovec_writes dst src (mem ! i))
       (thread_loop blockDim t (nat (sint (ucast cnt :: 32 word)))))) [0..<blockDim])"

definition CopyGpuMemFromDeviceHandle ::
    "'w cuda_driver \<Rightarrow> ((u64 \<times> u64) list \<Rightarrow> (u64 \<times> u64) list) \<Rightarrow> loadMeta list \<Rightarrow> u64 \<Rightarrow> u64 \<Rightarrow> u64 \<Rightarrow> gpu_memory \<Rightarrow> 'w
      \<Rightarrow> (StatusCode \<times> gpu_memory option) \<times> 'w" where
  "CopyGpuMemFromDeviceHandle d order mem cnt bounce_buf dest m w =
     (case cudaDeviceSynchronize d w of
        (err, w) \<Rightarrow>
          (if cuda_call_success err \<noteq> kOk then (cuda_call_success err, None)
           else (kOk, Some (run_writes (order (iovec_cpy_kernel 1024 mem cnt dest bounce_buf)) m)), w))"


section \<open>Facts about comparing\<close>

text \<open>What the threads have found out so far, and how far they have come.\<close>

definition memcmp_inv :: "gpu_memory \<Rightarrow> u64 \<Rightarrow> u64 \<Rightarrow> nat \<Rightarrow> nat \<Rightarrow> memcmp_block \<Rightarrow> bool" where
  "memcmp_inv m a b n B s \<longleftrightarrow>
     length (cb_next s) = B
     \<and> (\<forall>t<B. \<forall>i. cb_next s ! t = Some i \<longrightarrow> i mod B = t)
     \<and> (cb_mismatch s \<longrightarrow> (\<exists>i. loop_goes_on i n \<and> word_at m a i \<noteq> word_at m b i))
     \<and> (\<not> cb_mismatch s \<longrightarrow>
          (\<forall>j. loop_goes_on j n \<and> (case cb_next s ! (j mod B) of None \<Rightarrow> True | Some i \<Rightarrow> j < i) \<longrightarrow> word_at m a j = word_at m b j))"

lemma memcmp_start_inv: "0 < B \<Longrightarrow> memcmp_inv m a b n B (memcmp_start B)"
  by (auto simp: memcmp_inv_def memcmp_start_def) (metis mod_less_eq_dividend not_less)

lemma same_residue_below: "j < i + B \<Longrightarrow> j mod B = i mod B \<Longrightarrow> j \<le> (i::nat)"
proof (rule ccontr)
  assume lt: "j < i + B" and mod: "j mod B = i mod B" and "\<not> j \<le> i"
  then have "i < j" by simp
  then have "B dvd j - i" using mod by (metis mod_eq_dvd_iff_nat less_imp_le)
  then show False using lt \<open>i < j\<close> by (auto dest: dvd_imp_le)
qed

lemma length_memcmp_thread [simp]: "length (cb_next (memcmp_thread m a b n u s)) = length (cb_next s)"
  by (simp add: memcmp_thread_def split: option.split)

lemma nth_memcmp_thread:
  "t < length (cb_next s) \<Longrightarrow> cb_next (memcmp_thread m a b n u s) ! t =
     (if u = t then
        case cb_next s ! t of
          None \<Rightarrow> None
        | Some i \<Rightarrow> if loop_goes_on i n \<and> word_at m a i = word_at m b i then Some (i + length (cb_next s)) else None
      else cb_next s ! t)"
  by (auto simp: memcmp_thread_def split: option.split)

lemma mismatch_memcmp_thread:
  "cb_mismatch (memcmp_thread m a b n u s) \<longleftrightarrow>
     cb_mismatch s \<or> (u < length (cb_next s) \<and> (\<exists>i. cb_next s ! u = Some i \<and> loop_goes_on i n \<and> word_at m a i \<noteq> word_at m b i))"
  by (auto simp: memcmp_thread_def split: option.split)

lemma memcmp_thread_inv:
  assumes "memcmp_inv m a b n B s" and "0 < B"
  shows "memcmp_inv m a b n B (memcmp_thread m a b n u s)"
proof -
  let ?s = "memcmp_thread m a b n u s"
  have len: "length (cb_next s) = B" and res: "\<And>t i. t < B \<Longrightarrow> cb_next s ! t = Some i \<Longrightarrow> i mod B = t"
    and bad: "cb_mismatch s \<Longrightarrow> \<exists>i. loop_goes_on i n \<and> word_at m a i \<noteq> word_at m b i"
    and good: "\<And>j. \<not> cb_mismatch s \<Longrightarrow> loop_goes_on j n \<Longrightarrow> (case cb_next s ! (j mod B) of None \<Rightarrow> True | Some i \<Rightarrow> j < i)
      \<Longrightarrow> word_at m a j = word_at m b j"
    using assms(1) by (auto simp: memcmp_inv_def)
  have "word_at m a j = word_at m b j"
    if ok: "\<not> cb_mismatch ?s" and j: "loop_goes_on j n" and reached: "case cb_next ?s ! (j mod B) of None \<Rightarrow> True | Some i \<Rightarrow> j < i" for j
  proof -
    have lt: "j mod B < B" using assms(2) by simp
    have ok0: "\<not> cb_mismatch s" using ok by (simp add: mismatch_memcmp_thread)
    show ?thesis
    proof (cases "u = j mod B \<and> (\<exists>i. cb_next s ! u = Some i)")
      case False
      then have "case cb_next s ! (j mod B) of None \<Rightarrow> True | Some i \<Rightarrow> j < i"
        using reached lt len by (auto simp: nth_memcmp_thread split: option.splits if_splits)
      then show ?thesis by (rule good [OF ok0 j])
    next
      case True
      then obtain i where i: "u = j mod B" "cb_next s ! u = Some i" by blast
      have eq: "loop_goes_on i n \<Longrightarrow> word_at m a i = word_at m b i"
        using ok i lt len by (auto simp: mismatch_memcmp_thread)
      have "j < i \<or> j = i \<and> loop_goes_on i n"
      proof (cases "loop_goes_on i n")
        case True
        then have "j < i + B" using reached i lt len eq by (simp add: nth_memcmp_thread)
        then show ?thesis using same_residue_below [of j i B] res [of u i] i lt True by (auto simp: le_less)
      next
        case False
        then show ?thesis using j by (auto simp: loop_goes_on_def)
      qed
      then show ?thesis using eq good [OF ok0 j] i by auto
    qed
  qed
  moreover have "i mod B = t" if "t < B" "cb_next ?s ! t = Some i" for t i
    using that res len by (auto simp: nth_memcmp_thread split: if_splits option.splits)
  moreover have "\<exists>i. loop_goes_on i n \<and> word_at m a i \<noteq> word_at m b i" if "cb_mismatch ?s"
    using that bad by (auto simp: mismatch_memcmp_thread)
  ultimately show ?thesis using len by (simp add: memcmp_inv_def)
qed

lemma memcmp_fold_inv:
  "memcmp_inv m a b n B s \<Longrightarrow> 0 < B \<Longrightarrow> memcmp_inv m a b n B (fold (memcmp_thread m a b n) sched s)"
  by (induction sched arbitrary: s) (simp_all add: memcmp_thread_inv)

lemma memcmp_progress:
  assumes "t < B"
  shows "length (cb_next (fold (memcmp_thread m a b n) sched (memcmp_start B))) = B
    \<and> (case cb_next (fold (memcmp_thread m a b n) sched (memcmp_start B)) ! t of
         None \<Rightarrow> True
       | Some i \<Rightarrow> i = t + B * count_list sched t \<and> (\<forall>k<count_list sched t. loop_goes_on (t + B * k) n))"
proof (induction sched rule: rev_induct)
  case Nil
  then show ?case using assms by (simp add: memcmp_start_def)
next
  case (snoc u sched)
  let ?s = "fold (memcmp_thread m a b n) sched (memcmp_start B)"
  have len: "length (cb_next ?s) = B" using snoc.IH by simp
  show ?case
  proof (cases "u = t")
    case False
    then show ?thesis using snoc.IH len assms by (auto simp: nth_memcmp_thread split: option.splits)
  next
    case True
    show ?thesis
    proof (cases "cb_next ?s ! t")
      case None
      then show ?thesis using True len assms by (simp add: nth_memcmp_thread)
    next
      case (Some i)
      then have i: "i = t + B * count_list sched t" "\<forall>k<count_list sched t. loop_goes_on (t + B * k) n"
        using snoc.IH by simp_all
      then show ?thesis using True len assms Some
        by (auto simp: nth_memcmp_thread less_Suc_eq count_list_append)
    qed
  qed
qed

lemma memcmp_kernel_result:
  assumes "0 < B" and "\<forall>t<B. n div B + 2 \<le> count_list sched t"
  shows "memcmp_kernel m a b n B sched = Some (\<forall>i. loop_goes_on i n \<longrightarrow> word_at m a i = word_at m b i)"
proof -
  let ?s = "fold (memcmp_thread m a b n) sched (memcmp_start B)"
  have inv: "memcmp_inv m a b n B ?s" by (rule memcmp_fold_inv [OF memcmp_start_inv [OF assms(1)] assms(1)])
  have len: "length (cb_next ?s) = B" using inv by (simp add: memcmp_inv_def)
  have fin: "cb_next ?s ! t = None" if t: "t < B" for t
  proof (cases "cb_next ?s ! t")
    case (Some i)
    have cnt: "n div B + 1 < count_list sched t" using assms(2) t by fastforce
    have "\<forall>k<count_list sched t. loop_goes_on (t + B * k) n" using memcmp_progress [OF t, of m a b n sched] Some by simp
    then have "loop_goes_on (t + B * (n div B + 1)) n" using cnt by blast
    then have "B * (n div B + 1) < n" by (simp add: loop_goes_on_def)
    moreover have "n < B * (n div B + 1)" using assms(1) by (metis mult.commute dividend_less_div_times Suc_eq_plus1 mult_Suc add.commute)
    ultimately show ?thesis by simp
  qed
  then have all: "list_all (\<lambda>x. x = None) (cb_next ?s)" using len by (simp add: list_all_length)
  have "\<not> cb_mismatch ?s \<longleftrightarrow> (\<forall>i. loop_goes_on i n \<longrightarrow> word_at m a i = word_at m b i)"
    using inv fin assms(1) by (auto simp: memcmp_inv_def)
  then show ?thesis using all by (simp add: memcmp_kernel_def)
qed

lemma words_equal_bytes:
  "(\<forall>i<n. word_at m a i = word_at m b i) \<longleftrightarrow> (\<forall>k<4 * n. m (a + of_nat k) = m (b + of_nat k))"
proof
  assume eq: "\<forall>i<n. word_at m a i = word_at m b i"
  show "\<forall>k<4 * n. m (a + of_nat k) = m (b + of_nat k)"
  proof (intro allI impI)
    fix k assume k: "k < 4 * n"
    then have "k div 4 < n" "k mod 4 < 4" by auto
    then have "word_at m a (k div 4) ! (k mod 4) = word_at m b (k div 4) ! (k mod 4)" using eq by simp
    moreover have "4 * (k div 4) + k mod 4 = k" by simp
    ultimately show "m (a + of_nat k) = m (b + of_nat k)" unfolding word_at_def
      by (simp only: nth_map length_upt diff_zero \<open>k mod 4 < 4\<close> nth_upt add_0)
  qed
next
  assume eq: "\<forall>k<4 * n. m (a + of_nat k) = m (b + of_nat k)"
  have "m (a + of_nat (4 * i + k)) = m (b + of_nat (4 * i + k))" if "i < n" "k < 4" for i k
    using eq [rule_format, of "4 * i + k"] that by simp
  then show "\<forall>i<n. word_at m a i = word_at m b i" by (simp add: word_at_def)
qed




section \<open>Facts about copying\<close>

lemma thread_loop_set:
  "0 < B \<Longrightarrow> set (thread_loop B i n) = {j. i \<le> j \<and> loop_goes_on j n \<and> j mod B = i mod B}"
proof (induction B i n rule: thread_loop.induct)
  case (1 B i n)
  show ?case
  proof (cases "loop_goes_on i n")
    case True
    have step: "i \<le> j \<and> j mod B = i mod B \<longleftrightarrow> j = i \<or> i + B \<le> j \<and> j mod B = i mod B" for j
      using same_residue_below [of j i B] by (cases "j < i + B") (auto simp: not_less)
    have "set (thread_loop B i n) = insert i {j. i + B \<le> j \<and> loop_goes_on j n \<and> j mod B = (i + B) mod B}"
      using True 1 by (subst thread_loop.simps) simp
    also have "\<dots> = {j. i \<le> j \<and> loop_goes_on j n \<and> j mod B = i mod B}" using True step by auto
    finally show ?thesis .
  next
    case False
    then show ?thesis by (subst thread_loop.simps) (auto simp: loop_goes_on_def)
  qed
qed

lemma thread_loop_distinct: "distinct (thread_loop B i n)"
proof (induction B i n rule: thread_loop.induct)
  case (1 B i n)
  show ?case
  proof (cases "0 < B \<and> loop_goes_on i n")
    case True
    then show ?thesis using 1 thread_loop_set [of B "i + B" n] by (subst thread_loop.simps) simp
  next
    case False
    then show ?thesis by (subst thread_loop.simps) auto
  qed
qed

lemma blocks_of_loop:
  assumes "0 < B" and "n \<le> 2 ^ 31"
  shows "mset (concat (map (\<lambda>t. thread_loop B t n) [0..<B])) = mset [0..<n]"
proof -
  note loop = thread_loop_set [OF assms(1)]
  have go: "loop_goes_on j n \<longleftrightarrow> j < n" for j using assms(2) by (auto simp: loop_goes_on_def)
  have "j \<in> set (concat (map (\<lambda>t. thread_loop B t n) [0..<B])) \<longleftrightarrow> j < n" for j
  proof
    assume "j < n"
    then have "j \<in> set (thread_loop B (j mod B) n)" unfolding loop by (simp add: go mod_less_eq_dividend)
    moreover have "j mod B < B" using assms(1) by simp
    ultimately show "j \<in> set (concat (map (\<lambda>t. thread_loop B t n) [0..<B]))" by auto
  qed (auto simp: loop go)
  then have set: "set (concat (map (\<lambda>t. thread_loop B t n) [0..<B])) = set [0..<n]"
    by (simp only: set_eq_iff set_upt atLeastLessThan_iff) simp
  have "distinct (concat (map (\<lambda>t. thread_loop B t n) ts))" if "distinct ts" "set ts \<subseteq> {0..<B}" for ts
    using that
  proof (induction ts)
    case (Cons t ts)
    have "x \<notin> set (thread_loop B u n)" if "x \<in> set (thread_loop B t n)" "u \<in> set ts" for x u
    proof -
      have "u < B" "t < B" "u \<noteq> t" using Cons.prems that(2) by auto
      then show ?thesis using that(1) unfolding loop by simp
    qed
    then have "set (thread_loop B t n) \<inter> set (concat (map (\<lambda>t. thread_loop B t n) ts)) = {}" by auto
    then show ?case using Cons thread_loop_distinct [of B t n] by simp
  qed simp
  from this [of "[0..<B]"] set show ?thesis by (subst set_eq_iff_mset_eq_distinct [symmetric]) simp_all
qed

lemma mset_concat_map_cong: "mset xs = mset ys \<Longrightarrow> mset (concat (map f xs)) = mset (concat (map f ys))"
proof -
  have "mset (concat (map f xs)) = sum_mset (image_mset (\<lambda>x. mset (f x)) (mset xs))" for xs by (induction xs) auto
  then show "mset xs = mset ys \<Longrightarrow> ?thesis" by simp
qed

text \<open>
  Writes to different addresses, none of which is read, can happen in any order.
\<close>

definition race_free :: "(u64 \<times> u64) list \<Rightarrow> bool" where
  "race_free ws \<longleftrightarrow> distinct (map fst ws) \<and> fst ` set ws \<inter> snd ` set ws = {}"

lemma run_writes_race_free:
  "race_free ws \<Longrightarrow> run_writes ws m d = (case map_of ws d of None \<Rightarrow> m d | Some s \<Rightarrow> m s)"
proof (induction ws arbitrary: m)
  case (Cons w ws)
  obtain d0 s0 where w: "w = (d0, s0)" by fastforce
  have rf: "race_free ws" and new: "d0 \<notin> fst ` set ws" using Cons.prems w by (auto simp: race_free_def)
  have run: "run_writes (w # ws) m d = (case map_of ws d of None \<Rightarrow> (m(d0 := m s0)) d | Some s \<Rightarrow> (m(d0 := m s0)) s)"
    using Cons.IH [OF rf] w by simp
  have unread: "s \<noteq> d0" if "map_of ws d = Some s" for s
    using Cons.prems map_of_SomeD [OF that] w unfolding race_free_def by force
  show ?case
  proof (cases "d = d0")
    case True
    then have "map_of ws d = None" using new by (simp add: map_of_eq_None_iff)
    then show ?thesis using run w True by simp
  next
    case False
    then show ?thesis using run w unread by (cases "map_of ws d") auto
  qed
qed simp

lemma race_free_mset: "mset ws = mset vs \<Longrightarrow> race_free ws = race_free vs"
proof -
  assume eq: "mset ws = mset vs"
  then have "mset (map fst ws) = mset (map fst vs)" by simp
  then have "distinct (map fst ws) = distinct (map fst vs)" by (rule mset_eq_imp_distinct_iff)
  then show ?thesis using mset_eq_setD [OF eq] by (simp add: race_free_def)
qed

lemma run_writes_any_order:
  assumes "race_free ws" and "mset vs = mset ws" and "(d, s) \<in> set ws"
  shows "run_writes vs m d = m s"
proof -
  have vs: "race_free vs" using race_free_mset [OF assms(2)] assms(1) by simp
  then have "map_of vs d = Some s" using assms(3) mset_eq_setD [OF assms(2)]
    by (intro map_of_is_SomeI) (auto simp: race_free_def)
  then show ?thesis using run_writes_race_free [OF vs] by simp
qed

text \<open>The addresses a list of ranges covers, in order, and the writes of the gathering kernel as one list.\<close>

definition range_addresses :: "u64 \<Rightarrow> (u64 \<times> u64) list \<Rightarrow> u64 list" where
  "range_addresses src iovecs = concat (map (\<lambda>(b, l). map (\<lambda>i. src + (b + of_nat i)) [0..<unat l]) iovecs)"

lemma length_range_addresses: "length (range_addresses src iovecs) = sum_list (map (unat \<circ> snd) iovecs)"
  by (induction iovecs) (auto simp: range_addresses_def)

lemma memcpy_block_mset:
  assumes "0 < B" and "unat sz \<le> 2 ^ 31"
  shows "mset (memcpy_block B dst src (so, sz, do))
    = mset (map (\<lambda>i. (dst + (do + of_nat i), src + (so + of_nat i))) [0..<unat sz])"
proof -
  let ?f = "\<lambda>i. (dst + (do + of_nat i), src + (so + of_nat i))"
  have "memcpy_block B dst src (so, sz, do) = map ?f (concat (map (\<lambda>t. thread_loop B t (unat sz)) [0..<B]))"
    by (simp add: map_concat comp_def)
  then show ?thesis using blocks_of_loop [OF assms] by simp
qed

lemma gather_mset:
  assumes "0 < B" and "\<forall>(b, l) \<in> set iovecs. unat l \<le> 2 ^ 31"
  shows "mset (memcpy_kernel B (gather_meta (of_nat o1) iovecs) dst src)
    = mset (map (\<lambda>(k, s). (dst + of_nat k, s)) (zip [o1..<o1 + length (range_addresses src iovecs)] (range_addresses src iovecs)))"
  using assms(2)
proof (induction iovecs arbitrary: o1)
  case Nil
  then show ?case by (simp add: memcpy_kernel_def range_addresses_def)
next
  case (Cons p iovecs)
  obtain b l where p: "p = (b, l)" by fastforce
  let ?R = "range_addresses src"
  have R: "?R (p # iovecs) = map (\<lambda>i. src + (b + of_nat i)) [0..<unat l] @ ?R iovecs" by (simp add: range_addresses_def p)
  have off: "of_nat o1 + l = of_nat (o1 + unat l)" by simp
  have up: "[o1..<o1 + length (?R (p # iovecs))] = [o1..<o1 + unat l] @ [o1 + unat l..<o1 + unat l + length (?R iovecs)]"
    using upt_add_eq_append [of o1 "o1 + unat l" "length (?R iovecs)"] by (simp add: R add.assoc)
  have head: "map (\<lambda>(k, s). (dst + of_nat k, s)) (zip [o1..<o1 + unat l] (map (\<lambda>i. src + (b + of_nat i)) [0..<unat l]))
      = map (\<lambda>i. (dst + (of_nat o1 + of_nat i), src + (b + of_nat i))) [0..<unat l]"
    by (rule nth_equalityI) simp_all
  have "mset (memcpy_kernel B (gather_meta (of_nat o1) (p # iovecs)) dst src)
      = mset (memcpy_block B dst src (b, l, of_nat o1)) + mset (memcpy_kernel B (gather_meta (of_nat (o1 + unat l)) iovecs) dst src)"
    using off by (simp add: memcpy_kernel_def p del: memcpy_block.simps of_nat_add)
  also have "\<dots> = mset (map (\<lambda>i. (dst + (of_nat o1 + of_nat i), src + (b + of_nat i))) [0..<unat l])
      + mset (map (\<lambda>(k, s). (dst + of_nat k, s)) (zip [o1 + unat l..<o1 + unat l + length (?R iovecs)] (?R iovecs)))"
    using memcpy_block_mset [OF assms(1), of l dst src b "of_nat o1"] Cons.IH [of "o1 + unat l"] Cons.prems p
    by (simp del: memcpy_block.simps)
  also have "\<dots> = mset (map (\<lambda>(k, s). (dst + of_nat k, s)) (zip [o1..<o1 + length (?R (p # iovecs))] (?R (p # iovecs))))"
    unfolding up unfolding R using head by simp
  finally show ?case .
qed





lemma iovec_cpy_mset:
  assumes "nat (sint (ucast cnt :: 32 word)) = length mem" and "0 < B"
  shows "mset (iovec_cpy_kernel B mem cnt dst src) = mset (concat (map (iovec_writes dst src) mem))"
proof -
  let ?f = "\<lambda>i. iovec_writes dst src (mem ! i)"
  have "sint (ucast cnt :: 32 word) < 2 ^ 31" using sint_lt [of "ucast cnt :: 32 word"] by simp
  then have "nat (sint (ucast cnt :: 32 word)) \<le> nat (2 ^ 31)" by (intro nat_mono) simp
  then have small: "length mem \<le> 2 ^ 31" using assms(1) by simp
  have "concat (map (\<lambda>t. concat (map ?f (g t))) ts) = concat (map ?f (concat (map g ts)))" for g and ts :: "nat list"
    by (induction ts) simp_all
  then have "iovec_cpy_kernel B mem cnt dst src = concat (map ?f (concat (map (\<lambda>t. thread_loop B t (length mem)) [0..<B])))"
    unfolding iovec_cpy_kernel_def assms(1) .
  also have "mset \<dots> = mset (concat (map ?f [0..<length mem]))"
    by (rule mset_concat_map_cong [OF blocks_of_loop [OF assms(2) small]])
  also have "map ?f [0..<length mem] = map (iovec_writes dst src) mem" by (rule nth_equalityI) simp_all
  finally show ?thesis .
qed

text \<open>
  Unpacking a received message leaves the pieces of the bounce buffer at their places in the destination, in whatever
  order the threads of the kernel write, provided the places do not overlap each other or the pieces.
\<close>

theorem CopyGpuMem_unpacks:
  assumes "\<And>ws. mset (order ws) = mset ws"
    and "fst (CopyGpuMemFromDeviceHandle d order mem cnt bounce_buf dest m w) = (kOk, Some m')"
    and "nat (sint (ucast cnt :: 32 word)) = length mem"
    and "race_free (concat (map (iovec_writes dest bounce_buf) mem))"
    and "e \<in> set mem" and "unat (src_off e) + unat (lm_len e) \<le> 2 ^ 32"
  shows "bytes_at m' (dest + dst_off e) (unat (lm_len e)) = bytes_at m (bounce_buf + ucast (src_off e)) (unat (lm_len e))"
proof -
  let ?ws = "concat (map (iovec_writes dest bounce_buf) mem)" and ?vs = "iovec_cpy_kernel 1024 mem cnt dest bounce_buf"
  have m': "m' = run_writes (order ?vs) m"
    using assms(2) by (simp add: CopyGpuMemFromDeviceHandle_def split_beta split: if_splits)
  have perm: "mset (order ?vs) = mset ?ws"
    using iovec_cpy_mset [OF assms(3), of 1024 dest bounce_buf] assms(1) [of ?vs] by simp
  have "m' (dest + dst_off e + of_nat j) = m (bounce_buf + ucast (src_off e) + of_nat j)" if j: "j < unat (lm_len e)" for j
  proof -
    have j32: "unat (src_off e) + j < 2 ^ 32" using j assms(6) by simp
    then have uj: "unat (of_nat j :: u32) = j" by (simp add: unat_of_nat)
    have "unat (src_off e + of_nat j) = unat (src_off e) + j" using j32 uj by (simp add: unat_word_ariths)
    then have "ucast (src_off e + of_nat j) = (of_nat (unat (src_off e) + j) :: u64)" by (metis of_nat_unat)
    also have "\<dots> = ucast (src_off e) + of_nat j" by simp
    finally have src: "ucast (src_off e + of_nat j) = (ucast (src_off e) + of_nat j :: u64)" .
    have "(dest + (dst_off e + of_nat j), bounce_buf + ucast (src_off e + of_nat j)) \<in> set ?ws"
      using assms(5) j by (force simp: iovec_writes_def)
    from run_writes_any_order [OF assms(4) perm this, of m] show ?thesis unfolding src m' add.assoc .
  qed
  then show ?thesis by (simp add: bytes_at_def)
qed

theorem CopyGpuMem_unpacks_witness:
  "bytes_at (the (snd (fst (CopyGpuMemFromDeviceHandle sample_driver rev
     [\<lparr>src_off = 4, lm_len = 2, dst_off = 1\<rparr>, \<lparr>src_off = 0, lm_len = 1, dst_off = 0\<rparr>] 2 16 64 (\<lambda>p. ucast p) ({#}, []))))) 65 2
   = [20, 21]"
proof -
  let ?e = "\<lparr>src_off = 4, lm_len = 2, dst_off = 1\<rparr>"
  let ?mem = "[?e, \<lparr>src_off = 0, lm_len = 1, dst_off = 0\<rparr>]"
  let ?g = "CopyGpuMemFromDeviceHandle sample_driver rev ?mem 2 16 64 (\<lambda>p. ucast p) ({#}, [])"
  have ok: "fst ?g = (kOk, Some (the (snd (fst ?g))))"
    by (simp add: CopyGpuMemFromDeviceHandle_def sample_driver_def cuda_call_success_def CUDA_SUCCESS_def)
  have "bytes_at (the (snd (fst ?g))) (64 + dst_off ?e) (unat (lm_len ?e))
      = bytes_at (\<lambda>p. ucast p) (16 + ucast (src_off ?e)) (unat (lm_len ?e))"
    by (rule CopyGpuMem_unpacks [OF _ ok]) (simp_all add: iovec_writes_def race_free_def upt_rec)
  then show ?thesis by (simp add: bytes_at_def upt_rec)
qed

end
