(* ===== verification/Rxdm_Client.thy ===== *)
theory Rxdm_Client
  imports Gpu_Mem Unix_Socket Net_Ifs
begin

text \<open>
  The clients of the daemon: connecting to its sockets (\<^verbatim>\<open>unix_socket_client.cc\<close>), the calls of
  \<^verbatim>\<open>buffer_mgr_client.cc\<close> that ask for addresses, and the search for the GPU of a NIC (\<^verbatim>\<open>cuda_helpers.cu\<close>).
\<close>

section \<open>Connecting\<close>

text \<open>
  A failing call gives the status of its error number. \<open>us_ops fd\<close> are the calls on a connected socket and \<open>us_errno\<close>
  the status of the last error.
\<close>

record 'w uds_sys =
  us_prefix_flag :: string
  us_prefix_env :: "string option"
  us_socket :: "'w \<Rightarrow> int StatusOr \<times> 'w"
  us_sndtimeo :: "int \<Rightarrow> 'w \<Rightarrow> StatusCode option \<times> 'w"
  us_connect :: "int \<Rightarrow> string \<Rightarrow> 'w \<Rightarrow> StatusCode option \<times> 'w"
  us_close :: "int \<Rightarrow> 'w \<Rightarrow> 'w"
  us_ops :: "int \<Rightarrow> 'w uds_socket"
  us_errno :: "'w \<Rightarrow> StatusCode"
  us_sleep :: "nat \<Rightarrow> 'w \<Rightarrow> 'w"

definition UnixSocketClient_Connect :: "'w uds_sys \<Rightarrow> string \<Rightarrow> 'w \<Rightarrow> int StatusOr \<times> 'w" where
  "UnixSocketClient_Connect sys path w =
     (case UdsSockaddr (us_prefix_flag sys) (us_prefix_env sys) path of
        Inl e \<Rightarrow> (Inl e, w)
      | Inr server_addr \<Rightarrow>
          (case us_socket sys w of
             (Inl e, w) \<Rightarrow> (Inl e, w)
           | (Inr fd, w) \<Rightarrow>
               (case us_sndtimeo sys fd w of
                  (Some e, w) \<Rightarrow> (Inl e, us_close sys fd w)
                | (None, w) \<Rightarrow>
                    (case us_connect sys fd server_addr w of
                       (Some e, w) \<Rightarrow> (Inl e, us_close sys fd w)
                     | (None, w) \<Rightarrow> (Inr fd, w)))))"

definition kNumUdsRetry :: nat where "kNumUdsRetry = 5"
definition kUdsRetryWaitTime :: nat where "kUdsRetryWaitTime = 6"

fun connect_retries :: "'w uds_sys \<Rightarrow> string \<Rightarrow> nat \<Rightarrow> int StatusOr \<Rightarrow> 'w \<Rightarrow> int StatusOr \<times> 'w" where
  "connect_retries sys path 0 last_result w = (last_result, w)"
| "connect_retries sys path (Suc n) last_result w =
     (case UnixSocketClient_Connect sys path w of
        (Inr fd, w) \<Rightarrow> (Inr fd, w)
      | (Inl e, w) \<Rightarrow> connect_retries sys path n (Inl e) (us_sleep sys kUdsRetryWaitTime w))"

definition BufferManagerClient_Create :: "'w uds_sys \<Rightarrow> string \<Rightarrow> 'w \<Rightarrow> int StatusOr \<times> 'w" where
  "BufferManagerClient_Create sys server_ip_addr w =
     connect_retries sys (BufOpUdsPath server_ip_addr) kNumUdsRetry (Inl kUnknown) w"

text \<open>One request on a connection of its own; the client closes its socket when it goes out of scope.\<close>

definition single_request :: "'w uds_sys \<Rightarrow> string \<Rightarrow> u8 list \<Rightarrow> 'w \<Rightarrow> (u8 list option \<times> 'w) option" where
  "single_request sys path text w =
     (case UnixSocketClient_Connect sys path w of
        (Inl _, w) \<Rightarrow> Some (None, w)
      | (Inr fd, w) \<Rightarrow>
          (case UnixSocketClient_MakeRequest (us_ops sys fd) (us_errno sys) \<lparr>msg_text = Some text, msg_fd = None\<rparr>
                  new_UnixSocketConnection w of
             None \<Rightarrow> None
           | Some (Inl _, _, w) \<Rightarrow> Some (None, us_close sys fd w)
           | Some (Inr m, _, w) \<Rightarrow> Some (Some (case msg_text m of None \<Rightarrow> [] | Some t \<Rightarrow> t), us_close sys fd w)))"

text \<open>
  The messages are generated code: \<open>serialize\<close> writes a request with the address of a GPU, \<open>parse\<close> reads a response into
  its status code and address.
\<close>

definition get_nic_ip_by_gpu_pci ::
    "'w uds_sys \<Rightarrow> (string \<Rightarrow> u8 list) \<Rightarrow> (u8 list \<Rightarrow> (int \<times> string) option) \<Rightarrow> string \<Rightarrow> 'w \<Rightarrow> (string \<times> 'w) option" where
  "get_nic_ip_by_gpu_pci sys serialize parse pci w =
     (let gpu_pci_sanitized = AsciiStrToLower pci
      in case single_request sys (NicIpUdsPath gpu_pci_sanitized) (serialize gpu_pci_sanitized) w of
           None \<Rightarrow> None
         | Some (None, w) \<Rightarrow> Some ([], w)
         | Some (Some text, w) \<Rightarrow>
             (case parse text of
                None \<Rightarrow> Some ([], w)
              | Some (code, nic_ip) \<Rightarrow> Some (if code \<noteq> 0 then [] else nic_ip, w)))"

definition get_nic_mapping ::
    "'w uds_sys \<Rightarrow> u8 list \<Rightarrow> (u8 list \<Rightarrow> 'm option) \<Rightarrow> 'w \<Rightarrow> ('m option \<times> 'w) option" where
  "get_nic_mapping sys request parse w =
     (case single_request sys NicMappingUdsPath request w of
        None \<Rightarrow> None
      | Some (None, w) \<Rightarrow> Some (None, w)
      | Some (Some text, w) \<Rightarrow> Some (parse text, w))"

definition rxdm_running :: "'w uds_sys \<Rightarrow> 'w \<Rightarrow> StatusCode \<times> 'w" where
  "rxdm_running sys w =
     (case UnixSocketClient_Connect sys NicMappingUdsPath w of
        (Inl e, w) \<Rightarrow> (e, w)
      | (Inr fd, w) \<Rightarrow> (kOk, us_close sys fd w))"

section \<open>The GPU of a NIC\<close>

fun wait_loop :: "'w uds_sys \<Rightarrow> nat \<Rightarrow> StatusCode \<Rightarrow> 'w \<Rightarrow> StatusCode \<times> 'w" where
  "wait_loop sys 0 status w = (kInternal, w)"
| "wait_loop sys (Suc n) status w =
     (if status = kOk then (status, w) else case rxdm_running sys (us_sleep sys 1 w) of (status, w) \<Rightarrow> wait_loop sys n status w)"

definition wait_for_rxdm :: "'w uds_sys \<Rightarrow> nat \<Rightarrow> 'w \<Rightarrow> StatusCode \<times> 'w" where
  "wait_for_rxdm sys timeout_seconds w = (case rxdm_running sys w of (status, w) \<Rightarrow> wait_loop sys timeout_seconds status w)"

definition kWaitRXDMSeconds :: nat where "kWaitRXDMSeconds = 30"

text \<open>The search from GPU \<open>i\<close> on; \<open>n\<close> GPUs are left.\<close>

fun search_gpus ::
    "'w cuda_driver \<Rightarrow> (string \<Rightarrow> 'w \<Rightarrow> (string \<times> 'w) option) \<Rightarrow> string \<Rightarrow> nat \<Rightarrow> int \<Rightarrow> 'w \<Rightarrow> (string StatusOr \<times> 'w) option" where
  "search_gpus d nic_ip ip 0 i w = Some (Inl kInternal, w)"
| "search_gpus d nic_ip ip (Suc n) i w =
     (case cuDeviceGet d i w of
        ((err, dev), w) \<Rightarrow>
          if cu_call_success err \<noteq> kOk then Some (Inl kInternal, w)
          else case cuDeviceGetPCIBusId d dev w of
                 ((err, pci_addr), w) \<Rightarrow>
                   if cu_call_success err \<noteq> kOk then Some (Inl kInternal, w)
                   else case nic_ip (AsciiStrToLower pci_addr) w of
                          None \<Rightarrow> None
                        | Some (result_ip, w) \<Rightarrow>
                            if result_ip = ip then Some (Inr (AsciiStrToLower pci_addr), w)
                            else search_gpus d nic_ip ip n (i + 1) w)"

definition find_gpu_pci_for_ip ::
    "'w cuda_driver \<Rightarrow> 'w uds_sys \<Rightarrow> (string \<Rightarrow> u8 list) \<Rightarrow> (u8 list \<Rightarrow> (int \<times> string) option) \<Rightarrow> string \<Rightarrow> 'w
      \<Rightarrow> (string StatusOr \<times> 'w) option" where
  "find_gpu_pci_for_ip d sys serialize parse ip w =
     (case cuDeviceGetCount d w of
        ((err, dev_count), w) \<Rightarrow>
          if cu_call_success err \<noteq> kOk then Some (Inl kInternal, w)
          else case wait_for_rxdm sys kWaitRXDMSeconds w of
                 (e, w) \<Rightarrow>
                   if e \<noteq> kOk then Some (Inl e, w)
                   else search_gpus d (get_nic_ip_by_gpu_pci sys serialize parse) ip (nat dev_count) 0 w)"

section \<open>Facts\<close>

text \<open>Connecting gives up after five tries, each of which left no open socket behind.\<close>

lemma connect_retries_error:
  assumes "\<And>w. fst (UnixSocketClient_Connect sys path w) = Inl e"
  shows "fst (connect_retries sys path (Suc n) r w) = Inl e"
proof (induction n arbitrary: r w)
  case 0
  show ?case using assms [of w] by (auto split: prod.split)
next
  case (Suc n)
  obtain w1 where "UnixSocketClient_Connect sys path w = (Inl e, w1)" using assms [of w] by (metis prod.collapse)
  then show ?case using Suc.IH by simp
qed

text \<open>
  The last attempt of \<^verbatim>\<open>wait_for_rxdm\<close> is lost: when the daemon answers only then, the result is an error all the same.
\<close>

lemma wait_loop_last_lost:
  assumes "e \<noteq> kOk" and "rxdm_running sys (us_sleep sys 1 w) = (kOk, w1)"
  shows "wait_loop sys 1 e w = (kInternal, w1)"
  using assms by simp

lemma search_gpus_sound:
  assumes "search_gpus d nic_ip ip n i w = Some (Inr pci, w')"
  shows "\<exists>w1. nic_ip pci w1 = Some (ip, w')"
  using assms
proof (induction n arbitrary: i w)
  case (Suc n)
  obtain e dev w1 where g: "cuDeviceGet d i w = ((e, dev), w1)" by (metis surj_pair)
  obtain e2 bus w2 where b: "cuDeviceGetPCIBusId d dev w1 = ((e2, bus), w2)" by (metis surj_pair)
  show ?case using Suc.prems Suc.IH [of "i + 1"] g b by (auto split: if_splits option.splits prod.splits)
qed simp

text \<open>The GPU found for a NIC is one for which the daemon names that NIC.\<close>

lemma find_gpu_pci_for_ip_sound:
  assumes "find_gpu_pci_for_ip d sys serialize parse ip w = Some (Inr pci, w')"
  shows "\<exists>w1. get_nic_ip_by_gpu_pci sys serialize parse pci w1 = Some (ip, w')"
  using assms search_gpus_sound [of d "get_nic_ip_by_gpu_pci sys serialize parse" ip _ _ _ pci w']
  by (auto simp: find_gpu_pci_for_ip_def split: prod.splits if_splits)

end
