(* ===== verification/Prober_Connection.thy ===== *)
theory Prober_Connection
  imports Tcpxo_Prelude
begin

text \<open>
  The probing connections of \<^verbatim>\<open>tcpxo_prober/src/connection.cc\<close>: the state machines of the side that sends pings and of
  the side that answers them, with the results they record. Sockets, operations, the clock and the GPU memory are parameters.
\<close>

section \<open>Connections\<close>

text \<open>
  \<open>pb_Send\<close> and \<open>pb_Recv\<close> start an operation of a socket on a registered buffer; \<open>pb_TestSend\<close> and \<open>pb_TestRecv\<close> ask once
  whether it has ended (\<open>None\<close>: not yet). \<open>pb_DropOp\<close> and \<open>pb_CloseSocket\<close> are the destructors; \<open>pb_now\<close> reads the clock. The last fields are the GPU memory and the texts of a
  status and of a time.
\<close>

record 'w probe_sys =
  pb_Send :: "int \<Rightarrow> u64 \<Rightarrow> u64 \<Rightarrow> 'w \<Rightarrow> int StatusOr \<times> 'w"
  pb_Recv :: "int \<Rightarrow> u64 \<Rightarrow> u64 \<Rightarrow> 'w \<Rightarrow> int StatusOr \<times> 'w"
  pb_TestSend :: "int \<Rightarrow> 'w \<Rightarrow> StatusCode option \<times> 'w"
  pb_TestRecv :: "int \<Rightarrow> 'w \<Rightarrow> u64 StatusOr option \<times> 'w"
  pb_DropOp :: "int \<Rightarrow> 'w \<Rightarrow> 'w"
  pb_CloseSocket :: "int \<Rightarrow> 'w \<Rightarrow> 'w"
  pb_now :: "'w \<Rightarrow> int \<times> 'w"
  pb_GetMem :: "u64 \<Rightarrow> 'w \<Rightarrow> u64 StatusOr"
  pb_MemCmp :: "u64 \<Rightarrow> u64 \<Rightarrow> u64 \<Rightarrow> 'w \<Rightarrow> bool StatusOr \<times> 'w"
  pb_WriteBuffer :: "u64 \<Rightarrow> u8 list \<Rightarrow> u64 \<Rightarrow> 'w \<Rightarrow> StatusCode \<times> 'w"
  pb_DeregBuf :: "u64 \<Rightarrow> 'w \<Rightarrow> StatusCode \<times> 'w"
  pb_FreeBuffer :: "u64 \<Rightarrow> 'w \<Rightarrow> 'w"
  pb_FormatTime :: "int \<Rightarrow> string"
  pb_ToString :: "StatusCode \<Rightarrow> string"

record Connection =
  local_ip :: string
  peer_ip :: string
  payload_size :: u64
  send_buffer_handle :: u64
  recv_buffer_handle :: u64
  send_sock :: int
  recv_sock :: int
  conn_send_op :: "int option"
  conn_recv_op :: "int option"

definition new_Connection :: "string \<Rightarrow> string \<Rightarrow> u64 \<Rightarrow> u64 \<Rightarrow> u64 \<Rightarrow> int \<Rightarrow> int \<Rightarrow> Connection" where
  "new_Connection lip pip len send_h recv_h ssock rsock =
     \<lparr>local_ip = lip, peer_ip = pip, payload_size = len, send_buffer_handle = send_h, recv_buffer_handle = recv_h,
      send_sock = ssock, recv_sock = rsock, conn_send_op = None, conn_recv_op = None\<rparr>"

definition drop_op :: "'w probe_sys \<Rightarrow> int option \<Rightarrow> 'w \<Rightarrow> 'w" where
  "drop_op sys op w = (case op of None \<Rightarrow> w | Some i \<Rightarrow> pb_DropOp sys i w)"

text \<open>Members are destroyed in the reverse order of their declaration.\<close>

definition delete_Connection :: "'w probe_sys \<Rightarrow> Connection \<Rightarrow> 'w \<Rightarrow> 'w" where
  "delete_Connection sys c w =
     pb_CloseSocket sys (send_sock c) (pb_CloseSocket sys (recv_sock c)
       (drop_op sys (conn_send_op c) (drop_op sys (conn_recv_op c) w)))"

text \<open>A new operation takes the place of the previous one.\<close>

definition CreateSendOp :: "'w probe_sys \<Rightarrow> Connection \<Rightarrow> 'w \<Rightarrow> StatusCode option \<times> Connection \<times> 'w" where
  "CreateSendOp sys c w =
     (case pb_Send sys (send_sock c) (payload_size c) (send_buffer_handle c) w of
        (Inl e, w) \<Rightarrow> (Some e, c, w)
      | (Inr op, w) \<Rightarrow> (None, c\<lparr>conn_send_op := Some op\<rparr>, drop_op sys (conn_send_op c) w))"

definition CreateRecvOp :: "'w probe_sys \<Rightarrow> Connection \<Rightarrow> 'w \<Rightarrow> StatusCode option \<times> Connection \<times> 'w" where
  "CreateRecvOp sys c w =
     (case pb_Recv sys (recv_sock c) (payload_size c) (recv_buffer_handle c) w of
        (Inl e, w) \<Rightarrow> (Some e, c, w)
      | (Inr op, w) \<Rightarrow> (None, c\<lparr>conn_recv_op := Some op\<rparr>, drop_op sys (conn_recv_op c) w))"

text \<open>Testing an operation that was never created dereferences a null pointer (\<open>None\<close>).\<close>

definition TestSend :: "'w probe_sys \<Rightarrow> Connection \<Rightarrow> 'w \<Rightarrow> (bool StatusOr \<times> 'w) option" where
  "TestSend sys c w =
     (case conn_send_op c of
        None \<Rightarrow> None
      | Some op \<Rightarrow>
          (case pb_TestSend sys op w of
             (None, w) \<Rightarrow> Some (Inr False, w)
           | (Some e, w) \<Rightarrow> Some (if e \<noteq> kOk then Inl e else Inr True, w)))"

definition TestRecv :: "'w probe_sys \<Rightarrow> Connection \<Rightarrow> 'w \<Rightarrow> (u64 StatusOr \<times> 'w) option" where
  "TestRecv sys c w =
     (case conn_recv_op c of
        None \<Rightarrow> None
      | Some op \<Rightarrow> (case pb_TestRecv sys op w of (None, w) \<Rightarrow> Some (Inr 0, w) | (Some r, w) \<Rightarrow> Some (r, w)))"

section \<open>The pinging side\<close>

datatype ping_state =
  WAIT_FOR_NEXT_PROBE_ROUND | START_NEW_PROBE_ROUND | START_SEND | WAIT_FOR_SEND_RESPONSE | START_RECV | WAIT_FOR_RECV_RESPONSE

record PayloadVerificationContext =
  pv_send_id :: u64
  pv_recv_id :: u64
  pv_recv_handle :: u64

record PingConnection =
  ping_conn :: Connection
  payload_verification :: "PayloadVerificationContext option"
  ping_st :: ping_state
  op_start :: int
  results :: "string list"

definition new_PingConnection :: "Connection \<Rightarrow> PayloadVerificationContext option \<Rightarrow> PingConnection" where
  "new_PingConnection c pv =
     \<lparr>ping_conn = c, payload_verification = pv, ping_st = WAIT_FOR_NEXT_PROBE_ROUND, op_start = 0, results = []\<rparr>"

text \<open>The destructor of the context gives its buffer back; a failing deregistration is only logged.\<close>

definition delete_PayloadVerificationContext :: "'w probe_sys \<Rightarrow> PayloadVerificationContext \<Rightarrow> 'w \<Rightarrow> 'w" where
  "delete_PayloadVerificationContext sys pv w = pb_FreeBuffer sys (pv_recv_id pv) (snd (pb_DeregBuf sys (pv_recv_handle pv) w))"

definition delete_PingConnection :: "'w probe_sys \<Rightarrow> PingConnection \<Rightarrow> 'w \<Rightarrow> 'w" where
  "delete_PingConnection sys p w =
     delete_Connection sys (ping_conn p)
       (case payload_verification p of None \<Rightarrow> w | Some pv \<Rightarrow> delete_PayloadVerificationContext sys pv w)"

partial_function (option) TestSendBlocking :: "'w probe_sys \<Rightarrow> Connection \<Rightarrow> int \<Rightarrow> 'w \<Rightarrow> (bool StatusOr \<times> 'w) option" where
  "TestSendBlocking sys c deadline w =
     (case pb_now sys w of
        (now, w) \<Rightarrow>
          if now < deadline then
            case TestSend sys c w of
              None \<Rightarrow> None
            | Some (Inl e, w) \<Rightarrow> Some (Inl e, w)
            | Some (Inr send_complete, w) \<Rightarrow> if send_complete then Some (Inr True, w) else TestSendBlocking sys c deadline w
          else Some (Inr False, w))"

text \<open>A failing reset of the receive buffer is only logged.\<close>

definition ResetRecvBuffer :: "'w probe_sys \<Rightarrow> u64 \<Rightarrow> PayloadVerificationContext \<Rightarrow> 'w \<Rightarrow> 'w" where
  "ResetRecvBuffer sys len pv w = snd (pb_WriteBuffer sys (pv_recv_id pv) (replicate (unat len) 0) 0 w)"

definition VerifyAndResetRecvBuffer :: "'w probe_sys \<Rightarrow> u64 \<Rightarrow> PayloadVerificationContext \<Rightarrow> 'w \<Rightarrow> bool StatusOr \<times> 'w" where
  "VerifyAndResetRecvBuffer sys len pv w =
     (case pb_GetMem sys (pv_send_id pv) w of
        Inl e \<Rightarrow> (Inl e, w)
      | Inr expected_buf \<Rightarrow>
          (case pb_GetMem sys (pv_recv_id pv) w of
             Inl e \<Rightarrow> (Inl e, w)
           | Inr received_buf \<Rightarrow>
               (case pb_MemCmp sys received_buf expected_buf len w of
                  (Inl e, w) \<Rightarrow> (Inl e, w)
                | (Inr match, w) \<Rightarrow>
                    if \<not> match then (Inl kInternal, w) else (Inr True, ResetRecvBuffer sys len pv w))))"

partial_function (option) DoRecvBlocking ::
    "'w probe_sys \<Rightarrow> Connection \<Rightarrow> PayloadVerificationContext option \<Rightarrow> int \<Rightarrow> 'w \<Rightarrow> (bool StatusOr \<times> 'w) option" where
  "DoRecvBlocking sys c pv deadline w =
     (case pb_now sys w of
        (now, w) \<Rightarrow>
          if now < deadline then
            case TestRecv sys c w of
              None \<Rightarrow> None
            | Some (Inl e, w) \<Rightarrow> Some (Inl e, w)
            | Some (Inr recv_size, w) \<Rightarrow>
                if recv_size = 0 then DoRecvBlocking sys c pv deadline w
                else (case pv of
                        None \<Rightarrow> Some (Inr True, w)
                      | Some ctx \<Rightarrow> Some (VerifyAndResetRecvBuffer sys (payload_size c) ctx w))
          else Some (Inr False, w))"

fun decimal_nat :: "nat \<Rightarrow> string" where
  "decimal_nat n = (if n < 10 then [char_of (48 + n)] else decimal_nat (n div 10) @ [char_of (48 + n mod 10)])"

declare decimal_nat.simps [simp del]

definition decimal :: "int \<Rightarrow> string" where
  "decimal i = (if i < 0 then CHR ''-'' # decimal_nat (nat (- i)) else decimal_nat (nat i))"

definition result_line :: "'w probe_sys \<Rightarrow> PingConnection \<Rightarrow> string \<Rightarrow> string" where
  "result_line sys p last_field =
     pb_FormatTime sys (op_start p) @ '','' @ local_ip (ping_conn p) @ '','' @ peer_ip (ping_conn p) @ '','' @ last_field"

definition AddResult :: "'w probe_sys \<Rightarrow> PingConnection \<Rightarrow> 'w \<Rightarrow> PingConnection \<times> 'w" where
  "AddResult sys p w =
     (case pb_now sys w of
        (now, w) \<Rightarrow> (p\<lparr>results := results p @ [result_line sys p (decimal (now - op_start p))]\<rparr>, w))"

definition AddFailedResult :: "'w probe_sys \<Rightarrow> string \<Rightarrow> PingConnection \<Rightarrow> PingConnection" where
  "AddFailedResult sys error p =
     p\<lparr>results := results p @ [result_line sys p (filter (\<lambda>ch. ch \<noteq> CHR '','') error)]\<rparr>"

definition GetAndClearResults :: "PingConnection \<Rightarrow> string list \<times> PingConnection" where
  "GetAndClearResults p = (results p, p\<lparr>results := []\<rparr>)"

definition PrepareNewPingRound :: "PingConnection \<Rightarrow> PingConnection" where
  "PrepareNewPingRound p =
     (if ping_st p = WAIT_FOR_NEXT_PROBE_ROUND then p\<lparr>ping_st := START_NEW_PROBE_ROUND\<rparr> else p)"

definition kPingBlockingMs :: int where "kPingBlockingMs = 10 * 1000000"

text \<open>A failure is recorded and ends the round.\<close>

definition fail_round :: "'w probe_sys \<Rightarrow> StatusCode \<Rightarrow> PingConnection \<Rightarrow> PingConnection" where
  "fail_round sys e p = (AddFailedResult sys (pb_ToString sys e) p)\<lparr>ping_st := WAIT_FOR_NEXT_PROBE_ROUND\<rparr>"

text \<open>The cases of \<^verbatim>\<open>SendPingAndRecordResult\<close>, last one first; each falls through to the next.\<close>

definition ping_wait_recv :: "'w probe_sys \<Rightarrow> int \<Rightarrow> PingConnection \<Rightarrow> 'w \<Rightarrow> (PingConnection \<times> 'w) option" where
  "ping_wait_recv sys deadline p w =
     (case DoRecvBlocking sys (ping_conn p) (payload_verification p) deadline w of
        None \<Rightarrow> None
      | Some (Inl e, w) \<Rightarrow> Some (fail_round sys e p, w)
      | Some (Inr False, w) \<Rightarrow> Some (p, w)
      | Some (Inr True, w) \<Rightarrow> (case AddResult sys p w of (p, w) \<Rightarrow> Some (p\<lparr>ping_st := WAIT_FOR_NEXT_PROBE_ROUND\<rparr>, w)))"

definition ping_start_recv :: "'w probe_sys \<Rightarrow> int \<Rightarrow> PingConnection \<Rightarrow> 'w \<Rightarrow> (PingConnection \<times> 'w) option" where
  "ping_start_recv sys deadline p w =
     (case CreateRecvOp sys (ping_conn p) w of
        (Some e, c, w) \<Rightarrow> Some (fail_round sys e (p\<lparr>ping_conn := c\<rparr>), w)
      | (None, c, w) \<Rightarrow> ping_wait_recv sys deadline (p\<lparr>ping_conn := c, ping_st := WAIT_FOR_RECV_RESPONSE\<rparr>) w)"

definition ping_wait_send :: "'w probe_sys \<Rightarrow> int \<Rightarrow> PingConnection \<Rightarrow> 'w \<Rightarrow> (PingConnection \<times> 'w) option" where
  "ping_wait_send sys deadline p w =
     (case TestSendBlocking sys (ping_conn p) deadline w of
        None \<Rightarrow> None
      | Some (Inl e, w) \<Rightarrow> Some (fail_round sys e p, w)
      | Some (Inr False, w) \<Rightarrow> Some (p, w)
      | Some (Inr True, w) \<Rightarrow> ping_start_recv sys deadline (p\<lparr>ping_st := START_RECV\<rparr>) w)"

definition ping_start_send :: "'w probe_sys \<Rightarrow> int \<Rightarrow> PingConnection \<Rightarrow> 'w \<Rightarrow> (PingConnection \<times> 'w) option" where
  "ping_start_send sys deadline p w =
     (case CreateSendOp sys (ping_conn p) w of
        (Some e, c, w) \<Rightarrow> Some (fail_round sys e (p\<lparr>ping_conn := c\<rparr>), w)
      | (None, c, w) \<Rightarrow> ping_wait_send sys deadline (p\<lparr>ping_conn := c, ping_st := WAIT_FOR_SEND_RESPONSE\<rparr>) w)"

definition SendPingAndRecordResult :: "'w probe_sys \<Rightarrow> PingConnection \<Rightarrow> 'w \<Rightarrow> (PingConnection \<times> 'w) option" where
  "SendPingAndRecordResult sys p w =
     (case pb_now sys w of
        (now, w) \<Rightarrow>
          let deadline = now + kPingBlockingMs
          in case ping_st p of
               WAIT_FOR_NEXT_PROBE_ROUND \<Rightarrow> Some (p, w)
             | START_NEW_PROBE_ROUND \<Rightarrow>
                 (case pb_now sys w of (start, w) \<Rightarrow> ping_start_send sys deadline (p\<lparr>ping_st := START_SEND, op_start := start\<rparr>) w)
             | START_SEND \<Rightarrow> ping_start_send sys deadline p w
             | WAIT_FOR_SEND_RESPONSE \<Rightarrow> ping_wait_send sys deadline p w
             | START_RECV \<Rightarrow> ping_start_recv sys deadline p w
             | WAIT_FOR_RECV_RESPONSE \<Rightarrow> ping_wait_recv sys deadline p w)"

section \<open>The answering side\<close>

datatype pong_state = PONG_START_RECV | PONG_WAIT_FOR_RECV_RESPONSE | PONG_START_SEND | PONG_WAIT_FOR_SEND_RESPONSE

record PongConnection =
  pong_conn :: Connection
  pong_st :: pong_state

definition new_PongConnection :: "Connection \<Rightarrow> PongConnection" where
  "new_PongConnection c = \<lparr>pong_conn = c, pong_st = PONG_START_RECV\<rparr>"

definition pong_wait_send :: "'w probe_sys \<Rightarrow> PongConnection \<Rightarrow> 'w \<Rightarrow> (PongConnection \<times> 'w) option" where
  "pong_wait_send sys q w =
     (case TestSend sys (pong_conn q) w of
        None \<Rightarrow> None
      | Some (Inl _, w) \<Rightarrow> Some (q\<lparr>pong_st := PONG_START_RECV\<rparr>, w)
      | Some (Inr sent, w) \<Rightarrow> Some (if \<not> sent then q else q\<lparr>pong_st := PONG_START_RECV\<rparr>, w))"

definition pong_start_send :: "'w probe_sys \<Rightarrow> PongConnection \<Rightarrow> 'w \<Rightarrow> (PongConnection \<times> 'w) option" where
  "pong_start_send sys q w =
     (case CreateSendOp sys (pong_conn q) w of
        (Some e, c, w) \<Rightarrow> Some (q\<lparr>pong_conn := c, pong_st := PONG_START_RECV\<rparr>, w)
      | (None, c, w) \<Rightarrow> pong_wait_send sys (q\<lparr>pong_conn := c, pong_st := PONG_WAIT_FOR_SEND_RESPONSE\<rparr>) w)"

text \<open>The size received is converted to a Boolean: zero is false.\<close>

definition pong_wait_recv :: "'w probe_sys \<Rightarrow> PongConnection \<Rightarrow> 'w \<Rightarrow> (PongConnection \<times> 'w) option" where
  "pong_wait_recv sys q w =
     (case TestRecv sys (pong_conn q) w of
        None \<Rightarrow> None
      | Some (Inl _, w) \<Rightarrow> Some (q\<lparr>pong_st := PONG_START_RECV\<rparr>, w)
      | Some (Inr n, w) \<Rightarrow> if n = 0 then Some (q, w) else pong_start_send sys (q\<lparr>pong_st := PONG_START_SEND\<rparr>) w)"

definition DoPongOp :: "'w probe_sys \<Rightarrow> PongConnection \<Rightarrow> 'w \<Rightarrow> (PongConnection \<times> 'w) option" where
  "DoPongOp sys q w =
     (case pong_st q of
        PONG_START_RECV \<Rightarrow>
          (case CreateRecvOp sys (pong_conn q) w of
             (Some e, c, w) \<Rightarrow> Some (q\<lparr>pong_conn := c\<rparr>, w)
           | (None, c, w) \<Rightarrow> pong_wait_recv sys (q\<lparr>pong_conn := c, pong_st := PONG_WAIT_FOR_RECV_RESPONSE\<rparr>) w)
      | PONG_WAIT_FOR_RECV_RESPONSE \<Rightarrow> pong_wait_recv sys q w
      | PONG_START_SEND \<Rightarrow> pong_start_send sys q w
      | PONG_WAIT_FOR_SEND_RESPONSE \<Rightarrow> pong_wait_send sys q w)"


section \<open>Facts\<close>

text \<open>The operations a connection waits for exist.\<close>

definition ping_ops_exist :: "PingConnection \<Rightarrow> bool" where
  "ping_ops_exist p \<longleftrightarrow>
     (ping_st p = WAIT_FOR_SEND_RESPONSE \<longrightarrow> conn_send_op (ping_conn p) \<noteq> None)
     \<and> (ping_st p = WAIT_FOR_RECV_RESPONSE \<longrightarrow> conn_recv_op (ping_conn p) \<noteq> None)"

definition pong_ops_exist :: "PongConnection \<Rightarrow> bool" where
  "pong_ops_exist q \<longleftrightarrow>
     (pong_st q = PONG_WAIT_FOR_SEND_RESPONSE \<longrightarrow> conn_send_op (pong_conn q) \<noteq> None)
     \<and> (pong_st q = PONG_WAIT_FOR_RECV_RESPONSE \<longrightarrow> conn_recv_op (pong_conn q) \<noteq> None)"

text \<open>Reading the clock takes time, and no test of an operation turns it back.\<close>

definition clock_runs :: "'w probe_sys \<Rightarrow> ('w \<Rightarrow> int) \<Rightarrow> bool" where
  "clock_runs sys clock \<longleftrightarrow>
     (\<forall>w. fst (pb_now sys w) = clock w \<and> clock w < clock (snd (pb_now sys w)))
     \<and> (\<forall>op w. clock w \<le> clock (snd (pb_TestSend sys op w)))
     \<and> (\<forall>op w. clock w \<le> clock (snd (pb_TestRecv sys op w)))"

lemma clock_now:
  assumes "clock_runs sys clock"
  obtains w1 where "pb_now sys w = (clock w, w1)" "clock w < clock w1"
  using assms unfolding clock_runs_def by (metis prod.collapse)

lemma TestSend_returns:
  assumes "clock_runs sys clock" and "conn_send_op c \<noteq> None"
  obtains r w1 where "TestSend sys c w = Some (r, w1)" "clock w \<le> clock w1"
proof -
  obtain op where op: "conn_send_op c = Some op" using assms(2) by blast
  obtain e w1 where t: "pb_TestSend sys op w = (e, w1)" by fastforce
  have "clock w \<le> clock w1" using assms(1) t unfolding clock_runs_def by (metis snd_conv)
  then show thesis using op t that by (cases e) (auto simp: TestSend_def)
qed

lemma TestRecv_returns:
  assumes "clock_runs sys clock" and "conn_recv_op c \<noteq> None"
  obtains r w1 where "TestRecv sys c w = Some (r, w1)" "clock w \<le> clock w1"
proof -
  obtain op where op: "conn_recv_op c = Some op" using assms(2) by blast
  obtain e w1 where t: "pb_TestRecv sys op w = (e, w1)" by fastforce
  have "clock w \<le> clock w1" using assms(1) t unfolding clock_runs_def by (metis snd_conv)
  then show thesis using op t that by (cases e) (auto simp: TestRecv_def)
qed

lemma TestSendBlocking_returns:
  assumes "clock_runs sys clock" and "conn_send_op c \<noteq> None"
  shows "\<exists>r w'. TestSendBlocking sys c deadline w = Some (r, w')"
proof (induction "nat (deadline - clock w)" arbitrary: w rule: less_induct)
  case less
  obtain w1 where now: "pb_now sys w = (clock w, w1)" "clock w < clock w1" by (rule clock_now [OF assms(1)])
  obtain r w2 where test: "TestSend sys c w1 = Some (r, w2)" "clock w1 \<le> clock w2" by (rule TestSend_returns [OF assms])
  show ?case
  proof (cases "clock w < deadline \<and> r = Inr False")
    case True
    then have "nat (deadline - clock w2) < nat (deadline - clock w)" using now test by simp
    from less.hyps [OF this] show ?thesis using True now test by (subst TestSendBlocking.simps) simp
  next
    case False
    then show ?thesis using now test by (subst TestSendBlocking.simps) (auto split: sum.split)
  qed
qed

lemma DoRecvBlocking_returns:
  assumes "clock_runs sys clock" and "conn_recv_op c \<noteq> None"
  shows "\<exists>r w'. DoRecvBlocking sys c pv deadline w = Some (r, w')"
proof (induction "nat (deadline - clock w)" arbitrary: w rule: less_induct)
  case less
  obtain w1 where now: "pb_now sys w = (clock w, w1)" "clock w < clock w1" by (rule clock_now [OF assms(1)])
  obtain r w2 where test: "TestRecv sys c w1 = Some (r, w2)" "clock w1 \<le> clock w2" by (rule TestRecv_returns [OF assms])
  show ?case
  proof (cases "clock w < deadline \<and> r = Inr 0")
    case True
    then have "nat (deadline - clock w2) < nat (deadline - clock w)" using now test by simp
    from less.hyps [OF this] show ?thesis using True now test by (subst DoRecvBlocking.simps) simp
  next
    case False
    then show ?thesis using now test
      by (subst DoRecvBlocking.simps) (auto split: sum.split option.split intro: prod.exhaust [of "VerifyAndResetRecvBuffer _ _ _ _"])
  qed
qed

text \<open>
  What a call does to the round of a connection: it keeps the results, or it adds one and ends the round.
\<close>

definition round_step :: "PingConnection \<Rightarrow> PingConnection \<Rightarrow> bool" where
  "round_step p p' \<longleftrightarrow>
     ping_ops_exist p'
     \<and> (results p' = results p \<and> ping_st p' \<noteq> WAIT_FOR_NEXT_PROBE_ROUND
        \<or> (\<exists>line. results p' = results p @ [line]) \<and> ping_st p' = WAIT_FOR_NEXT_PROBE_ROUND)"

lemma fail_round_step: "results p = results p0 \<Longrightarrow> round_step p0 (fail_round sys e p)"
  by (simp add: round_step_def fail_round_def AddFailedResult_def ping_ops_exist_def)

lemma ping_wait_recv_step:
  assumes "clock_runs sys clock" and "ping_st p = WAIT_FOR_RECV_RESPONSE" and "ping_ops_exist p"
  shows "\<exists>p' w'. ping_wait_recv sys deadline p w = Some (p', w') \<and> round_step p p'"
proof -
  obtain r w1 where d: "DoRecvBlocking sys (ping_conn p) (payload_verification p) deadline w = Some (r, w1)"
    using DoRecvBlocking_returns [OF assms(1)] assms(2,3) by (metis ping_ops_exist_def)
  obtain now w2 where n: "pb_now sys w1 = (now, w2)" by fastforce
  consider e where "r = Inl e" | "r = Inr False" | "r = Inr True" by (metis (full_types) sum.exhaust)
  then show ?thesis
    by cases (use d n assms(2,3) fail_round_step in \<open>auto simp: ping_wait_recv_def AddResult_def round_step_def ping_ops_exist_def\<close>)
qed

lemma ping_start_recv_step:
  assumes "clock_runs sys clock"
  shows "\<exists>p' w'. ping_start_recv sys deadline p w = Some (p', w') \<and> round_step p p'"
proof -
  obtain r w1 where c: "pb_Recv sys (recv_sock (ping_conn p)) (payload_size (ping_conn p)) (recv_buffer_handle (ping_conn p)) w = (r, w1)"
    by fastforce
  show ?thesis
  proof (cases r)
    case (Inl e)
    then show ?thesis using c fail_round_step [OF refl] by (simp add: ping_start_recv_def CreateRecvOp_def)
  next
    case (Inr op)
    let ?p = "p\<lparr>ping_conn := (ping_conn p)\<lparr>conn_recv_op := Some op\<rparr>, ping_st := WAIT_FOR_RECV_RESPONSE\<rparr>"
    have "\<exists>p' w'. ping_wait_recv sys deadline ?p (drop_op sys (conn_recv_op (ping_conn p)) w1) = Some (p', w') \<and> round_step ?p p'"
      by (rule ping_wait_recv_step [OF assms]) (simp_all add: ping_ops_exist_def)
    then show ?thesis using Inr c by (simp add: ping_start_recv_def CreateRecvOp_def round_step_def)
  qed
qed

lemma ping_wait_send_step:
  assumes "clock_runs sys clock" and "ping_st p = WAIT_FOR_SEND_RESPONSE" and "ping_ops_exist p"
  shows "\<exists>p' w'. ping_wait_send sys deadline p w = Some (p', w') \<and> round_step p p'"
proof -
  obtain r w1 where d: "TestSendBlocking sys (ping_conn p) deadline w = Some (r, w1)"
    using TestSendBlocking_returns [OF assms(1)] assms(2,3) by (metis ping_ops_exist_def)
  consider e where "r = Inl e" | "r = Inr False" | "r = Inr True" by (metis (full_types) sum.exhaust)
  then show ?thesis
  proof cases
    case 3
    then show ?thesis using ping_start_recv_step [OF assms(1), of deadline "p\<lparr>ping_st := START_RECV\<rparr>" w1] d
      by (simp add: ping_wait_send_def round_step_def)
  qed (use d assms(2,3) fail_round_step in \<open>auto simp: ping_wait_send_def round_step_def\<close>)
qed

lemma ping_start_send_step:
  assumes "clock_runs sys clock"
  shows "\<exists>p' w'. ping_start_send sys deadline p w = Some (p', w') \<and> round_step p p'"
proof -
  obtain r w1 where c: "pb_Send sys (send_sock (ping_conn p)) (payload_size (ping_conn p)) (send_buffer_handle (ping_conn p)) w = (r, w1)"
    by fastforce
  show ?thesis
  proof (cases r)
    case (Inl e)
    then show ?thesis using c fail_round_step [OF refl] by (simp add: ping_start_send_def CreateSendOp_def)
  next
    case (Inr op)
    let ?p = "p\<lparr>ping_conn := (ping_conn p)\<lparr>conn_send_op := Some op\<rparr>, ping_st := WAIT_FOR_SEND_RESPONSE\<rparr>"
    have "\<exists>p' w'. ping_wait_send sys deadline ?p (drop_op sys (conn_send_op (ping_conn p)) w1) = Some (p', w') \<and> round_step ?p p'"
      by (rule ping_wait_send_step [OF assms]) (simp_all add: ping_ops_exist_def)
    then show ?thesis using Inr c by (simp add: ping_start_send_def CreateSendOp_def round_step_def)
  qed
qed

text \<open>A call returns, and in a round it makes one step of the round; between rounds it does nothing.\<close>

lemma SendPing_step:
  assumes "clock_runs sys clock" and "ping_ops_exist p"
  shows "\<exists>p' w'. SendPingAndRecordResult sys p w = Some (p', w')
    \<and> (if ping_st p = WAIT_FOR_NEXT_PROBE_ROUND then p' = p else round_step p p')"
proof -
  obtain w1 where now: "pb_now sys w = (clock w, w1)" by (rule clock_now [OF assms(1)])
  obtain w2 where now2: "pb_now sys w1 = (clock w1, w2)" by (rule clock_now [OF assms(1)])
  note steps = ping_start_send_step [OF assms(1)] ping_wait_send_step [OF assms(1) _ assms(2)] ping_start_recv_step [OF assms(1)]
    ping_wait_recv_step [OF assms(1) _ assms(2)]
  show ?thesis
  proof (cases "ping_st p")
    case START_NEW_PROBE_ROUND
    then show ?thesis
      using steps(1) [of "clock w + kPingBlockingMs" "p\<lparr>ping_st := START_SEND, op_start := clock w1\<rparr>" w2] now now2
      by (simp add: SendPingAndRecordResult_def round_step_def)
  qed (use now steps in \<open>simp_all add: SendPingAndRecordResult_def\<close>)
qed

section \<open>Properties\<close>

text \<open>
  Calls on a connection in any order. The first number counts the rounds that were started, the second the results that
  were handed out.
\<close>

inductive ping_run :: "'w probe_sys \<Rightarrow> Connection \<Rightarrow> PayloadVerificationContext option \<Rightarrow> PingConnection \<Rightarrow> nat \<Rightarrow> nat \<Rightarrow> bool"
  for sys c pv where
  run_new: "ping_run sys c pv (new_PingConnection c pv) 0 0"
| run_prepare:
    "ping_run sys c pv p n k \<Longrightarrow>
     ping_run sys c pv (PrepareNewPingRound p) (if ping_st p = WAIT_FOR_NEXT_PROBE_ROUND then Suc n else n) k"
| run_ping: "ping_run sys c pv p n k \<Longrightarrow> SendPingAndRecordResult sys p w = Some (p', w') \<Longrightarrow> ping_run sys c pv p' n k"
| run_collect: "ping_run sys c pv p n k \<Longrightarrow> ping_run sys c pv (snd (GetAndClearResults p)) n (k + length (fst (GetAndClearResults p)))"

lemma ping_run_inv:
  assumes "ping_run sys c pv p n k" and "clock_runs sys clock"
  shows "ping_ops_exist p \<and> n = k + length (results p) + (if ping_st p = WAIT_FOR_NEXT_PROBE_ROUND then 0 else 1)"
  using assms(1)
proof induction
  case run_new
  then show ?case by (simp add: new_PingConnection_def ping_ops_exist_def)
next
  case (run_prepare p n k)
  then show ?case by (auto simp: PrepareNewPingRound_def ping_ops_exist_def)
next
  case (run_ping p n k w p' w')
  then show ?case using SendPing_step [OF assms(2), of p w] by (auto simp: round_step_def split: if_splits)
next
  case (run_collect p n k)
  then show ?case by (auto simp: GetAndClearResults_def ping_ops_exist_def)
qed

text \<open>
  C14: every probe round that was started is recorded exactly once: it is in progress, or its result waits to be collected,
  or it was collected, whatever failed in between.
\<close>

theorem ping_rounds_recorded:
  assumes "clock_runs sys clock" and "ping_run sys c pv p started collected"
  shows "started = collected + length (results p) + (if ping_st p = WAIT_FOR_NEXT_PROBE_ROUND then 0 else 1)"
  using ping_run_inv [OF assms(2,1)] by blast


lemma pong_wait_send_step:
  "pong_ops_exist q \<Longrightarrow> pong_st q = PONG_WAIT_FOR_SEND_RESPONSE \<Longrightarrow> \<exists>q' w'. pong_wait_send sys q w = Some (q', w') \<and> pong_ops_exist q'"
  by (auto simp: pong_wait_send_def pong_ops_exist_def TestSend_def split: option.split prod.split)

lemma pong_start_send_step: "\<exists>q' w'. pong_start_send sys q w = Some (q', w') \<and> pong_ops_exist q'"
proof -
  obtain r w1 where c: "pb_Send sys (send_sock (pong_conn q)) (payload_size (pong_conn q)) (send_buffer_handle (pong_conn q)) w = (r, w1)"
    by fastforce
  show ?thesis
  proof (cases r)
    case (Inr op)
    then show ?thesis using c pong_wait_send_step
        [of "q\<lparr>pong_conn := (pong_conn q)\<lparr>conn_send_op := Some op\<rparr>, pong_st := PONG_WAIT_FOR_SEND_RESPONSE\<rparr>" sys "drop_op sys (conn_send_op (pong_conn q)) w1"]
      by (simp add: pong_start_send_def CreateSendOp_def pong_ops_exist_def)
  qed (use c in \<open>simp add: pong_start_send_def CreateSendOp_def pong_ops_exist_def\<close>)
qed

lemma pong_wait_recv_step:
  assumes "conn_recv_op (pong_conn q) \<noteq> None" and "pong_st q = PONG_WAIT_FOR_RECV_RESPONSE"
  shows "\<exists>q' w'. pong_wait_recv sys q w = Some (q', w') \<and> pong_ops_exist q'"
proof -
  obtain r w1 where t: "TestRecv sys (pong_conn q) w = Some (r, w1)"
  proof (cases "pb_TestRecv sys (the (conn_recv_op (pong_conn q))) w")
    case (Pair x w1)
    then show thesis using assms(1) that by (cases x) (auto simp: TestRecv_def)
  qed
  show ?thesis
    using t assms pong_start_send_step [of sys "q\<lparr>pong_st := PONG_START_SEND\<rparr>" w1]
    by (cases r) (auto simp: pong_wait_recv_def pong_ops_exist_def)
qed

text \<open>The answering side never tests an operation that was not created either.\<close>

lemma DoPongOp_returns:
  assumes "pong_ops_exist q"
  shows "\<exists>q' w'. DoPongOp sys q w = Some (q', w') \<and> pong_ops_exist q'"
proof (cases "pong_st q")
  case PONG_START_RECV
  obtain r w1 where c: "pb_Recv sys (recv_sock (pong_conn q)) (payload_size (pong_conn q)) (recv_buffer_handle (pong_conn q)) w = (r, w1)"
    by fastforce
  show ?thesis
  proof (cases r)
    case (Inr op)
    then show ?thesis using c PONG_START_RECV pong_wait_recv_step
        [of "q\<lparr>pong_conn := (pong_conn q)\<lparr>conn_recv_op := Some op\<rparr>, pong_st := PONG_WAIT_FOR_RECV_RESPONSE\<rparr>" sys "drop_op sys (conn_recv_op (pong_conn q)) w1"]
      by (simp add: DoPongOp_def CreateRecvOp_def)
  qed (use c PONG_START_RECV in \<open>simp add: DoPongOp_def CreateRecvOp_def pong_ops_exist_def\<close>)
qed (use assms pong_wait_recv_step [of q] pong_start_send_step pong_wait_send_step [of q] in
    \<open>auto simp: DoPongOp_def pong_ops_exist_def\<close>)


text \<open>A network on which every operation ends at its second test. The world counts the readings of the clock and the tests.\<close>

definition sample_probe :: "(int \<times> nat) probe_sys" where
  "sample_probe =
     \<lparr>pb_Send = (\<lambda>_ _ _ (t, n). (Inr 1, t, 0)), pb_Recv = (\<lambda>_ _ _ (t, n). (Inr 2, t, 0)),
      pb_TestSend = (\<lambda>_ (t, n). (if n = 0 then None else Some kOk, t, Suc n)),
      pb_TestRecv = (\<lambda>_ (t, n). (if n = 0 then None else Some (Inr 8), t, Suc n)),
      pb_DropOp = (\<lambda>_ w. w), pb_CloseSocket = (\<lambda>_ w. w),
      pb_now = (\<lambda>(t, n). (t, t + 1, n)), pb_GetMem = (\<lambda>_ _. Inr 0), pb_MemCmp = (\<lambda>_ _ _ w. (Inr True, w)),
      pb_WriteBuffer = (\<lambda>_ _ _ w. (kOk, w)), pb_DeregBuf = (\<lambda>_ w. (kOk, w)), pb_FreeBuffer = (\<lambda>_ w. w),
      pb_FormatTime = (\<lambda>_. ''T''), pb_ToString = (\<lambda>_. ''E'')\<rparr>"

lemma sample_probe_clock: "clock_runs sample_probe fst"
  by (simp add: clock_runs_def sample_probe_def split_beta)

definition sample_ping :: PingConnection where
  "sample_ping = new_PingConnection (new_Connection ''a'' ''b'' 8 3 4 5 6) None"

lemmas sample_ping_defs = sample_ping_def new_PingConnection_def new_Connection_def PrepareNewPingRound_def

lemma char_of_5: "char_of (53 :: nat) = CHR ''5''"
  by code_simp

lemma sample_ping_run:
  "SendPingAndRecordResult sample_probe (PrepareNewPingRound sample_ping) (100, 0) =
     Some (sample_ping\<lparr>ping_conn := (ping_conn sample_ping)\<lparr>conn_send_op := Some 1, conn_recv_op := Some 2\<rparr>, op_start := 101,
             results := [''T,a,b,5'']\<rparr>, 107, 2)"
  by (simp add: sample_ping_defs sample_probe_def SendPingAndRecordResult_def ping_start_send_def ping_wait_send_def
      ping_start_recv_def ping_wait_recv_def CreateSendOp_def CreateRecvOp_def TestSendBlocking.simps DoRecvBlocking.simps
      TestSend_def TestRecv_def drop_op_def AddResult_def result_line_def decimal_def decimal_nat.simps kPingBlockingMs_def char_of_5)

theorem ping_rounds_recorded_witness:
  "(\<exists>p w. SendPingAndRecordResult sample_probe (PrepareNewPingRound sample_ping) (100, 0) = Some (p, w)
      \<and> Suc 0 = 0 + length (results p) + (if ping_st p = WAIT_FOR_NEXT_PROBE_ROUND then 0 else 1))"
proof -
  let ?c = "new_Connection ''a'' ''b'' 8 3 4 5 6"
  have "ping_run sample_probe ?c None (PrepareNewPingRound sample_ping) (Suc 0) 0"
    using run_prepare [OF run_new, of sample_probe ?c None] by (simp add: sample_ping_defs)
  from run_ping [OF this sample_ping_run] ping_rounds_recorded [OF sample_probe_clock] sample_ping_run
  show ?thesis by blast
qed


end
