(* ===== verification/Prober_Nic.thy ===== *)
theory Prober_Nic
  imports Prober_Connection
begin

text \<open>
  The part of the probing agent that belongs to one NIC (\<^verbatim>\<open>tcpxo_prober/src/nic-manager.cc\<close>): its buffers, and the set-up,
  use and tear-down of its probing connections.
\<close>

section \<open>Manager of a NIC\<close>

text \<open>
  The calls a manager makes; those that belong to one NIC take its address. \<open>ns_SetUpPong\<close> and \<open>ns_TearDown\<close> are the RPCs
  to the agent at an address.
\<close>

record SetUpRequest =
  client_gpu_ip :: string
  client_dxs_port :: int
  server_gpu_ip :: string

record TearDownRequest =
  ping_ip :: string
  pong_ip :: string
  ping_ip_is_servers_nic :: bool

record 'w nic_sys =
  ns_probe :: "'w probe_sys"
  ns_InitCuda :: "'w \<Rightarrow> StatusCode \<times> 'w"
  ns_BufferManagerClient :: "string \<Rightarrow> 'w \<Rightarrow> StatusCode \<times> 'w"
  ns_find_gpu_pci :: "string \<Rightarrow> 'w \<Rightarrow> string StatusOr \<times> 'w"
  ns_validator_Init :: "string \<Rightarrow> 'w \<Rightarrow> StatusCode \<times> 'w"
  ns_helper_Init :: "string \<Rightarrow> 'w \<Rightarrow> StatusCode \<times> 'w"
  ns_DxsClient :: "string \<Rightarrow> string \<Rightarrow> string \<Rightarrow> bool \<Rightarrow> string \<Rightarrow> 'w \<Rightarrow> StatusCode \<times> 'w"
  ns_CreateBuffer :: "string \<Rightarrow> u64 \<Rightarrow> 'w \<Rightarrow> u64 StatusOr \<times> 'w"
  ns_GetFd :: "string \<Rightarrow> u64 \<Rightarrow> 'w \<Rightarrow> int StatusOr"
  ns_RegBuf :: "string \<Rightarrow> int \<Rightarrow> u64 \<Rightarrow> 'w \<Rightarrow> u64 StatusOr \<times> 'w"
  ns_Listen :: "string \<Rightarrow> 'w \<Rightarrow> int StatusOr \<times> 'w"
  ns_ListenReady :: "int \<Rightarrow> 'w \<Rightarrow> StatusCode option \<times> 'w"
  ns_Port :: "int \<Rightarrow> 'w \<Rightarrow> int"
  ns_Connect :: "string \<Rightarrow> string \<Rightarrow> int \<Rightarrow> 'w \<Rightarrow> int StatusOr \<times> 'w"
  ns_SendReady :: "int \<Rightarrow> 'w \<Rightarrow> StatusCode option \<times> 'w"
  ns_Accept :: "int \<Rightarrow> 'w \<Rightarrow> int option StatusOr \<times> 'w"
  ns_RecvReady :: "int \<Rightarrow> 'w \<Rightarrow> StatusCode option \<times> 'w"
  ns_CloseListenSocket :: "int \<Rightarrow> 'w \<Rightarrow> 'w"
  ns_SetUpPong :: "string \<Rightarrow> int \<Rightarrow> SetUpRequest \<Rightarrow> 'w \<Rightarrow> int option \<times> 'w"
  ns_TearDown :: "string \<Rightarrow> TearDownRequest \<Rightarrow> 'w \<Rightarrow> 'w"

record NicOptions =
  nic_ip :: string
  dxs_ip :: string
  dxs_port :: string
  grpc_port :: int
  max_rpc_deadline :: int
  nic_payload_size :: u64
  max_connections_per_nic :: int
  nic_use_llcm :: bool
  nic_llcm_device_directory :: string

text \<open>A connection whose set-up a detached thread has yet to complete.\<close>

record pending_pong =
  pp_remote_ip :: string
  pp_connect_port :: int
  pp_listen_sock :: int
  pp_deadline :: int

record NicManager =
  nm_options :: NicOptions
  send_buffer_id :: u64
  recv_buffer_id :: u64
  nm_send_handle :: u64
  nm_recv_handle :: u64
  ping_connections :: "PingConnection list"
  pong_connections :: "PongConnection list"
  pending_pongs :: "pending_pong list"

definition new_NicManager :: "NicOptions \<Rightarrow> NicManager" where
  "new_NicManager opts =
     \<lparr>nm_options = opts, send_buffer_id = 0, recv_buffer_id = 0, nm_send_handle = 0, nm_recv_handle = 0,
      ping_connections = [], pong_connections = [], pending_pongs = []\<rparr>"

definition GeneratePayload :: "u64 \<Rightarrow> u8 list" where
  "GeneratePayload len = map (\<lambda>i. of_nat (of_char (''Hello, DXS! '' ! (i mod 12)))) [0..<unat len]"

definition kMinBufferSize :: u64 where "kMinBufferSize = push_bit 20 2"

text \<open>A buffer that is registered with the daemon; \<open>write\<close> is what happens to it in between.\<close>

definition register_buffer ::
    "'w nic_sys \<Rightarrow> NicOptions \<Rightarrow> (u64 \<Rightarrow> 'w \<Rightarrow> StatusCode \<times> 'w) \<Rightarrow> 'w \<Rightarrow> (u64 \<times> u64) StatusOr \<times> 'w" where
  "register_buffer sys opts write w =
     (let buffer_size = max (nic_payload_size opts) kMinBufferSize
      in case ns_CreateBuffer sys (nic_ip opts) buffer_size w of
           (Inl e, w) \<Rightarrow> (Inl e, w)
         | (Inr i, w) \<Rightarrow>
             (case write i w of
                (e, w) \<Rightarrow>
                  if e \<noteq> kOk then (Inl e, w)
                  else case ns_GetFd sys (nic_ip opts) i w of
                         Inl e \<Rightarrow> (Inl e, w)
                       | Inr fd \<Rightarrow>
                           (case ns_RegBuf sys (nic_ip opts) fd buffer_size w of
                              (Inl e, w) \<Rightarrow> (Inl e, w)
                            | (Inr h, w) \<Rightarrow> (Inr (i, h), w))))"

definition SetUp_clients :: "'w nic_sys \<Rightarrow> NicOptions \<Rightarrow> 'w \<Rightarrow> StatusCode \<times> 'w" where
  "SetUp_clients sys opts w =
     (case ns_InitCuda sys w of
        (e, w) \<Rightarrow>
          if e \<noteq> kOk then (e, w)
          else case ns_BufferManagerClient sys (nic_ip opts) w of
                 (e, w) \<Rightarrow>
                   if e \<noteq> kOk then (e, w)
                   else case ns_find_gpu_pci sys (nic_ip opts) w of
                          (Inl e, w) \<Rightarrow> (e, w)
                        | (Inr pci, w) \<Rightarrow>
                            (case ns_validator_Init sys pci w of
                               (e, w) \<Rightarrow>
                                 if e \<noteq> kOk then (e, w)
                                 else case ns_helper_Init sys pci w of
                                        (e, w) \<Rightarrow>
                                          if e \<noteq> kOk then (e, w)
                                          else ns_DxsClient sys (nic_ip opts) (dxs_ip opts) (dxs_port opts) (nic_use_llcm opts)
                                                 (nic_llcm_device_directory opts) w))"

definition NicManager_SetUp :: "'w nic_sys \<Rightarrow> NicManager \<Rightarrow> 'w \<Rightarrow> StatusCode \<times> NicManager \<times> 'w" where
  "NicManager_SetUp sys m w =
     (let opts = nm_options m
      in case SetUp_clients sys opts w of
           (e, w) \<Rightarrow>
             if e \<noteq> kOk then (e, m, w)
             else case register_buffer sys opts
                         (\<lambda>i. pb_WriteBuffer (ns_probe sys) i (GeneratePayload (nic_payload_size opts)) 0) w of
                    (Inl e, w) \<Rightarrow> (e, m, w)
                  | (Inr (i, h), w) \<Rightarrow>
                      (case register_buffer sys opts (\<lambda>i w. (kOk, w)) w of
                         (Inl e, w) \<Rightarrow> (e, m\<lparr>send_buffer_id := i, nm_send_handle := h\<rparr>, w)
                       | (Inr (j, g), w) \<Rightarrow>
                           (kOk, m\<lparr>send_buffer_id := i, nm_send_handle := h, recv_buffer_id := j, nm_recv_handle := g\<rparr>, w)))"

definition grpc_address :: "string \<Rightarrow> int \<Rightarrow> string" where
  "grpc_address ip port =
     ''dns:///'' @ (if CHR '':'' \<in> set ip then ''['' @ ip @ '']'' else ip) @ '':'' @ decimal port"

definition SetUpClient :: "'w nic_sys \<Rightarrow> NicOptions \<Rightarrow> string \<Rightarrow> int \<Rightarrow> int \<Rightarrow> 'w \<Rightarrow> int StatusOr \<times> 'w" where
  "SetUpClient sys opts server_ip recv_port deadline w =
     (case ns_SetUpPong sys (grpc_address server_ip (grpc_port opts)) deadline
             \<lparr>client_gpu_ip = nic_ip opts, client_dxs_port = recv_port, server_gpu_ip = server_ip\<rparr> w of
        (None, w) \<Rightarrow> (Inl kInternal, w)
      | (Some port, w) \<Rightarrow> (Inr port, w))"

definition TearDownClient :: "'w nic_sys \<Rightarrow> NicOptions \<Rightarrow> string \<Rightarrow> string \<Rightarrow> bool \<Rightarrow> 'w \<Rightarrow> 'w" where
  "TearDownClient sys opts client_ip server_ip ping_is_server w =
     ns_TearDown sys (grpc_address server_ip (grpc_port opts))
       (if ping_is_server
        then \<lparr>ping_ip = server_ip, pong_ip = client_ip, ping_ip_is_servers_nic = True\<rparr>
        else \<lparr>ping_ip = client_ip, pong_ip = server_ip, ping_ip_is_servers_nic = False\<rparr>) w"

text \<open>The loop that polls a socket until it is ready or the deadline has passed.\<close>

partial_function (option) poll_ready ::
    "('w \<Rightarrow> StatusCode option \<times> 'w) \<Rightarrow> ('w \<Rightarrow> int \<times> 'w) \<Rightarrow> int \<Rightarrow> 'w \<Rightarrow> (StatusCode \<times> 'w) option" where
  "poll_ready ready now deadline w =
     (case ready w of
        (r, w) \<Rightarrow>
          (case r of
             Some e \<Rightarrow> Some (e, w)
           | None \<Rightarrow>
               (case now w of
                  (t, w) \<Rightarrow> if t > deadline then Some (kDeadlineExceeded, w) else poll_ready ready now deadline w)))"

partial_function (option) poll_accept ::
    "('w \<Rightarrow> int option StatusOr \<times> 'w) \<Rightarrow> ('w \<Rightarrow> int \<times> 'w) \<Rightarrow> int \<Rightarrow> 'w \<Rightarrow> (int StatusOr \<times> 'w) option" where
  "poll_accept accept now deadline w =
     (case now w of
        (t, w) \<Rightarrow>
          if t > deadline then Some (Inl kDeadlineExceeded, w)
          else (case accept w of
                  (r, w) \<Rightarrow>
                    (case r of
                       Inl e \<Rightarrow> Some (Inl e, w)
                     | Inr s \<Rightarrow> (case s of None \<Rightarrow> poll_accept accept now deadline w | Some sock \<Rightarrow> Some (Inr sock, w)))))"

definition NicManager_Listen :: "'w nic_sys \<Rightarrow> NicOptions \<Rightarrow> int \<Rightarrow> 'w \<Rightarrow> ((int \<times> int) StatusOr \<times> 'w) option" where
  "NicManager_Listen sys opts deadline w =
     (case ns_Listen sys (nic_ip opts) w of
        (Inl e, w) \<Rightarrow> Some (Inl e, w)
      | (Inr sock, w) \<Rightarrow>
          (case poll_ready (ns_ListenReady sys sock) (pb_now (ns_probe sys)) deadline w of
             None \<Rightarrow> None
           | Some (e, w) \<Rightarrow>
               if e \<noteq> kOk then Some (Inl e, ns_CloseListenSocket sys sock w)
               else if ns_Port sys sock w \<le> 0 then Some (Inl kInternal, ns_CloseListenSocket sys sock w)
               else Some (Inr (ns_Port sys sock w, sock), w)))"

definition NicManager_Connect :: "'w nic_sys \<Rightarrow> NicOptions \<Rightarrow> string \<Rightarrow> int \<Rightarrow> int \<Rightarrow> 'w \<Rightarrow> (int StatusOr \<times> 'w) option" where
  "NicManager_Connect sys opts remote_ip port deadline w =
     (case ns_Connect sys (nic_ip opts) remote_ip port w of
        (Inl e, w) \<Rightarrow> Some (Inl e, w)
      | (Inr sock, w) \<Rightarrow>
          (case poll_ready (ns_SendReady sys sock) (pb_now (ns_probe sys)) deadline w of
             None \<Rightarrow> None
           | Some (e, w) \<Rightarrow>
               Some (if e \<noteq> kOk then (Inl e, pb_CloseSocket (ns_probe sys) sock w) else (Inr sock, w))))"

definition NicManager_Accept :: "'w nic_sys \<Rightarrow> int \<Rightarrow> int \<Rightarrow> 'w \<Rightarrow> (int StatusOr \<times> 'w) option" where
  "NicManager_Accept sys listen_sock deadline w =
     (case poll_accept (ns_Accept sys listen_sock) (pb_now (ns_probe sys)) deadline w of
        None \<Rightarrow> None
      | Some (Inl e, w) \<Rightarrow> Some (Inl e, w)
      | Some (Inr sock, w) \<Rightarrow>
          (case poll_ready (ns_RecvReady sys sock) (pb_now (ns_probe sys)) deadline w of
             None \<Rightarrow> None
           | Some (e, w) \<Rightarrow>
               Some (if e \<noteq> kOk then (Inl e, pb_CloseSocket (ns_probe sys) sock w) else (Inr sock, w))))"


definition CreatePayloadVerificationContext ::
    "'w nic_sys \<Rightarrow> NicManager \<Rightarrow> 'w \<Rightarrow> PayloadVerificationContext StatusOr \<times> 'w" where
  "CreatePayloadVerificationContext sys m w =
     (let ip = nic_ip (nm_options m);
          buffer_size = max (nic_payload_size (nm_options m)) kMinBufferSize
      in case ns_CreateBuffer sys ip buffer_size w of
           (Inl e, w) \<Rightarrow> (Inl e, w)
         | (Inr recv_id, w) \<Rightarrow>
             (case ns_GetFd sys ip recv_id w of
                Inl e \<Rightarrow> (Inl e, pb_FreeBuffer (ns_probe sys) recv_id w)
              | Inr fd \<Rightarrow>
                  (case ns_RegBuf sys ip fd buffer_size w of
                     (Inl e, w) \<Rightarrow> (Inl e, pb_FreeBuffer (ns_probe sys) recv_id w)
                   | (Inr h, w) \<Rightarrow> (Inr \<lparr>pv_send_id = send_buffer_id m, pv_recv_id = recv_id, pv_recv_handle = h\<rparr>, w))))"

datatype ConnectionResult =
  RESULT_UNSPECIFIED | RESULT_SUCCESS | RESULT_FAILURE | RESULT_FAILURE_ALLOCATING_GPU_MEMORY | RESULT_FAILURE_CONNECTION_LIMIT

text \<open>The sockets of a new connection: listen, ask the remote agent to connect and answer with its port, connect, accept.\<close>

definition open_ping_sockets :: "'w nic_sys \<Rightarrow> NicOptions \<Rightarrow> string \<Rightarrow> int \<Rightarrow> 'w \<Rightarrow> ((int \<times> int) option \<times> 'w) option" where
  "open_ping_sockets sys opts remote_ip deadline w =
     (case NicManager_Listen sys opts deadline w of
        None \<Rightarrow> None
      | Some (Inl _, w) \<Rightarrow> Some (None, w)
      | Some (Inr (recv_port, listen_sock), w) \<Rightarrow>
          (case SetUpClient sys opts remote_ip recv_port deadline w of
             (Inl _, w) \<Rightarrow> Some (None, ns_CloseListenSocket sys listen_sock w)
           | (Inr connect_port, w) \<Rightarrow>
               (case NicManager_Connect sys opts remote_ip connect_port deadline w of
                  None \<Rightarrow> None
                | Some (Inl _, w) \<Rightarrow> Some (None, ns_CloseListenSocket sys listen_sock w)
                | Some (Inr ssock, w) \<Rightarrow>
                    (case NicManager_Accept sys listen_sock deadline w of
                       None \<Rightarrow> None
                     | Some (Inl _, w) \<Rightarrow>
                         Some (None, ns_CloseListenSocket sys listen_sock (pb_CloseSocket (ns_probe sys) ssock w))
                     | Some (Inr rsock, w) \<Rightarrow> Some (Some (ssock, rsock), ns_CloseListenSocket sys listen_sock w)))))"

definition limit_reached :: "NicOptions \<Rightarrow> 'a list \<Rightarrow> bool" where
  "limit_reached opts conns \<longleftrightarrow> max_connections_per_nic opts > 0 \<and> int (length conns) \<ge> max_connections_per_nic opts"

definition connect_ping ::
    "'w nic_sys \<Rightarrow> string \<Rightarrow> int \<Rightarrow> PayloadVerificationContext option \<Rightarrow> NicManager \<Rightarrow> 'w \<Rightarrow> (ConnectionResult \<times> NicManager \<times> 'w) option" where
  "connect_ping sys remote_ip rpc_deadline pv m w =
     (let opts = nm_options m
      in case pb_now (ns_probe sys) w of
           (now, w) \<Rightarrow>
             (case open_ping_sockets sys opts remote_ip (min rpc_deadline (now + max_rpc_deadline opts)) w of
                None \<Rightarrow> None
              | Some (None, w) \<Rightarrow>
                  Some (RESULT_FAILURE, m,
                        case pv of None \<Rightarrow> w | Some ctx \<Rightarrow> delete_PayloadVerificationContext (ns_probe sys) ctx w)
              | Some (Some (ssock, rsock), w) \<Rightarrow>
                  (let c = new_Connection (nic_ip opts) remote_ip (nic_payload_size opts) (nm_send_handle m)
                             (case pv of None \<Rightarrow> nm_recv_handle m | Some ctx \<Rightarrow> pv_recv_handle ctx) ssock rsock
                   in Some (RESULT_SUCCESS, m\<lparr>ping_connections := ping_connections m @ [new_PingConnection c pv]\<rparr>, w))))"

definition CreatePingConnection ::
    "'w nic_sys \<Rightarrow> string \<Rightarrow> bool \<Rightarrow> int \<Rightarrow> NicManager \<Rightarrow> 'w \<Rightarrow> (ConnectionResult \<times> NicManager \<times> 'w) option" where
  "CreatePingConnection sys remote_ip verify_payload rpc_deadline m w =
     (if limit_reached (nm_options m) (ping_connections m) then Some (RESULT_FAILURE_CONNECTION_LIMIT, m, w)
      else if verify_payload then
        (case CreatePayloadVerificationContext sys m w of
           (Inl _, w) \<Rightarrow> Some (RESULT_FAILURE, m, w)
         | (Inr ctx, w) \<Rightarrow> connect_ping sys remote_ip rpc_deadline (Some ctx) m w)
      else connect_ping sys remote_ip rpc_deadline None m w)"

definition CreatingPongConnection ::
    "'w nic_sys \<Rightarrow> SetUpRequest \<Rightarrow> int \<Rightarrow> NicManager \<Rightarrow> 'w \<Rightarrow> (int StatusOr \<times> NicManager \<times> 'w) option" where
  "CreatingPongConnection sys request deadline m w =
     (case NicManager_Listen sys (nm_options m) deadline w of
        None \<Rightarrow> None
      | Some (Inl e, w) \<Rightarrow> Some (Inl e, m, w)
      | Some (Inr (recv_port, listen_sock), w) \<Rightarrow>
          Some (Inr recv_port,
                m\<lparr>pending_pongs := pending_pongs m @
                   [\<lparr>pp_remote_ip = client_gpu_ip request, pp_connect_port = client_dxs_port request,
                     pp_listen_sock = listen_sock, pp_deadline = deadline\<rparr>]\<rparr>, w))"

text \<open>The detached thread of a pending set-up.\<close>

definition CompletePongConnectionSetup ::
    "'w nic_sys \<Rightarrow> pending_pong \<Rightarrow> NicManager \<Rightarrow> 'w \<Rightarrow> (StatusCode \<times> NicManager \<times> 'w) option" where
  "CompletePongConnectionSetup sys pp m w =
     (let opts = nm_options m;
          close = ns_CloseListenSocket sys (pp_listen_sock pp)
      in if limit_reached opts (pong_connections m) then Some (kResourceExhausted, m, close w)
         else case NicManager_Accept sys (pp_listen_sock pp) (pp_deadline pp) w of
                None \<Rightarrow> None
              | Some (Inl e, w) \<Rightarrow> Some (e, m, close w)
              | Some (Inr rsock, w) \<Rightarrow>
                  (case NicManager_Connect sys opts (pp_remote_ip pp) (pp_connect_port pp) (pp_deadline pp) w of
                     None \<Rightarrow> None
                   | Some (Inl e, w) \<Rightarrow> Some (e, m, close (pb_CloseSocket (ns_probe sys) rsock w))
                   | Some (Inr ssock, w) \<Rightarrow>
                       (let c = new_Connection (nic_ip opts) (pp_remote_ip pp) (nic_payload_size opts) (nm_send_handle m)
                                  (nm_recv_handle m) ssock rsock
                        in Some (kOk, m\<lparr>pong_connections := pong_connections m @ [new_PongConnection c]\<rparr>, close w))))"

definition complete_pending :: "'w nic_sys \<Rightarrow> nat \<Rightarrow> NicManager \<Rightarrow> 'w \<Rightarrow> (NicManager \<times> 'w) option" where
  "complete_pending sys i m w =
     (if i < length (pending_pongs m)
      then map_option (\<lambda>(e, m, w). (m, w))
             (CompletePongConnectionSetup sys (pending_pongs m ! i)
               (m\<lparr>pending_pongs := take i (pending_pongs m) @ drop (Suc i) (pending_pongs m)\<rparr>) w)
      else Some (m, w))"

definition NicManager_TearDownAllPingConnections :: "'w nic_sys \<Rightarrow> NicManager \<Rightarrow> 'w \<Rightarrow> NicManager \<times> 'w" where
  "NicManager_TearDownAllPingConnections sys m w =
     (let w = fold (\<lambda>p. TearDownClient sys (nm_options m) (local_ip (ping_conn p)) (peer_ip (ping_conn p)) False) (ping_connections m) w
      in (m\<lparr>ping_connections := []\<rparr>, fold (delete_PingConnection (ns_probe sys)) (ping_connections m) w))"

definition NicManager_TearDownAllPongConnections :: "'w nic_sys \<Rightarrow> NicManager \<Rightarrow> 'w \<Rightarrow> NicManager \<times> 'w" where
  "NicManager_TearDownAllPongConnections sys m w =
     (let w = fold (\<lambda>q. TearDownClient sys (nm_options m) (local_ip (pong_conn q)) (peer_ip (pong_conn q)) True) (pong_connections m) w
      in (m\<lparr>pong_connections := []\<rparr>, fold (\<lambda>q. delete_Connection (ns_probe sys) (pong_conn q)) (pong_connections m) w))"

fun remove_first :: "('a \<Rightarrow> bool) \<Rightarrow> 'a list \<Rightarrow> 'a list" where
  "remove_first P [] = []"
| "remove_first P (x # xs) = (if P x then xs else x # remove_first P xs)"

definition RemoveConnection :: "'w nic_sys \<Rightarrow> TearDownRequest \<Rightarrow> NicManager \<Rightarrow> 'w \<Rightarrow> StatusCode \<times> NicManager \<times> 'w" where
  "RemoveConnection sys request m w =
     (if ping_ip_is_servers_nic request then
        (let P = (\<lambda>p. peer_ip (ping_conn p) = pong_ip request)
         in case List.find P (ping_connections m) of
              None \<Rightarrow> (kNotFound, m, w)
            | Some p \<Rightarrow> (kOk, m\<lparr>ping_connections := remove_first P (ping_connections m)\<rparr>, delete_PingConnection (ns_probe sys) p w))
      else
        (let P = (\<lambda>q. peer_ip (pong_conn q) = ping_ip request)
         in case List.find P (pong_connections m) of
              None \<Rightarrow> (kNotFound, m, w)
            | Some q \<Rightarrow>
                (kOk, m\<lparr>pong_connections := remove_first P (pong_connections m)\<rparr>, delete_Connection (ns_probe sys) (pong_conn q) w)))"

fun ping_each :: "'w probe_sys \<Rightarrow> PingConnection list \<Rightarrow> 'w \<Rightarrow> (PingConnection list \<times> 'w) option" where
  "ping_each sys [] w = Some ([], w)"
| "ping_each sys (p # ps) w =
     (case SendPingAndRecordResult sys p w of
        None \<Rightarrow> None
      | Some (p, w) \<Rightarrow> map_option (\<lambda>(ps, w). (p # ps, w)) (ping_each sys ps w))"

definition NicManager_DoPingOps :: "'w nic_sys \<Rightarrow> NicManager \<Rightarrow> 'w \<Rightarrow> (NicManager \<times> 'w) option" where
  "NicManager_DoPingOps sys m w =
     map_option (\<lambda>(ps, w). (m\<lparr>ping_connections := ps\<rparr>, w)) (ping_each (ns_probe sys) (ping_connections m) w)"

definition NicManager_PrepareNewPingRound :: "NicManager \<Rightarrow> NicManager" where
  "NicManager_PrepareNewPingRound m = m\<lparr>ping_connections := map PrepareNewPingRound (ping_connections m)\<rparr>"

fun pong_each :: "'w probe_sys \<Rightarrow> PongConnection list \<Rightarrow> 'w \<Rightarrow> (PongConnection list \<times> 'w) option" where
  "pong_each sys [] w = Some ([], w)"
| "pong_each sys (q # qs) w =
     (case DoPongOp sys q w of
        None \<Rightarrow> None
      | Some (q, w) \<Rightarrow> map_option (\<lambda>(qs, w). (q # qs, w)) (pong_each sys qs w))"

definition NicManager_DoPongOps :: "'w nic_sys \<Rightarrow> NicManager \<Rightarrow> 'w \<Rightarrow> (NicManager \<times> 'w) option" where
  "NicManager_DoPongOps sys m w =
     map_option (\<lambda>(qs, w). (m\<lparr>pong_connections := qs\<rparr>, w)) (pong_each (ns_probe sys) (pong_connections m) w)"

definition NicManager_GetAndClearResults :: "NicManager \<Rightarrow> string list \<times> NicManager" where
  "NicManager_GetAndClearResults m =
     (concat (map (fst \<circ> GetAndClearResults) (ping_connections m)),
      m\<lparr>ping_connections := map (snd \<circ> GetAndClearResults) (ping_connections m)\<rparr>)"

definition NicManager_Cleanup :: "'w nic_sys \<Rightarrow> NicManager \<Rightarrow> 'w \<Rightarrow> StatusCode \<times> NicManager \<times> 'w" where
  "NicManager_Cleanup sys m w =
     (case NicManager_TearDownAllPingConnections sys m w of
        (m, w) \<Rightarrow>
          (case NicManager_TearDownAllPongConnections sys m w of
             (m, w) \<Rightarrow>
               (case pb_DeregBuf (ns_probe sys) (nm_send_handle m) w of
                  (e, w) \<Rightarrow>
                    if e \<noteq> kOk then (e, m, w)
                    else case pb_DeregBuf (ns_probe sys) (nm_recv_handle m) w of
                           (e, w) \<Rightarrow>
                             if e \<noteq> kOk then (e, m, w)
                             else (kOk, m, pb_FreeBuffer (ns_probe sys) (recv_buffer_id m)
                                             (pb_FreeBuffer (ns_probe sys) (send_buffer_id m) w)))))"

end
