(* ===== verification/Prober_Agent.thy ===== *)
theory Prober_Agent
  imports Prober_Nic Pci_Utils "HOL-Library.Multiset"
begin

text \<open>
  The probing agent (\<^verbatim>\<open>tcpxo_prober/src/agent.cc\<close>): its RPC services, the loops of its two threads, its results file and
  its options (\<^verbatim>\<open>main.cc\<close>).
\<close>

section \<open>Agent\<close>

text \<open>Times and intervals are in nanoseconds. The probe interval is \<open>1 / qps\<close> seconds, rounded
  down to nanoseconds where it is used; with 0 it is infinite.\<close>

datatype probe_rate = OncePer int | Never

record AgentOptions =
  gpu_nic_ips :: "string list"
  server_port :: int
  ao_max_rpc_deadline :: int
  ao_payload_size :: u64
  max_probe_qps :: int
  ao_max_connections_per_nic :: int
  results_file_prefix :: string
  results_directory :: string
  results_file_rotation_interval :: int
  results_file_output_interval :: int
  dxs_ips :: "string list"
  dxs_ports :: "string list"
  ao_use_llcm :: bool
  ao_llcm_device_directory :: string

record Agent =
  ag_options :: AgentOptions
  connection_managers :: "NicManager list"
  probe_interval :: probe_rate
  cancel_threads_flag :: bool
  results_file_name :: string
  results_file_counter :: int

record 'w agent_sys =
  as_nic :: "'w nic_sys"
  as_append :: "string \<Rightarrow> string \<Rightarrow> 'w \<Rightarrow> 'w"
  as_create_directories :: "string \<Rightarrow> 'w \<Rightarrow> bool \<times> 'w"

definition new_Agent :: "AgentOptions \<Rightarrow> Agent" where
  "new_Agent opts =
     \<lparr>ag_options = opts, connection_managers = [], probe_interval = OncePer 1, cancel_threads_flag = False,
      results_file_name = [], results_file_counter = 0\<rparr>"

definition SetProbeInterval :: "int \<Rightarrow> Agent \<Rightarrow> Agent" where
  "SetProbeInterval qps a =
     (let limit = max_probe_qps (ag_options a);
          qps = (if limit > 0 \<and> qps > limit then limit else qps)
      in a\<lparr>probe_interval := (if qps = 0 then Never else OncePer qps)\<rparr>)"

text \<open>The position of the first manager with the address.\<close>

fun manager_at :: "string \<Rightarrow> NicManager list \<Rightarrow> nat option" where
  "manager_at ip [] = None"
| "manager_at ip (m # ms) = (if nic_ip (nm_options m) = ip then Some 0 else map_option Suc (manager_at ip ms))"

definition GetConnectionManager :: "string \<Rightarrow> Agent \<Rightarrow> nat StatusOr" where
  "GetConnectionManager ip a = (case manager_at ip (connection_managers a) of None \<Rightarrow> Inl kNotFound | Some i \<Rightarrow> Inr i)"

definition set_manager :: "nat \<Rightarrow> NicManager \<Rightarrow> Agent \<Rightarrow> Agent" where
  "set_manager i m a = a\<lparr>connection_managers := (connection_managers a)[i := m]\<rparr>"

record Target =
  local_nic_ip_address :: string
  peer_nic_ip_address :: string

definition SetUpConnection ::
    "'w agent_sys \<Rightarrow> Target \<Rightarrow> bool \<Rightarrow> int \<Rightarrow> Agent \<Rightarrow> 'w \<Rightarrow> (ConnectionResult \<times> Agent \<times> 'w) option" where
  "SetUpConnection sys target verify_payload deadline a w =
     (case GetConnectionManager (local_nic_ip_address target) a of
        Inl _ \<Rightarrow> Some (RESULT_FAILURE, a, w)
      | Inr i \<Rightarrow>
          map_option (\<lambda>(r, m, w). (r, set_manager i m a, w))
            (CreatePingConnection (as_nic sys) (peer_nic_ip_address target) verify_payload deadline
              (connection_managers a ! i) w))"

text \<open>The tasks of the thread pool run in the order \<open>order\<close>, each storing its result at its own place.\<close>

fun run_setups ::
    "'w agent_sys \<Rightarrow> Target list \<Rightarrow> bool \<Rightarrow> int \<Rightarrow> nat list \<Rightarrow> ConnectionResult list \<Rightarrow> Agent \<Rightarrow> 'w
      \<Rightarrow> (ConnectionResult list \<times> Agent \<times> 'w) option" where
  "run_setups sys targets verify_payload deadline [] rs a w = Some (rs, a, w)"
| "run_setups sys targets verify_payload deadline (i # order) rs a w =
     (case SetUpConnection sys (targets ! i) verify_payload deadline a w of
        None \<Rightarrow> None
      | Some (r, a, w) \<Rightarrow> run_setups sys targets verify_payload deadline order (rs[i := r]) a w)"

datatype rpc_code = RPC_OK | RPC_CANCELLED | RPC_INTERNAL

definition SetUpConnections ::
    "'w agent_sys \<Rightarrow> Target list \<Rightarrow> bool \<Rightarrow> int \<Rightarrow> nat list \<Rightarrow> Agent \<Rightarrow> 'w
      \<Rightarrow> ((rpc_code \<times> ConnectionResult list) \<times> Agent \<times> 'w) option" where
  "SetUpConnections sys targets verify_payload deadline order a w =
     (case run_setups sys targets verify_payload deadline order (replicate (length targets) RESULT_UNSPECIFIED) a w of
        None \<Rightarrow> None
      | Some (rs, a, w) \<Rightarrow>
          Some ((if list_all (\<lambda>r. r = RESULT_SUCCESS) rs then RPC_OK else RPC_INTERNAL, rs), a, w))"

fun tear_down_pings :: "'w nic_sys \<Rightarrow> NicManager list \<Rightarrow> 'w \<Rightarrow> NicManager list \<times> 'w" where
  "tear_down_pings sys [] w = ([], w)"
| "tear_down_pings sys (m # ms) w =
     (case NicManager_TearDownAllPingConnections sys m w of
        (m, w) \<Rightarrow> (case tear_down_pings sys ms w of (ms, w) \<Rightarrow> (m # ms, w)))"

definition Agent_TearDownAllPingConnections :: "'w agent_sys \<Rightarrow> Agent \<Rightarrow> 'w \<Rightarrow> Agent \<times> 'w" where
  "Agent_TearDownAllPingConnections sys a w =
     (case tear_down_pings (as_nic sys) (connection_managers a) w of (ms, w) \<Rightarrow> (a\<lparr>connection_managers := ms\<rparr>, w))"

definition UpdateResultsFileName :: "'w agent_sys \<Rightarrow> Agent \<Rightarrow> 'w \<Rightarrow> Agent \<times> 'w" where
  "UpdateResultsFileName sys a w =
     (case pb_now (ns_probe (as_nic sys)) w of
        (now, w) \<Rightarrow>
          (a\<lparr>results_file_name := results_directory (ag_options a) @ ''/'' @ results_file_prefix (ag_options a) @ ''_'' @
               decimal (results_file_counter a) @ ''_'' @ pb_FormatTime (ns_probe (as_nic sys)) now @ ''.csv'',
             results_file_counter := results_file_counter a + 1\<rparr>, w))"

text \<open>The file is opened for appending in any case, which creates it; the results are written as one text.\<close>

definition ReportResults :: "'w agent_sys \<Rightarrow> Agent \<Rightarrow> 'w \<Rightarrow> Agent \<times> 'w" where
  "ReportResults sys a w =
     (let collected = concat (map (fst \<circ> NicManager_GetAndClearResults) (connection_managers a));
          text = concat (map (\<lambda>r. r @ [CHR 0x0A]) collected)
      in (a\<lparr>connection_managers := map (snd \<circ> NicManager_GetAndClearResults) (connection_managers a)\<rparr>,
          as_append sys (results_file_name a) text w))"

definition kDefaultDxsAddr :: string where "kDefaultDxsAddr = ''169.254.169.254''"
definition kDefaultDxsPort :: string where "kDefaultDxsPort = ''55555''"

definition nic_options :: "AgentOptions \<Rightarrow> nat \<Rightarrow> NicOptions" where
  "nic_options opts i =
     \<lparr>nic_ip = gpu_nic_ips opts ! i, dxs_ip = (if dxs_ips opts = [] then kDefaultDxsAddr else dxs_ips opts ! i),
      dxs_port = (if dxs_ports opts = [] then kDefaultDxsPort else dxs_ports opts ! i), grpc_port = server_port opts,
      max_rpc_deadline = ao_max_rpc_deadline opts, nic_payload_size = ao_payload_size opts,
      max_connections_per_nic = ao_max_connections_per_nic opts, nic_use_llcm = ao_use_llcm opts,
      nic_llcm_device_directory = ao_llcm_device_directory opts\<rparr>"

fun set_up_managers :: "'w nic_sys \<Rightarrow> NicOptions list \<Rightarrow> NicManager list \<Rightarrow> 'w \<Rightarrow> StatusCode \<times> NicManager list \<times> 'w" where
  "set_up_managers sys [] ms w = (kOk, ms, w)"
| "set_up_managers sys (opts # rest) ms w =
     (case NicManager_SetUp sys (new_NicManager opts) w of
        (e, m, w) \<Rightarrow> if e \<noteq> kOk then (e, ms @ [m], w) else set_up_managers sys rest (ms @ [m]) w)"

definition Agent_Run :: "'w agent_sys \<Rightarrow> Agent \<Rightarrow> 'w \<Rightarrow> StatusCode \<times> Agent \<times> 'w" where
  "Agent_Run sys a w =
     (let opts = ag_options a; n = length (gpu_nic_ips opts)
      in if (dxs_ips opts \<noteq> [] \<or> dxs_ports opts \<noteq> []) \<and> (length (dxs_ips opts) \<noteq> n \<or> length (dxs_ports opts) \<noteq> n)
         then (kInvalidArgument, a, w)
         else case set_up_managers (as_nic sys) (map (nic_options opts) [0..<n]) (connection_managers a) w of
                (e, ms, w) \<Rightarrow>
                  let a = a\<lparr>connection_managers := ms\<rparr>
                  in if e \<noteq> kOk then (e, a, w)
                     else case as_create_directories sys (results_directory opts) w of
                            (ok, w) \<Rightarrow> (if ok then kOk else kInternal, a, w))"

fun ping_managers :: "'w nic_sys \<Rightarrow> NicManager list \<Rightarrow> 'w \<Rightarrow> (NicManager list \<times> 'w) option" where
  "ping_managers sys [] w = Some ([], w)"
| "ping_managers sys (m # ms) w =
     (case NicManager_DoPingOps sys m w of
        None \<Rightarrow> None
      | Some (m, w) \<Rightarrow> map_option (\<lambda>(ms, w). (m # ms, w)) (ping_managers sys ms w))"

definition Agent_DoPingOps :: "'w agent_sys \<Rightarrow> Agent \<Rightarrow> 'w \<Rightarrow> (Agent \<times> 'w) option" where
  "Agent_DoPingOps sys a w =
     map_option (\<lambda>(ms, w). (a\<lparr>connection_managers := ms\<rparr>, w)) (ping_managers (as_nic sys) (connection_managers a) w)"

definition Agent_PrepareNewPingRound :: "Agent \<Rightarrow> Agent" where
  "Agent_PrepareNewPingRound a = a\<lparr>connection_managers := map NicManager_PrepareNewPingRound (connection_managers a)\<rparr>"

text \<open>One round of the loop of the ping thread; the first component has the times of the next round, report and rotation.\<close>

definition later_than :: "'w agent_sys \<Rightarrow> int option \<Rightarrow> 'w \<Rightarrow> bool \<times> 'w" where
  "later_than sys t w = (case pb_now (ns_probe (as_nic sys)) w of (now, w) \<Rightarrow> (case t of None \<Rightarrow> False | Some t \<Rightarrow> now > t, w))"

definition after :: "'w agent_sys \<Rightarrow> int \<Rightarrow> 'w \<Rightarrow> int \<times> 'w" where
  "after sys d w = (case pb_now (ns_probe (as_nic sys)) w of (now, w) \<Rightarrow> (now + d, w))"

definition next_round_time :: "'w agent_sys \<Rightarrow> probe_rate \<Rightarrow> 'w \<Rightarrow> int option \<times> 'w" where
  "next_round_time sys rate w =
     (case pb_now (ns_probe (as_nic sys)) w of
        (now, w) \<Rightarrow> (case rate of Never \<Rightarrow> None | OncePer qps \<Rightarrow> Some (now + 1000000000 div qps), w))"

definition ping_thread_round ::
    "'w agent_sys \<Rightarrow> (int option \<times> int \<times> int) \<times> Agent \<times> 'w \<Rightarrow> ((int option \<times> int \<times> int) \<times> Agent \<times> 'w) option" where
  "ping_thread_round sys = (\<lambda>((next_round, next_report, next_rotation), a, w).
     case Agent_DoPingOps sys a w of
       None \<Rightarrow> None
     | Some (a, w) \<Rightarrow>
         (let (due, w) = later_than sys next_round w;
              (next_round, a, w) =
                (if due then case next_round_time sys (probe_interval a) w of (t, w) \<Rightarrow> (t, Agent_PrepareNewPingRound a, w)
                 else (next_round, a, w));
              (due, w) = later_than sys (Some next_report) w;
              (next_report, a, w) =
                (if due then case after sys (results_file_output_interval (ag_options a)) w of
                               (t, w) \<Rightarrow> (case ReportResults sys a w of (a, w) \<Rightarrow> (t, a, w))
                 else (next_report, a, w));
              rotation = results_file_rotation_interval (ag_options a);
              (due, w) = (if rotation \<noteq> 0 then later_than sys (Some next_rotation) w else (False, w));
              (next_rotation, a, w) =
                (if due then case after sys rotation w of
                               (t, w) \<Rightarrow> (case UpdateResultsFileName sys a w of (a, w) \<Rightarrow> (t, a, w))
                 else (next_rotation, a, w))
          in Some ((next_round, next_report, next_rotation), a, w)))"

fun pong_managers :: "'w nic_sys \<Rightarrow> NicManager list \<Rightarrow> 'w \<Rightarrow> (NicManager list \<times> 'w) option" where
  "pong_managers sys [] w = Some ([], w)"
| "pong_managers sys (m # ms) w =
     (case NicManager_DoPongOps sys m w of
        None \<Rightarrow> None
      | Some (m, w) \<Rightarrow> map_option (\<lambda>(ms, w). (m # ms, w)) (pong_managers sys ms w))"

definition pong_thread_round :: "'w agent_sys \<Rightarrow> Agent \<Rightarrow> 'w \<Rightarrow> (Agent \<times> 'w) option" where
  "pong_thread_round sys a w =
     map_option (\<lambda>(ms, w). (a\<lparr>connection_managers := ms\<rparr>, w)) (pong_managers (as_nic sys) (connection_managers a) w)"

fun cleanup_managers :: "'w nic_sys \<Rightarrow> NicManager list \<Rightarrow> 'w \<Rightarrow> bool \<times> NicManager list \<times> 'w" where
  "cleanup_managers sys [] w = (True, [], w)"
| "cleanup_managers sys (m # ms) w =
     (case NicManager_Cleanup sys m w of
        (e, m, w) \<Rightarrow> (case cleanup_managers sys ms w of (ok, ms, w) \<Rightarrow> (e = kOk \<and> ok, m # ms, w)))"

text \<open>The threads that were told to stop are awaited at the end.\<close>

definition Agent_CleanUp :: "'w agent_sys \<Rightarrow> Agent \<Rightarrow> 'w \<Rightarrow> StatusCode \<times> Agent \<times> 'w" where
  "Agent_CleanUp sys a w =
     (case cleanup_managers (as_nic sys) (connection_managers a) w of
        (all_ok, ms, w) \<Rightarrow>
          (case ReportResults sys (a\<lparr>connection_managers := ms\<rparr>) w of
             (a, w) \<Rightarrow> (if all_ok then kOk else kInternal, a\<lparr>cancel_threads_flag := True\<rparr>, w)))"

section \<open>Services\<close>

record StartPingsRequest =
  probe_rate_qps :: int
  verify_payload :: bool
  targets :: "Target list"

definition StartPings ::
    "'w agent_sys \<Rightarrow> StartPingsRequest \<Rightarrow> int \<Rightarrow> nat list \<Rightarrow> Agent \<Rightarrow> 'w \<Rightarrow> ((rpc_code \<times> ConnectionResult list) \<times> Agent \<times> 'w) option" where
  "StartPings sys request deadline order a w =
     (case ReportResults sys a w of
        (a, w) \<Rightarrow>
          (case Agent_TearDownAllPingConnections sys a w of
             (a, w) \<Rightarrow>
               SetUpConnections sys (targets request) (verify_payload request) deadline order
                 (SetProbeInterval (probe_rate_qps request) a) w))"

definition StopPings :: "'w agent_sys \<Rightarrow> Agent \<Rightarrow> 'w \<Rightarrow> rpc_code \<times> Agent \<times> 'w" where
  "StopPings sys a w =
     (case ReportResults sys a w of
        (a, w) \<Rightarrow> (case Agent_TearDownAllPingConnections sys a w of (a, w) \<Rightarrow> (RPC_OK, a, w)))"

definition SetUpPongConnection ::
    "'w agent_sys \<Rightarrow> SetUpRequest \<Rightarrow> int \<Rightarrow> Agent \<Rightarrow> 'w \<Rightarrow> ((rpc_code \<times> int option) \<times> Agent \<times> 'w) option" where
  "SetUpPongConnection sys request deadline a w =
     (case GetConnectionManager (server_gpu_ip request) a of
        Inl _ \<Rightarrow> Some ((RPC_CANCELLED, None), a, w)
      | Inr i \<Rightarrow>
          (case CreatingPongConnection (as_nic sys) request deadline (connection_managers a ! i) w of
             None \<Rightarrow> None
           | Some (Inl _, m, w) \<Rightarrow> Some ((RPC_CANCELLED, None), set_manager i m a, w)
           | Some (Inr port, m, w) \<Rightarrow> Some ((RPC_OK, Some port), set_manager i m a, w)))"

definition TearDownConnection :: "'w agent_sys \<Rightarrow> TearDownRequest \<Rightarrow> Agent \<Rightarrow> 'w \<Rightarrow> rpc_code \<times> Agent \<times> 'w" where
  "TearDownConnection sys request a w =
     (case GetConnectionManager (if ping_ip_is_servers_nic request then ping_ip request else pong_ip request) a of
        Inl _ \<Rightarrow> (RPC_CANCELLED, a, w)
      | Inr i \<Rightarrow>
          (case RemoveConnection (as_nic sys) request (connection_managers a ! i) w of
             (e, m, w) \<Rightarrow> (if e \<noteq> kOk then RPC_CANCELLED else RPC_OK, set_manager i m a, w)))"

section \<open>Options\<close>

definition ParseBool :: "string \<Rightarrow> bool" where
  "ParseBool str = (AsciiStrToLower str \<in> {''true'', ''t'', ''1'', ''yes'', ''y''})"

fun split_commas :: "string \<Rightarrow> string list" where
  "split_commas [] = [[]]"
| "split_commas (ch # s) =
     (case split_commas s of
        [] \<Rightarrow> [[ch]]
      | f # fs \<Rightarrow> if ch = CHR '','' then [] # f # fs else (ch # f) # fs)"

text \<open>
  \<open>env\<close> is the environment; \<open>stoi\<close> is \<^verbatim>\<open>std::stoi\<close>, \<open>None\<close> when it throws, which ends the process as a missing list of
  addresses does.
\<close>

definition int_option :: "(string \<Rightarrow> int option) \<Rightarrow> string option \<Rightarrow> int \<Rightarrow> int option" where
  "int_option stoi value default_value = (case value of None \<Rightarrow> Some default_value | Some s \<Rightarrow> stoi s)"

definition GetAgentOptions :: "(string \<Rightarrow> int option) \<Rightarrow> (string \<Rightarrow> string option) \<Rightarrow> AgentOptions option" where
  "GetAgentOptions stoi env =
     (case env ''TCPXO_PROBER_GPU_NIC_IPS'' of
        None \<Rightarrow> None
      | Some ips \<Rightarrow>
          (case (int_option stoi (env ''TCPXO_PROBER_SERVER_PORT'') 8080, int_option stoi (env ''TCPXO_PROBER_MAX_QPS_LIMIT'') 5,
                 int_option stoi (env ''TCPXO_PROBER_MAX_CONNECTIONS_PER_NIC_LIMIT'') 0,
                 int_option stoi (env ''TCPXO_PROBER_PAYLOAD_SIZE'') 1,
                 int_option stoi (env ''TCPXO_PROBER_FILE_ROTATION_INTERVAL_IN_SECONDS'') 3600,
                 int_option stoi (env ''TCPXO_PROBER_OUTPUT_INTERVAL_IN_SECONDS'') 5) of
             (Some port, Some qps, Some conns, Some payload, Some rotation, Some output) \<Rightarrow>
               Some \<lparr>gpu_nic_ips = split_commas ips, server_port = port, ao_max_rpc_deadline = 2 * 1000000000,
                     ao_payload_size = of_int payload, max_probe_qps = qps, ao_max_connections_per_nic = conns,
                     results_file_prefix =
                       (case env ''TCPXO_PROBER_OUTPUT_FILE_PREFIX'' of None \<Rightarrow> ''tcpxo_probe_results'' | Some s \<Rightarrow> s),
                     results_directory = (case env ''TCPXO_PROBER_OUTPUT_FILES_PATH'' of None \<Rightarrow> ''/tmp'' | Some s \<Rightarrow> s),
                     results_file_rotation_interval = rotation * 1000000000,
                     results_file_output_interval = output * 1000000000, dxs_ips = [], dxs_ports = [],
                     ao_use_llcm = (case env ''TCPXO_PROBER_ENABLE_LLCM'' of None \<Rightarrow> True | Some s \<Rightarrow> ParseBool s),
                     ao_llcm_device_directory = ''/sys/bus/pci/devices''\<rparr>
           | _ \<Rightarrow> None))"


section \<open>Facts\<close>

lemma connect_ping_result:
  assumes "connect_ping sys remote_ip deadline pv m w = Some (r, m', w')"
  shows "nm_options m' = nm_options m"
    and "r \<in> {RESULT_SUCCESS, RESULT_FAILURE}"
    and "map (peer_ip \<circ> ping_conn) (ping_connections m') =
      map (peer_ip \<circ> ping_conn) (ping_connections m) @ (if r = RESULT_SUCCESS then [remote_ip] else [])"
  using assms
  by (auto simp: connect_ping_def Let_def new_PingConnection_def new_Connection_def split: prod.splits option.splits)

lemma CreatePingConnection_result:
  assumes "CreatePingConnection sys remote_ip verify deadline m w = Some (r, m', w')"
  shows "nm_options m' = nm_options m"
    and "r \<noteq> RESULT_UNSPECIFIED"
    and "map (peer_ip \<circ> ping_conn) (ping_connections m') =
      map (peer_ip \<circ> ping_conn) (ping_connections m) @ (if r = RESULT_SUCCESS then [remote_ip] else [])"
proof -
  consider "m' = m" "r \<in> {RESULT_FAILURE, RESULT_FAILURE_CONNECTION_LIMIT}"
    | pv w1 where "connect_ping sys remote_ip deadline pv m w1 = Some (r, m', w')"
    using assms by (auto simp: CreatePingConnection_def split: if_splits prod.splits sum.splits)
  then have "nm_options m' = nm_options m \<and> r \<noteq> RESULT_UNSPECIFIED \<and> map (peer_ip \<circ> ping_conn) (ping_connections m') =
      map (peer_ip \<circ> ping_conn) (ping_connections m) @ (if r = RESULT_SUCCESS then [remote_ip] else [])"
  proof cases
    case 2
    then show ?thesis using connect_ping_result [OF 2] by auto
  qed auto
  then show "nm_options m' = nm_options m"
    and "r \<noteq> RESULT_UNSPECIFIED"
    and "map (peer_ip \<circ> ping_conn) (ping_connections m') =
      map (peer_ip \<circ> ping_conn) (ping_connections m) @ (if r = RESULT_SUCCESS then [remote_ip] else [])"
    by blast+
qed

text \<open>With a limit, a manager never has more connections than that.\<close>

lemma CreatePingConnection_limit:
  assumes "CreatePingConnection sys remote_ip verify deadline m w = Some (r, m', w')"
    and "max_connections_per_nic (nm_options m) > 0"
    and "int (length (ping_connections m)) \<le> max_connections_per_nic (nm_options m)"
  shows "int (length (ping_connections m')) \<le> max_connections_per_nic (nm_options m')"
proof (cases "limit_reached (nm_options m) (ping_connections m)")
  case True
  then show ?thesis using assms by (simp add: CreatePingConnection_def)
next
  case False
  then have "int (length (ping_connections m)) < max_connections_per_nic (nm_options m)"
    using assms(2) by (simp add: limit_reached_def)
  moreover have "length (ping_connections m') \<le> length (ping_connections m) + 1"
    using arg_cong [OF CreatePingConnection_result(3) [OF assms(1)], of length] by (simp split: if_splits)
  ultimately show ?thesis using CreatePingConnection_result(1) [OF assms(1)] by simp
qed

lemma manager_at_cong: "map (nic_ip \<circ> nm_options) ms = map (nic_ip \<circ> nm_options) ms' \<Longrightarrow> manager_at ip ms = manager_at ip ms'"
proof (induction ms arbitrary: ms')
  case (Cons m ms)
  then show ?case by (cases ms') auto
qed simp

lemma manager_at_bound: "manager_at ip ms = Some i \<Longrightarrow> i < length ms"
  by (induction ms arbitrary: i) (auto split: if_splits)

text \<open>The peers of the ping connections of a manager, as a multiset.\<close>

definition peers_of :: "nat \<Rightarrow> Agent \<Rightarrow> string multiset" where
  "peers_of i a = mset (map (peer_ip \<circ> ping_conn) (ping_connections (connection_managers a ! i)))"

definition nic_ips_of :: "Agent \<Rightarrow> string list" where
  "nic_ips_of a = map (nic_ip \<circ> nm_options) (connection_managers a)"

lemma SetUpConnection_result:
  assumes "SetUpConnection sys t verify deadline a w = Some (r, a', w')"
  shows "nic_ips_of a' = nic_ips_of a" and "r \<noteq> RESULT_UNSPECIFIED"
    and "peers_of i a' = peers_of i a +
      (if r = RESULT_SUCCESS \<and> manager_at (local_nic_ip_address t) (connection_managers a) = Some i then {#peer_nic_ip_address t#} else {#})"
proof -
  consider (none) "manager_at (local_nic_ip_address t) (connection_managers a) = None" "r = RESULT_FAILURE" "a' = a"
    | (some) k m' where "manager_at (local_nic_ip_address t) (connection_managers a) = Some k"
        "CreatePingConnection (as_nic sys) (peer_nic_ip_address t) verify deadline (connection_managers a ! k) w = Some (r, m', w')"
        "a' = set_manager k m' a"
    using assms by (auto simp: SetUpConnection_def GetConnectionManager_def split: option.splits)
  then have "nic_ips_of a' = nic_ips_of a \<and> r \<noteq> RESULT_UNSPECIFIED \<and> peers_of i a' = peers_of i a +
      (if r = RESULT_SUCCESS \<and> manager_at (local_nic_ip_address t) (connection_managers a) = Some i then {#peer_nic_ip_address t#} else {#})"
  proof cases
    case none
    then show ?thesis by simp
  next
    case some
    note k = manager_at_bound [OF some(1)] and c = CreatePingConnection_result [OF some(2)]
    have "nic_ips_of a' = nic_ips_of a"
      using k c(1) some(3) by (auto simp: nic_ips_of_def set_manager_def map_update intro!: list_update_same_conv [THEN iffD2])
    moreover have "peers_of i a' = peers_of i a + (if r = RESULT_SUCCESS \<and> k = i then {#peer_nic_ip_address t#} else {#})"
    proof (cases "k = i")
      case True
      then show ?thesis using k some(3) arg_cong [OF c(3), of mset] by (simp add: peers_of_def set_manager_def)
    next
      case False
      then show ?thesis using some(3) by (simp add: peers_of_def set_manager_def)
    qed
    ultimately show ?thesis using c(2) some(1) by simp
  qed
  then show "nic_ips_of a' = nic_ips_of a" and "r \<noteq> RESULT_UNSPECIFIED"
    and "peers_of i a' = peers_of i a +
      (if r = RESULT_SUCCESS \<and> manager_at (local_nic_ip_address t) (connection_managers a) = Some i then {#peer_nic_ip_address t#} else {#})"
    by blast+
qed

lemma run_setups_result:
  assumes "run_setups sys ts verify deadline order rs a w = Some (rs', a', w')"
    and "distinct order" and "set order \<subseteq> {..<length rs}"
  shows "length rs' = length rs \<and> (\<forall>j. j \<notin> set order \<longrightarrow> rs' ! j = rs ! j) \<and> nic_ips_of a' = nic_ips_of a
    \<and> peers_of i a' = peers_of i a + mset (map (\<lambda>j. peer_nic_ip_address (ts ! j))
        (filter (\<lambda>j. rs' ! j = RESULT_SUCCESS \<and> manager_at (local_nic_ip_address (ts ! j)) (connection_managers a) = Some i) order))"
  using assms
proof (induction order arbitrary: rs a w)
  case (Cons j order)
  obtain r a1 w1 where s: "SetUpConnection sys (ts ! j) verify deadline a w = Some (r, a1, w1)"
    and rest: "run_setups sys ts verify deadline order (rs[j := r]) a1 w1 = Some (rs', a', w')"
    using Cons.prems(1) by (auto split: option.splits)
  note one = SetUpConnection_result [OF s]
  have ih: "length rs' = length rs" "\<forall>k. k \<notin> set order \<longrightarrow> rs' ! k = rs[j := r] ! k" "nic_ips_of a' = nic_ips_of a1"
    "peers_of i a' = peers_of i a1 + mset (map (\<lambda>j. peer_nic_ip_address (ts ! j))
        (filter (\<lambda>j. rs' ! j = RESULT_SUCCESS \<and> manager_at (local_nic_ip_address (ts ! j)) (connection_managers a1) = Some i) order))"
    using Cons.IH [OF rest] Cons.prems(2,3) by auto
  have at: "manager_at ip (connection_managers a1) = manager_at ip (connection_managers a)" for ip
    using one(1) by (intro manager_at_cong) (simp add: nic_ips_of_def)
  have "rs' ! j = r" using ih(2) Cons.prems(2,3) by auto
  moreover have "\<forall>k. k \<notin> set (j # order) \<longrightarrow> rs' ! k = rs ! k" using ih(2) by auto
  ultimately show ?case using ih one(1) one(3) [of i] at by simp
qed simp

lemma tear_down_pings_empty:
  "tear_down_pings sys ms w = (ms', w') \<Longrightarrow> ms' = map (\<lambda>m. m\<lparr>ping_connections := []\<rparr>) ms"
  by (induction ms arbitrary: ms' w w') (auto simp: NicManager_TearDownAllPingConnections_def Let_def split: prod.splits)

lemma SetUpConnections_run:
  assumes "SetUpConnections sys ts verify deadline order a w = Some ((code, rs), a', w')"
  shows "run_setups sys ts verify deadline order (replicate (length ts) RESULT_UNSPECIFIED) a w = Some (rs, a', w')"
proof (cases "run_setups sys ts verify deadline order (replicate (length ts) RESULT_UNSPECIFIED) a w")
  case (Some x)
  then show ?thesis using assms by (cases x) (simp add: SetUpConnections_def)
qed (use assms in \<open>simp add: SetUpConnections_def\<close>)

section \<open>Properties\<close>

text \<open>
  C15: after a request to start pings, in whatever order the threads of the pool set up the connections, a NIC has exactly one
  ping connection for each of its targets whose result says success, and none from before.
\<close>

theorem StartPings_connections:
  assumes "mset order = mset [0..<length (targets request)]"
    and "StartPings sys request deadline order a w = Some ((code, rs), a', w')"
    and "i < length (connection_managers a)"
  shows "mset (map (peer_ip \<circ> ping_conn) (ping_connections (connection_managers a' ! i))) =
    mset (map (peer_nic_ip_address \<circ> fst) (filter (\<lambda>(t, r). r = RESULT_SUCCESS
      \<and> manager_at (local_nic_ip_address t) (connection_managers a) = Some i) (zip (targets request) rs)))"
proof -
  let ?ts = "targets request" and ?n = "length (targets request)"
  let ?P = "\<lambda>(t, r). r = RESULT_SUCCESS \<and> manager_at (local_nic_ip_address t) (connection_managers a) = Some i"
  obtain a1 w1 where rep: "ReportResults sys a w = (a1, w1)" by fastforce
  obtain ms w2 where td: "tear_down_pings (as_nic sys) (connection_managers a1) w1 = (ms, w2)" by fastforce
  let ?a2 = "SetProbeInterval (probe_rate_qps request) (a1\<lparr>connection_managers := ms\<rparr>)"
  have ms: "ms = map (\<lambda>m. m\<lparr>ping_connections := []\<rparr>) (connection_managers a1)" by (rule tear_down_pings_empty [OF td])
  have a1: "connection_managers a1 = map (snd \<circ> NicManager_GetAndClearResults) (connection_managers a)"
    using rep by (auto simp: ReportResults_def Let_def)
  have cm: "connection_managers ?a2 = ms" by (simp add: SetProbeInterval_def Let_def)
  have run: "run_setups sys ?ts (verify_payload request) deadline order (replicate ?n RESULT_UNSPECIFIED) ?a2 w2 = Some (rs, a', w')"
    by (rule SetUpConnections_run) (use assms(2) rep td in \<open>simp add: StartPings_def Agent_TearDownAllPingConnections_def\<close>)
  have ips: "map (nic_ip \<circ> nm_options) ms = map (nic_ip \<circ> nm_options) (connection_managers a)"
    unfolding ms a1 by (simp add: NicManager_GetAndClearResults_def)
  then have at: "manager_at ip ms = manager_at ip (connection_managers a)" for ip by (rule manager_at_cong)
  have order: "distinct order" "set order = {..<?n}"
    by (simp add: mset_eq_imp_distinct_iff [OF assms(1)]) (simp add: mset_eq_setD [OF assms(1)] atLeast0LessThan)
  have old: "peers_of i ?a2 = {#}"
    using assms(3) unfolding peers_of_def cm by (simp add: ms a1)
  have res: "length rs = ?n" "peers_of i a' = mset (map (\<lambda>j. peer_nic_ip_address (?ts ! j))
      (filter (\<lambda>j. rs ! j = RESULT_SUCCESS \<and> manager_at (local_nic_ip_address (?ts ! j)) ms = Some i) order))"
    using run_setups_result [OF run order(1), of i] order(2) old by (simp_all add: cm)
  have "peers_of i a' = mset (map (\<lambda>j. peer_nic_ip_address (?ts ! j)) (filter (\<lambda>j. ?P (?ts ! j, rs ! j)) order))"
    using res(2) by (simp add: at)
  also have "\<dots> = image_mset (\<lambda>j. peer_nic_ip_address (?ts ! j)) (filter_mset (\<lambda>j. ?P (?ts ! j, rs ! j)) (mset [0..<?n]))"
    unfolding assms(1) [symmetric] by (simp only: mset_map mset_filter)
  also have "\<dots> = mset (map (peer_nic_ip_address \<circ> fst) (filter ?P (map (\<lambda>j. (?ts ! j, rs ! j)) [0..<?n])))"
    unfolding filter_map map_map by (simp only: mset_map mset_filter comp_def fst_conv)
  also have "map (\<lambda>j. (?ts ! j, rs ! j)) [0..<?n] = zip ?ts rs" using res(1) by (intro nth_equalityI) simp_all
  finally show ?thesis unfolding peers_of_def .
qed

lemma cleanup_managers_empty:
  "cleanup_managers sys ms w = (ok, ms', w') \<Longrightarrow> list_all (\<lambda>m. ping_connections m = []) ms'"
proof (induction ms arbitrary: ok ms' w w')
  case (Cons m ms)
  obtain e m1 w1 where c: "NicManager_Cleanup sys m w = (e, m1, w1)" by (metis surj_pair)
  obtain ok2 ms2 w2 where r: "cleanup_managers sys ms w1 = (ok2, ms2, w2)" by (metis surj_pair)
  have "ping_connections m1 = []"
    using c by (auto simp: NicManager_Cleanup_def NicManager_TearDownAllPingConnections_def
        NicManager_TearDownAllPongConnections_def split_beta Let_def split: if_splits)
  then show ?case using Cons.IH [OF r] Cons.prems c r by auto
qed simp



text \<open>An agent with one NIC in a network where the agent at \<^verbatim>\<open>x\<close> does not answer; the world counts what is written to files.\<close>

definition sample_nic_sys :: "(int \<times> nat) nic_sys" where
  "sample_nic_sys =
     \<lparr>ns_probe = sample_probe, ns_InitCuda = (\<lambda>w. (kOk, w)), ns_BufferManagerClient = (\<lambda>_ w. (kOk, w)),
      ns_find_gpu_pci = (\<lambda>_ w. (Inr [], w)), ns_validator_Init = (\<lambda>_ w. (kOk, w)), ns_helper_Init = (\<lambda>_ w. (kOk, w)),
      ns_DxsClient = (\<lambda>_ _ _ _ _ w. (kOk, w)), ns_CreateBuffer = (\<lambda>_ _ w. (Inr 1, w)), ns_GetFd = (\<lambda>_ _ _. Inr 4),
      ns_RegBuf = (\<lambda>_ _ _ w. (Inr 9, w)), ns_Listen = (\<lambda>_ w. (Inr 20, w)), ns_ListenReady = (\<lambda>_ w. (Some kOk, w)),
      ns_Port = (\<lambda>_ _. 7000), ns_Connect = (\<lambda>_ _ _ w. (Inr 21, w)), ns_SendReady = (\<lambda>_ w. (Some kOk, w)),
      ns_Accept = (\<lambda>_ w. (Inr (Some 22), w)), ns_RecvReady = (\<lambda>_ w. (Some kOk, w)), ns_CloseListenSocket = (\<lambda>_ w. w),
      ns_SetUpPong = (\<lambda>_ _ r w. (if server_gpu_ip r = ''x'' then None else Some 7001, w)), ns_TearDown = (\<lambda>_ _ w. w)\<rparr>"

definition sample_agent_sys :: "(int \<times> nat) agent_sys" where
  "sample_agent_sys =
     \<lparr>as_nic = sample_nic_sys, as_append = (\<lambda>_ text (t, n). (t, n + length text)), as_create_directories = (\<lambda>_ w. (True, w))\<rparr>"

definition sample_agent :: "string list \<Rightarrow> Agent" where
  "sample_agent waiting =
     (new_Agent (the (GetAgentOptions (\<lambda>_. None) [''TCPXO_PROBER_GPU_NIC_IPS'' \<mapsto> ''a''])))
       \<lparr>connection_managers :=
         [(new_NicManager \<lparr>nic_ip = ''a'', dxs_ip = [], dxs_port = [], grpc_port = 1, max_rpc_deadline = 1000, nic_payload_size = 8,
             max_connections_per_nic = 0, nic_use_llcm = False, nic_llcm_device_directory = []\<rparr>)
           \<lparr>ping_connections := [sample_ping\<lparr>results := waiting\<rparr>]\<rparr>]\<rparr>"

definition sample_request :: StartPingsRequest where
  "sample_request =
     \<lparr>probe_rate_qps = 1, verify_payload = False,
      targets = [\<lparr>local_nic_ip_address = ''a'', peer_nic_ip_address = ''b''\<rparr>, \<lparr>local_nic_ip_address = ''a'', peer_nic_ip_address = ''x''\<rparr>]\<rparr>"

lemmas sample_agent_defs = sample_agent_sys_def sample_nic_sys_def sample_agent_def sample_request_def new_Agent_def new_NicManager_def

lemma sample_StartPings:
  "\<exists>a' w'. StartPings sample_agent_sys sample_request 5000 [1, 0] (sample_agent [''r'']) (3, 0)
     = Some ((RPC_INTERNAL, [RESULT_SUCCESS, RESULT_FAILURE]), a', w')"
  by (simp add: sample_agent_defs sample_probe_def StartPings_def ReportResults_def Agent_TearDownAllPingConnections_def
      NicManager_TearDownAllPingConnections_def SetProbeInterval_def SetUpConnections_def SetUpConnection_def
      GetConnectionManager_def CreatePingConnection_def connect_ping_def open_ping_sockets_def NicManager_Listen_def
      NicManager_Connect_def NicManager_Accept_def SetUpClient_def poll_ready.simps poll_accept.simps limit_reached_def
      NicManager_GetAndClearResults_def GetAndClearResults_def set_manager_def TearDownClient_def
      delete_PingConnection_def delete_Connection_def drop_op_def sample_ping_defs Let_def split_beta)

theorem StartPings_connections_witness:
  "\<exists>a' w'. StartPings sample_agent_sys sample_request 5000 [1, 0] (sample_agent [''r'']) (3, 0)
       = Some ((RPC_INTERNAL, [RESULT_SUCCESS, RESULT_FAILURE]), a', w')
     \<and> mset (map (peer_ip \<circ> ping_conn) (ping_connections (connection_managers a' ! 0))) = {#''b''#}"
proof -
  obtain a' w' where run: "StartPings sample_agent_sys sample_request 5000 [1, 0] (sample_agent [''r'']) (3, 0)
      = Some ((RPC_INTERNAL, [RESULT_SUCCESS, RESULT_FAILURE]), a', w')" using sample_StartPings by blast
  have "mset (map (peer_ip \<circ> ping_conn) (ping_connections (connection_managers a' ! 0))) = {#''b''#}"
    by (subst StartPings_connections [OF _ run]) (simp_all add: sample_agent_defs)
  with run show ?thesis by (intro exI conjI)
qed


end
