(* ===== verification/Spec2Isabelle.thy ===== *)
theory Spec2Isabelle
  imports Spsc_Interleaving Llcm_Handler Status_Text Buffer_Manager Plugin_On_Dxs Plugin_Api Unix_Socket Sctp_Handler Net_Ifs Rxdm_Daemon Dxs_Setup Gpu_Kernels Rxdm_Client Prober_Agent
begin

text \<open>
  A model of the host software of GPUDirect-TCPXO: the NCCL network plugin, the DXS client library
  it talks to the network interface with, and the buffer management daemon.

  \<^bold>\<open>The parts modelled so far.\<close>

  \<^item> \<open>Tcpxo_Prelude\<close>: machine words, status codes, little-endian bytes, copies into memory and into
    rings, and the shared lemmas.
  \<^item> \<open>Spsc_Queue_Pair\<close>: \<^verbatim>\<open>dxs/client/spsc_queue/spsc_queue_pair.{h,cc}\<close>, the byte-level queue
    between the guest and the network interface.
  \<^item> \<open>Spsc_Interleaving\<close>: both ends of such a queue running at once.
\<close>

end
